(* ===== verification/Prelude.thy ===== *)
theory Prelude
  imports Main "HOL-Library.Word"
begin

text \<open>
  Shared vocabulary of the development. JavaScript strings are sequences of UTF-16 code
  units, so a string of the program is a list of 16-bit words (\<open>jstr\<close>); ASCII literals
  of the source are written \<open>js ''...''\<close>, other literals as their code units. The
  generic search combinator \<open>first_some\<close> (the backtracking order of a regular-expression
  engine) and its lemmas, and the list facts shared by the component theories, are here.
\<close>

named_theorems jsstr_simps "evaluation rules for strings of the JavaScript model"

type_synonym cunit = "16 word"
type_synonym jstr = "cunit list"

definition js :: "string \<Rightarrow> jstr" where
  "js s = map (\<lambda>c. of_nat (of_char c)) s"

text \<open>
  The first result of a search over candidates in order: the first \<open>x\<close> of the list with
  \<open>f x \<noteq> None\<close> gives the result. A regular-expression engine explores start positions
  and quantifier counts in exactly such an order.
\<close>

fun first_some :: "('a \<Rightarrow> 'b option) \<Rightarrow> 'a list \<Rightarrow> 'b option" where
  "first_some f [] = None"
| "first_some f (x # xs) = (case f x of None \<Rightarrow> first_some f xs | Some y \<Rightarrow> Some y)"

subsection \<open>Strings\<close>

lemma js_Nil [simp, jsstr_simps]: "js [] = []"
  by (simp add: js_def)

lemma js_Cons [jsstr_simps]: "js (c # cs) = of_nat (of_char c) # js cs"
  by (simp add: js_def)

lemma js_append [simp, jsstr_simps]: "js (a @ b) = js a @ js b"
  by (simp add: js_def)

lemma length_js [simp]: "length (js s) = length s"
  by (simp add: js_def)

subsection \<open>The search combinator\<close>

lemma first_some_None_iff: "first_some f xs = None \<longleftrightarrow> (\<forall>x\<in>set xs. f x = None)"
  by (induction xs) (auto split: option.splits)

lemma first_some_upt_None_mono:
  "a \<le> b \<Longrightarrow> first_some f [a..<c] = None \<Longrightarrow> first_some f [b..<c] = None"
  by (auto simp: first_some_None_iff simp del: upt_Suc)

lemma find_upt_None_mono:
  "a \<le> b \<Longrightarrow> find P [a..<c] = None \<Longrightarrow> find P [b..<c] = None"
  by (auto simp: find_None_iff simp del: upt_Suc)

lemma first_some_append:
  "first_some f (xs @ ys) = (case first_some f xs of None \<Rightarrow> first_some f ys | Some y \<Rightarrow> Some y)"
  by (induction xs) (auto split: option.splits)

lemma first_some_guard_Some:
  "first_some (\<lambda>x. if P x then Some (g x) else None) xs = map_option g (find P xs)"
  by (induction xs) auto

text \<open>
  The key fact for lazy regular-expression quantifiers: when the continuation \<open>g\<close> can
  only fail more often at later candidates, trying the candidates in increasing order
  amounts to trying the first one that passes the guard.
\<close>

lemma first_some_guard_antimono:
  assumes "sorted xs"
    and mono: "\<And>x y. x \<le> y \<Longrightarrow> g x = None \<Longrightarrow> g y = None"
  shows "first_some (\<lambda>x. if P x then g x else None) xs =
           (case find P xs of None \<Rightarrow> None | Some x \<Rightarrow> g x)"
  using assms(1)
proof (induction xs)
  case Nil
  then show ?case by simp
next
  case (Cons x xs)
  show ?case
  proof (cases "P x")
    case True
    show ?thesis
    proof (cases "g x")
      case None
      with Cons.prems mono have "\<forall>y\<in>set xs. g y = None" by auto
      then have "first_some (\<lambda>x. if P x then g x else None) xs = None"
        by (auto simp: first_some_None_iff)
      with True None show ?thesis by simp
    qed (use True in simp)
  next
    case False
    with Cons show ?thesis by simp
  qed
qed

end
