(* ===== verification/CatalogMatch.thy ===== *)
theory CatalogMatch
  imports Prelude
begin

text \<open>
  The catalog search of \<open>loadTemplate\<close> (generate.js, lines 53--55 and 69): the regular
  expression \<^verbatim>\<open>## NAME[\s\S]*?```json([\s\S]*?)```\<close> with flag \<open>i\<close>, run by
  \<open>String.prototype.match\<close> without the \<open>g\<close> flag, which returns the first match and its
  capture group. \<open>regex_exec\<close> is the engine's semantics for this pattern: start positions
  left to right, each lazy \<open>[\s\S]*?\<close> tried with the fewest code units first, every
  literal compared case-insensitively. \<open>find_block\<close> is the direct description (first
  heading, first \<^verbatim>\<open>```json\<close> after it, first \<^verbatim>\<open>```\<close> after that) by a
  left-to-right scan; the two are proved equal.
\<close>

subsection \<open>Case-insensitive comparison\<close>

text \<open>
  The \<open>i\<close> flag without \<open>u\<close> compares code units after \<open>Canonicalize\<close>, which maps a
  code unit to its upper case. The model folds the ASCII letters; letters outside ASCII
  (Latin-1, Greek, Cyrillic) compare exactly.
\<close>

definition canon :: "cunit \<Rightarrow> cunit" where
  "canon c = (if 0x61 \<le> c \<and> c \<le> 0x7A then c - 0x20 else c)"

definition ci_eq :: "jstr \<Rightarrow> jstr \<Rightarrow> bool" where
  "ci_eq a b \<longleftrightarrow> map canon a = map canon b"

definition lit_at :: "jstr \<Rightarrow> jstr \<Rightarrow> nat \<Rightarrow> bool" where
  "lit_at pat s i \<longleftrightarrow> i + length pat \<le> length s \<and> ci_eq (take (length pat) (drop i s)) pat"

definition fence_json :: jstr where
  "fence_json = js ''```json''"

definition fence :: jstr where
  "fence = js ''```''"

definition heading :: "jstr \<Rightarrow> jstr" where
  "heading name = js ''## '' @ name"

subsection \<open>The engine's semantics\<close>

text \<open>
  \<open>regex_exec h s\<close> is \<open>s.match(pattern)[1]\<close> for the pattern whose literal prefix is
  \<open>h\<close>, \<open>None\<close> when \<open>match\<close> returns \<open>null\<close>: start position \<open>p\<close>, end \<open>q\<close> of the
  first lazy gap, end \<open>r\<close> of the captured lazy gap, each in increasing order.
\<close>

definition regex_exec :: "jstr \<Rightarrow> jstr \<Rightarrow> jstr option" where
  "regex_exec h s =
     first_some (\<lambda>p. if lit_at h s p then
       first_some (\<lambda>q. if lit_at fence_json s q then
         first_some (\<lambda>r. if lit_at fence s r
                          then Some (take (r - (q + length fence_json)) (drop (q + length fence_json) s))
                          else None)
           [q + length fence_json..<Suc (length s)]
         else None) [p + length h..<Suc (length s)]
       else None) [0..<Suc (length s)]"

subsection \<open>The scan\<close>

fun ci_prefix :: "jstr \<Rightarrow> jstr \<Rightarrow> bool" where
  "ci_prefix [] s = True"
| "ci_prefix (p # ps) [] = False"
| "ci_prefix (p # ps) (c # cs) = (canon p = canon c \<and> ci_prefix ps cs)"

text \<open>\<open>index_of pat s i\<close>: the first position, counted from \<open>i\<close>, where \<open>pat\<close> occurs in \<open>s\<close>.\<close>

fun index_of :: "jstr \<Rightarrow> jstr \<Rightarrow> nat \<Rightarrow> nat option" where
  "index_of pat [] i = (if pat = [] then Some i else None)"
| "index_of pat (c # cs) i = (if ci_prefix pat (c # cs) then Some i else index_of pat cs (Suc i))"

definition find_block :: "jstr \<Rightarrow> jstr \<Rightarrow> jstr option" where
  "find_block h s =
     (case index_of h s 0 of
        None \<Rightarrow> None
      | Some p \<Rightarrow>
          (case index_of fence_json (drop (p + length h) s) (p + length h) of
             None \<Rightarrow> None
           | Some q \<Rightarrow>
               (case index_of fence (drop (q + length fence_json) s) (q + length fence_json) of
                  None \<Rightarrow> None
                | Some r \<Rightarrow> Some (take (r - (q + length fence_json)) (drop (q + length fence_json) s)))))"

subsection \<open>The scan finds the first occurrence\<close>

lemma length_fence_json: "length fence_json = 7"
  by (simp add: fence_json_def)

lemma length_fence: "length fence = 3"
  by (simp add: fence_def)

lemma ci_prefix_iff: "ci_prefix p s \<longleftrightarrow> length p \<le> length s \<and> ci_eq (take (length p) s) p"
  by (induction p s rule: ci_prefix.induct) (auto simp: ci_eq_def)

lemma index_of_find:
  "i \<le> length s \<Longrightarrow> index_of pat (drop i s) i = find (lit_at pat s) [i..<Suc (length s)]"
proof (induction "length s - i" arbitrary: i)
  case 0
  then have "i = length s" by simp
  then show ?case
    by (auto simp: lit_at_def ci_eq_def)
next
  case (Suc n)
  then have i: "i < length s" by simp
  then have d: "drop i s = s ! i # drop (Suc i) s" by (simp add: Cons_nth_drop_Suc)
  have u: "[i..<Suc (length s)] = i # [Suc i..<Suc (length s)]"
    using i by (simp add: upt_rec)
  have "ci_prefix pat (drop i s) \<longleftrightarrow> lit_at pat s i"
    using i by (auto simp: ci_prefix_iff lit_at_def)
  with Suc.hyps(1) [of "Suc i"] Suc.hyps(2) d u show ?case
    by (simp del: upt_Suc)
qed

subsection \<open>The engine's match is the first-occurrence scan\<close>

lemma lit_at_bound: "lit_at pat s i \<Longrightarrow> i + length pat \<le> length s"
  by (simp add: lit_at_def)

lemma capture_find:
  "first_some (\<lambda>r. if lit_at fence s r then Some (take (r - (q + length fence_json)) (drop (q + length fence_json) s)) else None)
     [q + length fence_json..<Suc (length s)]
   = map_option (\<lambda>r. take (r - (q + length fence_json)) (drop (q + length fence_json) s))
       (find (lit_at fence s) [q + length fence_json..<Suc (length s)])"
  by (rule first_some_guard_Some)

text \<open>The engine's match is the first-occurrence scan, for every prefix and subject.\<close>

lemma regex_exec_scan: "regex_exec h s = find_block h s"
proof -
  let ?R = "\<lambda>q. first_some (\<lambda>r. if lit_at fence s r
              then Some (take (r - (q + length fence_json)) (drop (q + length fence_json) s)) else None)
              [q + length fence_json..<Suc (length s)]"
  let ?G = "\<lambda>p. first_some (\<lambda>q. if lit_at fence_json s q then ?R q else None) [p + length h..<Suc (length s)]"
  have R_None: "?R q = None \<longleftrightarrow> find (lit_at fence s) [q + length fence_json..<Suc (length s)] = None" for q
    by (simp only: capture_find map_option_is_None)
  have R_mono: "?R q' = None" if "q \<le> q'" "?R q = None" for q q'
    using that find_upt_None_mono [of "q + length fence_json" "q' + length fence_json"]
    by (simp only: R_None add_le_mono1)
  have G_eq: "?G p = (case find (lit_at fence_json s) [p + length h..<Suc (length s)] of
                        None \<Rightarrow> None | Some q \<Rightarrow> ?R q)" for p
    by (rule first_some_guard_antimono) (simp del: upt_Suc, rule R_mono, assumption+)
  have G_mono: "?G p' = None" if "p \<le> p'" "?G p = None" for p p'
    by (rule first_some_upt_None_mono [OF _ that(2)]) (simp add: that(1))
  have top: "regex_exec h s = (case find (lit_at h s) [0..<Suc (length s)] of None \<Rightarrow> None | Some p \<Rightarrow> ?G p)"
    unfolding regex_exec_def by (rule first_some_guard_antimono) (simp del: upt_Suc, rule G_mono, assumption+)
  show ?thesis
  proof (cases "find (lit_at h s) [0..<Suc (length s)]")
    case None
    then show ?thesis using index_of_find [of 0 s h] by (simp add: top find_block_def del: upt_Suc)
  next
    case Sp: (Some p)
    then have p: "lit_at h s p" by (auto simp: find_Some_iff)
    then have pl: "p + length h \<le> length s" by (rule lit_at_bound)
    show ?thesis
    proof (cases "find (lit_at fence_json s) [p + length h..<Suc (length s)]")
      case None
      then show ?thesis
        using Sp index_of_find [of 0 s h] index_of_find [OF pl, of fence_json]
        by (simp add: top G_eq find_block_def del: upt_Suc)
    next
      case (Some q)
      then have "lit_at fence_json s q" by (auto simp: find_Some_iff)
      then have ql: "q + length fence_json \<le> length s" by (rule lit_at_bound)
      show ?thesis
        using Sp Some index_of_find [of 0 s h] index_of_find [OF pl, of fence_json]
          index_of_find [OF ql, of fence]
        by (simp add: top G_eq capture_find find_block_def del: upt_Suc split: option.split)
    qed
  qed
qed
subsection \<open>Scanning a known text\<close>

lemma ci_prefix_self: "ci_prefix p (p @ t)"
  by (induction p) auto

lemma index_of_at: "p \<noteq> [] \<Longrightarrow> index_of p (p @ t) i = Some i"
  by (cases p) (simp_all add: ci_prefix_self [of "_ # _", simplified])

lemma index_of_skip:
  "p \<noteq> [] \<Longrightarrow> canon (hd p) \<notin> canon ` set xs \<Longrightarrow> index_of p (xs @ p @ t) i = Some (i + length xs)"
proof (induction xs arbitrary: i)
  case Nil
  then show ?case by (simp add: index_of_at)
next
  case (Cons x xs)
  from Cons.prems obtain q qs where p: "p = q # qs" by (cases p) auto
  with Cons.prems have "\<not> ci_prefix p (x # xs @ p @ t)" by auto
  with Cons show ?case by simp
qed

lemma canon_backtick: "canon c = 0x60 \<longleftrightarrow> c = 0x60"
  by (auto simp: canon_def)

lemma no_backtick_canon: "0x60 \<notin> set xs \<Longrightarrow> 0x60 \<notin> canon ` set xs"
proof
  assume n: "0x60 \<notin> set xs" and "0x60 \<in> canon ` set xs"
  then obtain c where "c \<in> set xs" "canon c = 0x60" by (auto simp: eq_commute)
  with n show False by (simp add: canon_backtick)
qed

text \<open>
  A text that starts with the heading and has no backtick before the \<^verbatim>\<open>```json\<close>
  fence nor inside the block: the block is the text up to the next fence.
\<close>

lemma find_block_first:
  assumes h: "h \<noteq> []" and g: "0x60 \<notin> set gap" and b: "0x60 \<notin> set body"
  shows "find_block h (h @ gap @ fence_json @ body @ fence @ rest) = Some body"
proof -
  let ?s = "h @ gap @ fence_json @ body @ fence @ rest"
  have p: "index_of h ?s 0 = Some 0" by (rule index_of_at [OF h])
  have fj: "fence_json \<noteq> []" "canon (hd fence_json) = 0x60" by (simp_all add: fence_json_def js_def canon_def)
  have cg: "canon (hd fence_json) \<notin> canon ` set gap" using no_backtick_canon [OF g] fj(2) by simp
  have q: "index_of fence_json (drop (0 + length h) ?s) (0 + length h) = Some (length h + length gap)"
    using index_of_skip [OF fj(1) cg, of "body @ fence @ rest" "length h"] by simp
  have f: "fence \<noteq> []" "canon (hd fence) = 0x60" by (simp_all add: fence_def js_def canon_def)
  have cb: "canon (hd fence) \<notin> canon ` set body" using no_backtick_canon [OF b] f(2) by simp
  have r: "index_of fence (drop (length h + length gap + length fence_json) ?s) (length h + length gap + length fence_json) =
           Some (length h + length gap + length fence_json + length body)"
    using index_of_skip [OF f(1) cb, of rest "length h + length gap + length fence_json"] by simp
  show ?thesis using p q r by (simp add: find_block_def)
qed

text \<open>
  C5. The match of the catalog pattern, as the backtracking engine finds it, is the
  text between the first \<^verbatim>\<open>```json\<close> after the first heading and the next
  \<^verbatim>\<open>```\<close>: the engine's semantics equals the left-to-right scan.
\<close>

theorem regex_exec_find_block: "regex_exec h s = find_block h s"
  by (rule regex_exec_scan)

end
