(* ===== verification/JsValue.thy ===== *)
theory JsValue
  imports Prelude
begin

text \<open>
  The JavaScript values the program handles: the values \<open>JSON.parse\<close> produces
  (\<open>jval\<close>), \<open>undefined\<close> (a missing property), the exceptions that can reach
  \<open>main\<close>, truthiness (the \<open>||\<close> of line 60) and property access \<open>o.k\<close>.
  Numbers are kept as the decimal they were written as, \<open>JNum m e\<close> for
  \<open>m * 10 ^ e\<close>; only whether the nearest double is zero is observed by the program.
\<close>

datatype jval =
    JNull
  | JBool bool
  | JNum int int
  | JStr jstr
  | JArr "jval list"
  | JObj "(jstr \<times> jval) list"

datatype jsv = Undefined | JV jval

datatype js_error = SyntaxError | TypeError | IOError

text \<open>
  A decimal \<open>m * 10 ^ e\<close> becomes the double \<open>+0\<close> or \<open>-0\<close> exactly when its
  magnitude is at most half the least subnormal, \<open>2 ^ -1075\<close> (round to nearest, ties to
  even).
\<close>

definition num_is_zero :: "int \<Rightarrow> int \<Rightarrow> bool" where
  "num_is_zero m e \<longleftrightarrow> m = 0 \<or> (e < 0 \<and> \<bar>m\<bar> * 2 ^ 1075 \<le> 10 ^ nat (- e))"

fun truthy :: "jsv \<Rightarrow> bool" where
  "truthy Undefined = False"
| "truthy (JV JNull) = False"
| "truthy (JV (JBool b)) = b"
| "truthy (JV (JNum m e)) = (\<not> num_is_zero m e)"
| "truthy (JV (JStr s)) = (s \<noteq> [])"
| "truthy (JV (JArr xs)) = True"
| "truthy (JV (JObj kvs)) = True"

text \<open>\<open>a || b\<close>: the left operand when it is truthy, else the right one.\<close>

definition js_or :: "jsv \<Rightarrow> jsv \<Rightarrow> jsv" where
  "js_or a b = (if truthy a then a else b)"

text \<open>
  \<open>o.k\<close> for the identifier keys the program reads (\<open>items\<close>, \<open>function\<close>,
  \<open>points\<close>): none of them is a property of arrays, strings, numbers, booleans or
  \<open>Object.prototype\<close>, so only an object's own entry is found; \<open>JSON.parse\<close> keeps the
  last of duplicate keys. Reading a property of \<open>null\<close> or \<open>undefined\<close> throws.
\<close>

fun get_prop :: "jsv \<Rightarrow> jstr \<Rightarrow> js_error + jsv" where
  "get_prop Undefined k = Inl TypeError"
| "get_prop (JV JNull) k = Inl TypeError"
| "get_prop (JV (JObj kvs)) k = Inr (case map_of (rev kvs) k of None \<Rightarrow> Undefined | Some v \<Rightarrow> JV v)"
| "get_prop (JV (JBool b)) k = Inr Undefined"
| "get_prop (JV (JNum m e)) k = Inr Undefined"
| "get_prop (JV (JStr s)) k = Inr Undefined"
| "get_prop (JV (JArr xs)) k = Inr Undefined"

lemma js_or_truthy [simp]: "truthy a \<Longrightarrow> js_or a b = a"
  by (simp add: js_or_def)

lemma js_or_falsy [simp]: "\<not> truthy a \<Longrightarrow> js_or a b = b"
  by (simp add: js_or_def)

lemma get_prop_obj_last:
  "get_prop (JV (JObj (kvs @ [(k, v)]))) k = Inr (JV v)"
  by simp

lemma get_prop_Inl_iff: "get_prop x k = Inl err \<longleftrightarrow> (x = Undefined \<or> x = JV JNull) \<and> err = TypeError"
  by (cases x rule: truthy.cases) auto

end
