(* ===== verification/Json.thy ===== *)
theory Json
  imports JsValue
begin

text \<open>
  \<open>JSON.parse(match[1].trim())\<close> (generate.js, lines 59 and 72): \<open>js_trim\<close> is
  \<open>String.prototype.trim\<close>, \<open>json_parse\<close> is \<open>JSON.parse\<close> without a reviver, on the
  grammar of ECMA-404 as ECMAScript's \<open>JSON.parse\<close> accepts it. The lexical parts
  (strings, numbers, literals) are structural recursions; values nest, so the recursive
  descent \<open>pvalue\<close>/\<open>parr\<close>/\<open>pobj\<close> carries fuel, and \<open>json_parse\<close> gives it
  \<open>json_fuel\<close> units, which the lemmas below show is never the reason for a failure.
\<close>

subsection \<open>Characters\<close>

definition is_js_space :: "cunit \<Rightarrow> bool" where
  "is_js_space c \<longleftrightarrow> c \<in> set [0x09, 0x0A, 0x0B, 0x0C, 0x0D, 0x20, 0xA0, 0x1680,
     0x2000, 0x2001, 0x2002, 0x2003, 0x2004, 0x2005, 0x2006, 0x2007, 0x2008, 0x2009, 0x200A,
     0x2028, 0x2029, 0x202F, 0x205F, 0x3000, 0xFEFF]"

definition js_trim :: "jstr \<Rightarrow> jstr" where
  "js_trim s = rev (dropWhile is_js_space (rev (dropWhile is_js_space s)))"

definition is_ws :: "cunit \<Rightarrow> bool" where
  "is_ws c \<longleftrightarrow> c = 0x20 \<or> c = 0x09 \<or> c = 0x0A \<or> c = 0x0D"

definition skip_ws :: "jstr \<Rightarrow> jstr" where
  "skip_ws s = dropWhile is_ws s"

definition is_digit :: "cunit \<Rightarrow> bool" where
  "is_digit c \<longleftrightarrow> 0x30 \<le> c \<and> c \<le> 0x39"

definition digits_nat :: "jstr \<Rightarrow> nat" where
  "digits_nat ds = foldl (\<lambda>n d. 10 * n + (unat d - 48)) 0 ds"

definition hex_val :: "cunit \<Rightarrow> nat option" where
  "hex_val c =
     (if 0x30 \<le> c \<and> c \<le> 0x39 then Some (unat c - 0x30)
      else if 0x61 \<le> c \<and> c \<le> 0x66 then Some (unat c - 0x57)
      else if 0x41 \<le> c \<and> c \<le> 0x46 then Some (unat c - 0x37)
      else None)"

definition hex4 :: "cunit \<Rightarrow> cunit \<Rightarrow> cunit \<Rightarrow> cunit \<Rightarrow> cunit option" where
  "hex4 a b c d =
     (case (hex_val a, hex_val b, hex_val c, hex_val d) of
        (Some w, Some x, Some y, Some z) \<Rightarrow> Some (of_nat (((w * 16 + x) * 16 + y) * 16 + z))
      | _ \<Rightarrow> None)"

subsection \<open>Strings\<close>

text \<open>
  After the opening quote: code units up to the closing quote, escapes decoded; an
  unescaped control character (below U+0020) is a syntax error.
\<close>

fun lex_string :: "jstr \<Rightarrow> jstr \<Rightarrow> (jstr \<times> jstr) option" where
  "lex_string acc [] = None"
| "lex_string acc (c # cs) =
     (if c = 0x22 then Some (rev acc, cs)
      else if c = 0x5C then
        (case cs of
           [] \<Rightarrow> None
         | e # r \<Rightarrow>
             if e = 0x22 \<or> e = 0x5C \<or> e = 0x2F then lex_string (e # acc) r
             else if e = 0x62 then lex_string (0x08 # acc) r
             else if e = 0x66 then lex_string (0x0C # acc) r
             else if e = 0x6E then lex_string (0x0A # acc) r
             else if e = 0x72 then lex_string (0x0D # acc) r
             else if e = 0x74 then lex_string (0x09 # acc) r
             else if e = 0x75 then
               (case r of
                  a # b # c' # d # r' \<Rightarrow>
                    (case hex4 a b c' d of None \<Rightarrow> None | Some u \<Rightarrow> lex_string (u # acc) r')
                | _ \<Rightarrow> None)
             else None)
      else if c < 0x20 then None
      else lex_string (c # acc) cs)"

subsection \<open>Numbers\<close>

definition lex_int :: "jstr \<Rightarrow> (jstr \<times> jstr) option" where
  "lex_int s =
     (case s of
        [] \<Rightarrow> None
      | d # r \<Rightarrow>
          if d = 0x30 then Some ([d], r)
          else if is_digit d then Some (d # takeWhile is_digit r, dropWhile is_digit r)
          else None)"

definition lex_frac :: "jstr \<Rightarrow> (jstr \<times> jstr) option" where
  "lex_frac s =
     (case s of
        c # r \<Rightarrow>
          if c = 0x2E then
            (if takeWhile is_digit r = [] then None
             else Some (takeWhile is_digit r, dropWhile is_digit r))
          else Some ([], s)
      | [] \<Rightarrow> Some ([], []))"

definition lex_exp :: "jstr \<Rightarrow> (int \<times> jstr) option" where
  "lex_exp s =
     (case s of
        c # r \<Rightarrow>
          if c = 0x65 \<or> c = 0x45 then
            (let (sg, r') = (case r of
                               x # r2 \<Rightarrow> if x = 0x2B then (1, r2) else if x = 0x2D then (-1, r2) else (1, r)
                             | [] \<Rightarrow> (1, r))
             in if takeWhile is_digit r' = [] then None
                else Some (sg * int (digits_nat (takeWhile is_digit r')), dropWhile is_digit r'))
          else Some (0, s)
      | [] \<Rightarrow> Some (0, []))"

definition lex_number :: "jstr \<Rightarrow> (jval \<times> jstr) option" where
  "lex_number s =
     (let (neg, s1) = (case s of c # r \<Rightarrow> if c = 0x2D then (True, r) else (False, s) | [] \<Rightarrow> (False, s))
      in case lex_int s1 of
           None \<Rightarrow> None
         | Some (ip, s2) \<Rightarrow>
             (case lex_frac s2 of
                None \<Rightarrow> None
              | Some (fp, s3) \<Rightarrow>
                  (case lex_exp s3 of
                     None \<Rightarrow> None
                   | Some (e, s4) \<Rightarrow>
                       Some (JNum ((if neg then -1 else 1) * int (digits_nat (ip @ fp)))
                                  (e - int (length fp)), s4))))"

subsection \<open>Values\<close>

text \<open>
  \<open>pvalue n s\<close> parses one value after optional white space and returns it with the
  rest of the input; \<open>parr n acc s\<close> parses the elements of an array after its
  \<open>[\<close> (or after a comma), \<open>pobj n acc s\<close> the members of an object after its
  \<open>{\<close> (or after a comma). \<open>n\<close> is the fuel.
\<close>

fun pvalue :: "nat \<Rightarrow> jstr \<Rightarrow> (jval \<times> jstr) option"
and parr :: "nat \<Rightarrow> jval list \<Rightarrow> jstr \<Rightarrow> (jval \<times> jstr) option"
and pobj :: "nat \<Rightarrow> (jstr \<times> jval) list \<Rightarrow> jstr \<Rightarrow> (jval \<times> jstr) option" where
  "pvalue 0 s = None"
| "pvalue (Suc n) s =
     (case skip_ws s of
        [] \<Rightarrow> None
      | c # r \<Rightarrow>
          if c = 0x7B then
            (case skip_ws r of
               [] \<Rightarrow> None
             | d # r' \<Rightarrow> if d = 0x7D then Some (JObj [], r') else pobj n [] r)
          else if c = 0x5B then
            (case skip_ws r of
               [] \<Rightarrow> None
             | d # r' \<Rightarrow> if d = 0x5D then Some (JArr [], r') else parr n [] r)
          else if c = 0x22 then
            (case lex_string [] r of None \<Rightarrow> None | Some (x, r') \<Rightarrow> Some (JStr x, r'))
          else if c = 0x74 then
            (if take 3 r = js ''rue'' then Some (JBool True, drop 3 r) else None)
          else if c = 0x66 then
            (if take 4 r = js ''alse'' then Some (JBool False, drop 4 r) else None)
          else if c = 0x6E then
            (if take 3 r = js ''ull'' then Some (JNull, drop 3 r) else None)
          else if c = 0x2D \<or> is_digit c then lex_number (c # r)
          else None)"
| "parr 0 acc s = None"
| "parr (Suc n) acc s =
     (case pvalue n s of
        None \<Rightarrow> None
      | Some (v, r) \<Rightarrow>
          (case skip_ws r of
             [] \<Rightarrow> None
           | c # r' \<Rightarrow>
               if c = 0x2C then parr n (acc @ [v]) r'
               else if c = 0x5D then Some (JArr (acc @ [v]), r')
               else None))"
| "pobj 0 acc s = None"
| "pobj (Suc n) acc s =
     (case skip_ws s of
        [] \<Rightarrow> None
      | c # r \<Rightarrow>
          if c = 0x22 then
            (case lex_string [] r of
               None \<Rightarrow> None
             | Some (k, r1) \<Rightarrow>
                 (case skip_ws r1 of
                    [] \<Rightarrow> None
                  | d # r2 \<Rightarrow>
                      if d = 0x3A then
                        (case pvalue n r2 of
                           None \<Rightarrow> None
                         | Some (v, r3) \<Rightarrow>
                             (case skip_ws r3 of
                                [] \<Rightarrow> None
                              | e # r4 \<Rightarrow>
                                  if e = 0x2C then pobj n (acc @ [(k, v)]) r4
                                  else if e = 0x7D then Some (JObj (acc @ [(k, v)]), r4)
                                  else None))
                      else None))
          else None)"

definition json_fuel :: "jstr \<Rightarrow> nat" where
  "json_fuel s = 2 * length s + 2"

definition json_parse :: "jstr \<Rightarrow> js_error + jval" where
  "json_parse s =
     (case pvalue (json_fuel s) s of
        None \<Rightarrow> Inl SyntaxError
      | Some (v, r) \<Rightarrow> if skip_ws r = [] then Inr v else Inl SyntaxError)"

subsection \<open>Every successful parse consumes input\<close>

lemma length_skip_ws: "length (skip_ws s) \<le> length s"
  by (simp add: skip_ws_def length_dropWhile_le)

lemma skip_ws_Cons_shorter: "skip_ws s = c # r \<Longrightarrow> length r < length s"
  using length_skip_ws [of s] by simp

lemma lex_string_shorter: "lex_string acc s = Some (x, r) \<Longrightarrow> length r < length s"
proof (induction "length s" arbitrary: acc s rule: less_induct)
  case less
  show ?case
  proof (cases s)
    case (Cons c cs)
    have IH: "\<And>acc' t. lex_string acc' t = Some (x, r) \<Longrightarrow> length t < Suc (length cs) \<Longrightarrow>
                length r < length t"
      using less.hyps Cons by auto
    from less.prems Cons have "lex_string acc (c # cs) = Some (x, r)" by simp
    then have "length r < Suc (length cs)"
      unfolding lex_string.simps(2) [of acc c cs]
      by (auto simp del: lex_string.simps split: if_splits list.splits option.splits dest!: IH)
    with Cons show ?thesis by simp
  qed (use less.prems in simp)
qed

lemma lex_int_shorter: "lex_int s = Some (ip, r) \<Longrightarrow> length r < length s"
  by (auto simp: lex_int_def length_dropWhile_le le_imp_less_Suc split: list.splits if_splits)

lemma lex_frac_shorter: "lex_frac s = Some (fp, r) \<Longrightarrow> length r \<le> length s"
  by (auto simp: lex_frac_def length_dropWhile_le le_SucI split: list.splits if_splits)

lemma lex_exp_shorter: "lex_exp s = Some (e, r) \<Longrightarrow> length r \<le> length s"
  by (auto simp: lex_exp_def length_dropWhile_le le_SucI Let_def
           intro: order_trans [OF length_dropWhile_le] split: list.splits if_splits prod.splits)

lemma lex_number_shorter: "lex_number s = Some (v, r) \<Longrightarrow> length r < length s"
  by (fastforce simp: lex_number_def dest!: lex_int_shorter lex_frac_shorter lex_exp_shorter
      split: list.splits if_splits option.splits prod.splits)

lemma parse_shorter:
  "(\<forall>s v r. pvalue n s = Some (v, r) \<longrightarrow> length r < length s) \<and>
   (\<forall>acc s v r. parr n acc s = Some (v, r) \<longrightarrow> length r < length s) \<and>
   (\<forall>acc s v r. pobj n acc s = Some (v, r) \<longrightarrow> length r < length s)"
proof (induction n)
  case 0
  show ?case by simp
next
  case (Suc n)
  then have IHv: "\<And>s v r. pvalue n s = Some (v, r) \<Longrightarrow> length r < length s"
    and IHa: "\<And>acc s v r. parr n acc s = Some (v, r) \<Longrightarrow> length r < length s"
    and IHo: "\<And>acc s v r. pobj n acc s = Some (v, r) \<Longrightarrow> length r < length s"
    by blast+
  have V: "length r < length s" if "pvalue (Suc n) s = Some (v, r)" for s v r
    using that
    by (auto split: list.splits if_splits option.splits prod.splits
        dest!: skip_ws_Cons_shorter lex_string_shorter lex_number_shorter IHo IHa)
  have A: "length r < length s" if "parr (Suc n) acc s = Some (v, r)" for acc s v r
    using that
    by (fastforce split: list.splits if_splits option.splits prod.splits
        dest!: skip_ws_Cons_shorter IHv IHa)
  have O: "length r < length s" if "pobj (Suc n) acc s = Some (v, r)" for acc s v r
    using that
    by (fastforce split: list.splits if_splits option.splits prod.splits
        dest!: skip_ws_Cons_shorter lex_string_shorter IHv IHo)
  from V A O show ?case by blast
qed

subsection \<open>Enough fuel\<close>

lemma pvalue_shorter: "pvalue n s = Some (v, r) \<Longrightarrow> length r < length s"
  using parse_shorter by blast

lemma fuel_stable:
  "(\<forall>s. 2 * length s < n \<longrightarrow> pvalue (Suc n) s = pvalue n s) \<and>
   (\<forall>acc s. 2 * length s + 1 < n \<longrightarrow> parr (Suc n) acc s = parr n acc s) \<and>
   (\<forall>acc s. 2 * length s + 1 < n \<longrightarrow> pobj (Suc n) acc s = pobj n acc s)"
proof (induction n)
  case 0
  show ?case by simp
next
  case (Suc n)
  then have IHv: "\<And>s. 2 * length s < n \<Longrightarrow> pvalue (Suc n) s = pvalue n s"
    and IHa: "\<And>acc s. 2 * length s + 1 < n \<Longrightarrow> parr (Suc n) acc s = parr n acc s"
    and IHo: "\<And>acc s. 2 * length s + 1 < n \<Longrightarrow> pobj (Suc n) acc s = pobj n acc s"
    by blast+
  have V: "pvalue (Suc (Suc n)) s = pvalue (Suc n) s" if "2 * length s < Suc n" for s
  proof (cases "skip_ws s")
    case Nil
    then show ?thesis by simp
  next
    case (Cons c r)
    then have "length r < length s" by (rule skip_ws_Cons_shorter)
    with that have n: "2 * length r + 1 < n" by simp
    then have a: "parr (Suc n) [] r = parr n [] r" by (rule IHa)
    from n have o: "pobj (Suc n) [] r = pobj n [] r" by (rule IHo)
    from Cons show ?thesis by (simp only: pvalue.simps a o list.case)
  qed
  have A: "parr (Suc (Suc n)) acc s = parr (Suc n) acc s" if "2 * length s + 1 < Suc n" for acc s
  proof (cases "pvalue n s")
    case None
    with that IHv show ?thesis by simp
  next
    case (Some p)
    obtain v r where p: "p = (v, r)" by (cases p)
    with Some have pv: "pvalue (Suc n) s = Some (v, r)" using that IHv by simp
    from Some p have rs: "length r < length s" by (simp add: pvalue_shorter)
    show ?thesis
    proof (cases "skip_ws r")
      case Nil
      with Some p pv show ?thesis by simp
    next
      case (Cons c r')
      then have "length r' < length r" by (rule skip_ws_Cons_shorter)
      with rs that have "2 * length r' + 1 < n" by simp
      then have "parr (Suc n) (acc @ [v]) r' = parr n (acc @ [v]) r'" by (rule IHa)
      with Some p pv Cons show ?thesis by simp
    qed
  qed
  have O: "pobj (Suc (Suc n)) acc s = pobj (Suc n) acc s" if "2 * length s + 1 < Suc n" for acc s
  proof (cases "skip_ws s")
    case Nil
    then show ?thesis by simp
  next
    case (Cons c r)
    then have r: "length r < length s" by (rule skip_ws_Cons_shorter)
    show ?thesis
    proof (cases "c = 0x22 \<and> lex_string [] r \<noteq> None")
      case False
      with Cons show ?thesis by (auto split: option.splits)
    next
      case True
      then obtain k r1 where c: "c = 0x22" and k: "lex_string [] r = Some (k, r1)" by auto
      from k have r1: "length r1 < length r" by (rule lex_string_shorter)
      show ?thesis
      proof (cases "skip_ws r1")
        case Nil
        with Cons c k show ?thesis by simp
      next
        case (Cons d r2)
        then have r2: "length r2 < length r1" by (rule skip_ws_Cons_shorter)
        with r r1 that have "2 * length r2 < n" by simp
        then have pv: "pvalue (Suc n) r2 = pvalue n r2" by (rule IHv)
        have more: "pobj (Suc n) acc' r4 = pobj n acc' r4"
          if "pvalue n r2 = Some (v, r3)" "skip_ws r3 = e # r4" for acc' v r3 e r4
        proof -
          from that have "length r4 < length r2"
            using pvalue_shorter [of n r2 v r3] skip_ws_Cons_shorter [of r3 e r4] by simp
          with r r1 r2 \<open>2 * length s + 1 < Suc n\<close> have "2 * length r4 + 1 < n" by simp
          then show ?thesis by (rule IHo)
        qed
        from \<open>skip_ws s = c # r\<close> c k Cons pv more show ?thesis
          by (auto split: option.splits list.splits)
      qed
    qed
  qed
  from V A O show ?case by blast
qed

lemma pvalue_fuel_enough: "json_fuel s \<le> m \<Longrightarrow> pvalue m s = pvalue (json_fuel s) s"
proof (induction m)
  case 0
  then show ?case by (simp add: json_fuel_def)
next
  case (Suc m)
  show ?case
  proof (cases "json_fuel s \<le> m")
    case True
    then have "2 * length s < m" by (simp add: json_fuel_def)
    then have "pvalue (Suc m) s = pvalue m s" using fuel_stable by blast
    with Suc.IH True show ?thesis by simp
  next
    case False
    with Suc.prems have "Suc m = json_fuel s" by simp
    then show ?thesis by simp
  qed
qed

subsection \<open>More fuel never changes a result\<close>

lemma fuel_mono:
  "(\<forall>s x. pvalue n s = Some x \<longrightarrow> pvalue (Suc n) s = Some x) \<and>
   (\<forall>acc s x. parr n acc s = Some x \<longrightarrow> parr (Suc n) acc s = Some x) \<and>
   (\<forall>acc s x. pobj n acc s = Some x \<longrightarrow> pobj (Suc n) acc s = Some x)"
proof (induction n)
  case 0
  show ?case by simp
next
  case (Suc n)
  then have IHv: "\<And>s x. pvalue n s = Some x \<Longrightarrow> pvalue (Suc n) s = Some x"
    and IHa: "\<And>acc s x. parr n acc s = Some x \<Longrightarrow> parr (Suc n) acc s = Some x"
    and IHo: "\<And>acc s x. pobj n acc s = Some x \<Longrightarrow> pobj (Suc n) acc s = Some x"
    by blast+
  have V: "pvalue (Suc (Suc n)) s = Some x" if h: "pvalue (Suc n) s = Some x" for s x
  proof (cases "skip_ws s")
    case Nil
    with h show ?thesis by simp
  next
    case (Cons c r)
    show ?thesis
    proof (cases "(c = 0x7B \<or> c = 0x5B) \<and> skip_ws r \<noteq> [] \<and> hd (skip_ws r) \<noteq> (if c = 0x7B then 0x7D else 0x5D)")
      case True
      then obtain d r' where d: "skip_ws r = d # r'" by (cases "skip_ws r") auto
      show ?thesis
      proof (cases "c = 0x7B")
        case True
        with h Cons d \<open>(c = 0x7B \<or> c = 0x5B) \<and> _\<close> have "pobj n [] r = Some x" by simp
        then have "pobj (Suc n) [] r = Some x" by (rule IHo)
        with True Cons d \<open>(c = 0x7B \<or> c = 0x5B) \<and> _\<close> show ?thesis by simp
      next
        case False
        with h Cons d \<open>(c = 0x7B \<or> c = 0x5B) \<and> _\<close> have "parr n [] r = Some x" by simp
        then have "parr (Suc n) [] r = Some x" by (rule IHa)
        with False Cons d \<open>(c = 0x7B \<or> c = 0x5B) \<and> _\<close> show ?thesis by simp
      qed
    next
      case False
      then have "pvalue (Suc (Suc n)) s = pvalue (Suc n) s"
        using Cons by (auto split: list.splits)
      with h show ?thesis by simp
    qed
  qed
  have A: "parr (Suc (Suc n)) acc s = Some x" if h: "parr (Suc n) acc s = Some x" for acc s x
  proof (cases "pvalue n s")
    case None
    with h show ?thesis by simp
  next
    case (Some p)
    obtain v r where p: "p = (v, r)" by (cases p)
    have pv: "pvalue (Suc n) s = Some (v, r)" by (rule IHv) (simp add: Some p)
    show ?thesis
    proof (cases "skip_ws r")
      case Nil
      with h Some p show ?thesis by simp
    next
      case (Cons c r')
      show ?thesis
      proof (cases "c = 0x2C")
        case True
        with h Some p Cons have "parr n (acc @ [v]) r' = Some x" by simp
        then have "parr (Suc n) (acc @ [v]) r' = Some x" by (rule IHa)
        with True pv Cons show ?thesis by simp
      next
        case False
        with h Some p Cons pv show ?thesis by simp
      qed
    qed
  qed
  have O: "pobj (Suc (Suc n)) acc s = Some x" if h: "pobj (Suc n) acc s = Some x" for acc s x
  proof (cases "skip_ws s")
    case Nil
    with h show ?thesis by simp
  next
    case (Cons c r)
    from h Cons obtain k r1 where c: "c = 0x22" and k: "lex_string [] r = Some (k, r1)"
      by (auto split: if_splits option.splits)
    from h Cons c k obtain d r2 where d: "skip_ws r1 = d # r2" and d': "d = 0x3A"
      by (auto split: list.splits if_splits)
    from h Cons c k d d' obtain v r3 where v: "pvalue n r2 = Some (v, r3)"
      by (auto split: option.splits)
    then have v': "pvalue (Suc n) r2 = Some (v, r3)" by (rule IHv)
    from h Cons c k d d' v obtain e r4 where e: "skip_ws r3 = e # r4"
      by (auto split: list.splits)
    show ?thesis
    proof (cases "e = 0x2C")
      case True
      with h Cons c k d d' v e have "pobj n (acc @ [(k, v)]) r4 = Some x" by simp
      then have "pobj (Suc n) (acc @ [(k, v)]) r4 = Some x" by (rule IHo)
      with True Cons c k d d' v' e show ?thesis by simp
    next
      case False
      with h Cons c k d d' v e v' show ?thesis by simp
    qed
  qed
  from V A O show ?case by blast
qed


lemma pvalue_mono: "pvalue n s = Some x \<Longrightarrow> n \<le> m \<Longrightarrow> pvalue m s = Some x"
proof (induction m)
  case 0
  then show ?case by simp
next
  case (Suc m)
  show ?case
  proof (cases "n \<le> m")
    case True
    with Suc have "pvalue m s = Some x" by simp
    with fuel_mono show ?thesis by blast
  next
    case False
    with Suc.prems have "n = Suc m" by simp
    with Suc.prems show ?thesis by simp
  qed
qed

lemma pvalue_json_fuel: "pvalue n s = Some x \<Longrightarrow> pvalue (json_fuel s) s = Some x"
proof -
  assume "pvalue n s = Some x"
  then have "pvalue (max n (json_fuel s)) s = Some x" by (rule pvalue_mono) simp
  moreover have "pvalue (max n (json_fuel s)) s = pvalue (json_fuel s) s"
    by (rule pvalue_fuel_enough) simp
  ultimately show ?thesis by simp
qed

text \<open>
  \<open>JSON.parse\<close> terminates on every input, and its fuel is never the cause of a
  failure: \<open>json_parse s\<close> yields \<open>v\<close> exactly when the recursive descent with some
  amount of fuel parses \<open>s\<close> to \<open>v\<close> followed by white space only.
\<close>

theorem json_parse_fuel_adequate:
  "json_parse s = Inr v \<longleftrightarrow> (\<exists>n r. pvalue n s = Some (v, r) \<and> skip_ws r = [])"
proof
  assume j: "json_parse s = Inr v"
  then obtain r where "pvalue (json_fuel s) s = Some (v, r)" "skip_ws r = []"
    by (auto simp: json_parse_def split: option.splits if_splits)
  then show "\<exists>n r. pvalue n s = Some (v, r) \<and> skip_ws r = []" by blast
next
  assume "\<exists>n r. pvalue n s = Some (v, r) \<and> skip_ws r = []"
  then obtain n r where "pvalue n s = Some (v, r)" "skip_ws r = []" by blast
  then have "pvalue (json_fuel s) s = Some (v, r)" "skip_ws r = []" by (simp_all add: pvalue_json_fuel)
  then show "json_parse s = Inr v" by (simp add: json_parse_def)
qed

end
