(* ===== verification/Template.thy ===== *)
theory Template
  imports CatalogMatch Json
begin

text \<open>
  Template resolution (generate.js, \<open>loadTemplate\<close>, lines 43--81, and
  \<open>getDefaultItems\<close>, lines 84--93). The catalog file
  \<open>references/templates.md\<close> is absent, unreadable, or a text; the requested
  template's block is looked up with the regular expression of \<open>CatalogMatch\<close>, its
  payload trimmed and parsed with \<open>Json\<close>, and \<open>template.items || getDefaultItems()\<close>
  returned; a failure falls back to the \<open>default\<close> section and then to the six
  built-in entries. The warnings printed with \<open>console.warn\<close> are part of the result.
\<close>

datatype catalog = NoCatalog | UnreadableCatalog | CatalogText jstr

datatype warning = WarnNoCatalog | WarnParseFailed jstr | WarnTemplateNotFound jstr

subsection \<open>The built-in entries\<close>

definition entry :: "jstr \<Rightarrow> jstr \<Rightarrow> jval" where
  "entry f p = JObj [(js ''function'', JStr f), (js ''points'', JStr p)]"

definition default_entries :: "jval list" where
  "default_entries =
     [entry [0x529F, 0x80FD, 0x5B8C, 0x6574, 0x6027, 0x6D4B, 0x8BD5]
            [0x9A8C, 0x8BC1, 0x6240, 0x6709, 0x58F0, 0x660E, 0x529F, 0x80FD, 0x662F, 0x5426,
             0x6B63, 0x5E38, 0x5DE5, 0x4F5C],
      entry [0x6027, 0x80FD, 0x6D4B, 0x8BD5]
            [0x6D4B, 0x8BD5, 0x7CFB, 0x7EDF, 0x54CD, 0x5E94, 0x65F6, 0x95F4, 0x3001, 0x541E,
             0x5410, 0x91CF],
      entry [0x517C, 0x5BB9, 0x6027, 0x6D4B, 0x8BD5]
            [0x9A8C, 0x8BC1, 0x4E0E, 0x4E3B, 0x6D41, 0x73AF, 0x5883, 0x7684, 0x517C, 0x5BB9,
             0x6027],
      entry [0x7A33, 0x5B9A, 0x6027, 0x6D4B, 0x8BD5]
            [0x8FDB, 0x884C, 0x957F, 0x65F6, 0x95F4, 0x8FD0, 0x884C, 0x6D4B, 0x8BD5],
      entry [0x7528, 0x6237, 0x754C, 0x9762, 0x6D4B, 0x8BD5]
            [0x68C0, 0x67E5, 0x55, 0x49, 0x5E03, 0x5C40, 0x3001, 0x4EA4, 0x4E92, 0x903B, 0x8F91],
      entry [0x6570, 0x636E, 0x51C6, 0x786E, 0x6027, 0x6D4B, 0x8BD5]
            [0x9A8C, 0x8BC1, 0x8F93, 0x5165, 0x8F93, 0x51FA, 0x6570, 0x636E, 0x7684, 0x4E00,
             0x81F4, 0x6027]]"

definition get_default_items :: jsv where
  "get_default_items = JV (JArr default_entries)"

subsection \<open>One catalog block\<close>

text \<open>
  The body of the \<open>try\<close> block (lines 58--63 and 71--76): parse the trimmed capture and
  return \<open>template.items || getDefaultItems()\<close>. \<open>None\<close> is an exception caught by the
  \<open>catch\<close>: a syntax error of \<open>JSON.parse\<close>, or the type error of reading
  \<open>items\<close> of \<open>null\<close>.
\<close>

definition block_items :: "jstr \<Rightarrow> jsv option" where
  "block_items raw =
     (case json_parse (js_trim raw) of
        Inl _ \<Rightarrow> None
      | Inr t \<Rightarrow>
          (case get_prop (JV t) (js ''items'') of
             Inl _ \<Rightarrow> None
           | Inr v \<Rightarrow> Some (js_or v get_default_items)))"

subsection \<open>\<open>loadTemplate\<close>\<close>

text \<open>
  The template name is placed into the pattern as it is; \<open>regex_exec\<close> reads it as
  literal text, which is what the engine does for a name without regular-expression
  metacharacters (\<open>regex_plain\<close>). A read error of \<open>readFileSync\<close> is not caught
  and propagates as \<open>IOError\<close>.
\<close>

definition regex_plain :: "jstr \<Rightarrow> bool" where
  "regex_plain name \<longleftrightarrow>
     list_all (\<lambda>c. c \<notin> set [0x5C, 0x5E, 0x24, 0x2E, 0x2A, 0x2B, 0x3F, 0x28, 0x29, 0x5B, 0x5D,
                                 0x7B, 0x7D, 0x7C]) name"

definition load_template :: "catalog \<Rightarrow> jstr \<Rightarrow> warning list \<times> (js_error + jsv)" where
  "load_template cat name =
     (case cat of
        NoCatalog \<Rightarrow> ([WarnNoCatalog], Inr get_default_items)
      | UnreadableCatalog \<Rightarrow> ([], Inl IOError)
      | CatalogText content \<Rightarrow>
          (let (w1, r1) =
                 (case regex_exec (heading name) content of
                    None \<Rightarrow> ([], None)
                  | Some raw \<Rightarrow>
                      (case block_items raw of
                         Some v \<Rightarrow> ([], Some v)
                       | None \<Rightarrow> ([WarnParseFailed name], None)))
           in case r1 of
                Some v \<Rightarrow> (w1, Inr v)
              | None \<Rightarrow>
                  if name \<noteq> js ''default'' then
                    (w1 @ [WarnTemplateNotFound name],
                     Inr (case regex_exec (heading (js ''default'')) content of
                            None \<Rightarrow> get_default_items
                          | Some raw \<Rightarrow>
                              (case block_items raw of
                                 Some v \<Rightarrow> v
                               | None \<Rightarrow> get_default_items)))
                  else (w1, Inr get_default_items)))"

subsection \<open>Example catalogs\<close>

text \<open>
  Catalog texts used by the examples: the spec's scenario A (a \<open>default\<close> section with
  two entries), a catalog whose \<open>custom\<close> section has no \<open>items\<close> key, and one whose
  \<open>items\<close> is empty.
\<close>

definition catalog_a :: jstr where
  "catalog_a = js ''## default\<newline>```json\<newline>{\"items\": [{\"function\": \"A\", \"points\": \"B\"}, {\"function\": \"C\", \"points\": \"D\"}]}\<newline>```\<newline>''"

definition catalog_no_items :: jstr where
  "catalog_no_items = js ''## custom\<newline>```json\<newline>{\"entries\": []}\<newline>```\<newline>## default\<newline>```json\<newline>{\"items\": [{\"function\": \"A\", \"points\": \"B\"}]}\<newline>```\<newline>''"

definition catalog_empty_items :: jstr where
  "catalog_empty_items = js ''## custom\<newline>```json\<newline>{\"items\": []}\<newline>```\<newline>''"

subsection \<open>Resolution lemmas\<close>

lemma truthy_block_items: "block_items raw = Some v \<Longrightarrow> truthy v"
  by (auto simp: block_items_def js_or_def get_default_items_def split: sum.splits if_splits)

lemma truthy_get_default_items [simp]: "truthy get_default_items"
  by (simp add: get_default_items_def)

lemma length_default_entries: "length default_entries = 6"
  by (simp add: default_entries_def)

lemmas load_template_eval = load_template_def regex_exec_scan

text \<open>
  C1. A requested template, named without regular-expression metacharacters, that the
  catalog holds is returned as its block's \<open>items || getDefaultItems()\<close>, with no
  warning: the first heading \<^verbatim>\<open>## name\<close> (case-insensitive) decides the block.
\<close>

theorem load_template_found:
  assumes "regex_plain name"
    and "find_block (heading name) content = Some raw" and "block_items raw = Some v"
  shows "load_template (CatalogText content) name = ([], Inr v)"
  using assms by (simp add: load_template_eval)

theorem load_template_found_witness:
  "load_template (CatalogText catalog_a) (js ''default'') =
     ([], Inr (JV (JArr [entry (js ''A'') (js ''B''), entry (js ''C'') (js ''D'')])))"
proof -
  have b: "find_block (heading (js ''default'')) catalog_a =
    Some (js ''\<newline>{\"items\": [{\"function\": \"A\", \"points\": \"B\"}, {\"function\": \"C\", \"points\": \"D\"}]}\<newline>'')"
    unfolding catalog_a_def by code_simp
  have i: "block_items (js ''\<newline>{\"items\": [{\"function\": \"A\", \"points\": \"B\"}, {\"function\": \"C\", \"points\": \"D\"}]}\<newline>'') =
    Some (JV (JArr [entry (js ''A'') (js ''B''), entry (js ''C'') (js ''D'')]))"
    by code_simp
  have p: "regex_plain (js ''default'')" by (simp add: regex_plain_def js_def)
  from load_template_found [OF p b i] show ?thesis .
qed

text \<open>
  C2. A requested template other than \<open>default\<close>, named without regular-expression
  metacharacters, that the catalog lacks is replaced by the catalog's \<open>default\<close>
  section, with the warning that it was not found.
\<close>

theorem load_template_default_section:
  assumes "regex_plain name" and "name \<noteq> js ''default''"
    and "find_block (heading name) content = None"
    and "find_block (heading (js ''default'')) content = Some raw"
    and "block_items raw = Some v"
  shows "load_template (CatalogText content) name = ([WarnTemplateNotFound name], Inr v)"
  using assms by (simp add: load_template_eval)

theorem load_template_default_section_witness:
  "load_template (CatalogText catalog_a) (js ''custom'') =
     ([WarnTemplateNotFound (js ''custom'')],
      Inr (JV (JArr [entry (js ''A'') (js ''B''), entry (js ''C'') (js ''D'')])))"
proof -
  have n: "js ''custom'' \<noteq> js ''default''" by (simp add: js_def)
  have c: "find_block (heading (js ''custom'')) catalog_a = None"
    unfolding catalog_a_def by code_simp
  have b: "find_block (heading (js ''default'')) catalog_a =
    Some (js ''\<newline>{\"items\": [{\"function\": \"A\", \"points\": \"B\"}, {\"function\": \"C\", \"points\": \"D\"}]}\<newline>'')"
    unfolding catalog_a_def by code_simp
  have i: "block_items (js ''\<newline>{\"items\": [{\"function\": \"A\", \"points\": \"B\"}, {\"function\": \"C\", \"points\": \"D\"}]}\<newline>'') =
    Some (JV (JArr [entry (js ''A'') (js ''B''), entry (js ''C'') (js ''D'')]))"
    by code_simp
  have p: "regex_plain (js ''custom'')" by (simp add: regex_plain_def js_def)
  from load_template_default_section [OF p n c b i] show ?thesis .
qed

text \<open>
  C4. A template, named without metacharacters, whose block parses but whose \<open>items\<close>
  is missing or falsy yields the six built-in entries at once, without a warning: the
  \<open>default\<close> section of the catalog is not consulted, whatever the catalog holds.
\<close>

theorem items_missing_skips_default_section:
  assumes "regex_plain name" and "find_block (heading name) content = Some raw"
    and "json_parse (js_trim raw) = Inr t" and "get_prop (JV t) (js ''items'') = Inr v"
    and "\<not> truthy v"
  shows "load_template (CatalogText content) name = ([], Inr get_default_items)"
  using assms by (simp add: load_template_eval block_items_def js_or_def)

theorem items_missing_skips_default_section_witness:
  "load_template (CatalogText catalog_no_items) (js ''custom'') = ([], Inr get_default_items)"
proof -
  have p: "regex_plain (js ''custom'')" by (simp add: regex_plain_def js_def)
  have b: "find_block (heading (js ''custom'')) catalog_no_items = Some (js ''\<newline>{\"entries\": []}\<newline>'')"
    unfolding catalog_no_items_def by code_simp
  have j: "json_parse (js_trim (js ''\<newline>{\"entries\": []}\<newline>'')) = Inr (JObj [(js ''entries'', JArr [])])"
    by code_simp
  have g: "get_prop (JV (JObj [(js ''entries'', JArr [])])) (js ''items'') = Inr Undefined"
    by code_simp
  have f: "\<not> truthy Undefined" by code_simp
  from items_missing_skips_default_section [OF p b j g f] show ?thesis .
qed

text \<open>
  C23. The lazy gap of the pattern crosses headings: after the heading of a template
  named without metacharacters, the first \<^verbatim>\<open>```json\<close> block is taken, whatever lies
  between (other headings included) as long as it holds no backtick, so a heading
  without a block of its own takes the block of a later section, without a warning.
\<close>

theorem load_template_borrows_next_block:
  assumes "regex_plain name" and "0x60 \<notin> set gap" and "0x60 \<notin> set body"
    and "block_items body = Some v"
  shows "load_template (CatalogText (heading name @ gap @ fence_json @ body @ fence @ rest)) name = ([], Inr v)"
proof -
  have "heading name \<noteq> []" by (simp add: heading_def js_def)
  from find_block_first [OF this assms(2,3)] assms(4) show ?thesis
    by (simp add: load_template_eval)
qed

theorem load_template_borrows_next_block_witness:
  "load_template (CatalogText (heading (js ''custom'') @ js ''\<newline>no block here\<newline>## other\<newline>'' @ fence_json @
      js ''\<newline>{\"items\": [{\"function\": \"X\", \"points\": \"Y\"}]}\<newline>'' @ fence @ js ''\<newline>''))
     (js ''custom'') = ([], Inr (JV (JArr [entry (js ''X'') (js ''Y'')])))"
proof -
  have p: "regex_plain (js ''custom'')" by (simp add: regex_plain_def js_def)
  have g: "0x60 \<notin> set (js ''\<newline>no block here\<newline>## other\<newline>'')" by (simp add: js_def)
  have b: "0x60 \<notin> set (js ''\<newline>{\"items\": [{\"function\": \"X\", \"points\": \"Y\"}]}\<newline>'')"
    by (simp add: js_def)
  have i: "block_items (js ''\<newline>{\"items\": [{\"function\": \"X\", \"points\": \"Y\"}]}\<newline>'') =
             Some (JV (JArr [entry (js ''X'') (js ''Y'')]))"
    unfolding entry_def by code_simp
  from load_template_borrows_next_block [OF p g b i] show ?thesis .
qed

end
