(* ===== verification/DocModel.thy ===== *)
theory DocModel
  imports JsValue
begin

text \<open>
  The document model \<open>createDocument\<close> hands to the docx library (generate.js, lines
  96--413), as the tree of constructor calls it builds: runs (\<open>TextRun\<close>,
  \<open>ImageRun\<close>, page-number fields), paragraphs, table cells, rows and tables, header,
  footer, mk_para styles and the one section. Every option the source passes is a
  field; an option the source leaves out is \<open>None\<close>. Borders are always the single
  666666 line of size 1 (line 103), shading always of type \<open>CLEAR\<close>, widths in DXA.
  The entry rows read \<open>item.function\<close> and \<open>item.points\<close> with \<open>JsValue.get_prop\<close>,
  so a \<open>null\<close> entry is the \<open>TypeError\<close> the code throws, and \<open>forEach\<close> on a value
  that is not an array is a \<open>TypeError\<close> too.
\<close>

subsection \<open>The docx tree\<close>

datatype align = AlignCenter

datatype heading_level = Heading1 | Heading2

datatype page_field = CurrentPage | TotalPages

record border =
  b_size :: nat
  b_color :: jstr

record text_run =
  r_text :: jsv
  r_bold :: bool
  r_color :: "jstr option"
  r_font :: "jstr option"
  r_size :: "nat option"

datatype run =
    TextRun text_run
  | FieldRun page_field jstr nat
  | ImageRun "8 word list" nat nat

record para =
  p_align :: "align option"
  p_before :: "nat option"
  p_after :: "nat option"
  p_heading :: "heading_level option"
  p_border_top :: "border option"
  p_border_bottom :: "border option"
  p_runs :: "run list"

record cell =
  c_borders :: border
  c_width :: nat
  c_fill :: "jstr option"
  c_valign_center :: bool
  c_margins :: "nat \<times> nat \<times> nat \<times> nat"
  c_span :: "nat option"
  c_paras :: "para list"

type_synonym row = "cell list"

record table =
  t_width :: nat
  t_cols :: "nat list"
  t_rows :: "row list"

datatype block = BPara para | BTable table

record pstyle =
  ps_id :: jstr
  ps_name :: jstr
  ps_size :: nat
  ps_bold :: bool
  ps_font :: jstr
  ps_color :: "jstr option"
  ps_before :: nat
  ps_after :: nat
  ps_align :: "align option"

record document =
  d_font :: jstr
  d_size :: nat
  d_styles :: "pstyle list"
  d_page :: "nat \<times> nat"
  d_margins :: "nat \<times> nat \<times> nat \<times> nat"
  d_header :: "para list"
  d_footer :: "para list"
  d_body :: "block list"

subsection \<open>Constructors with the library's defaults\<close>

definition run_of :: "jsv \<Rightarrow> text_run" where
  "run_of t = \<lparr>r_text = t, r_bold = False, r_color = None, r_font = None, r_size = None\<rparr>"

definition styled :: "jstr \<Rightarrow> bool \<Rightarrow> jstr option \<Rightarrow> jstr \<Rightarrow> nat \<Rightarrow> run" where
  "styled t bold color font sz =
     TextRun \<lparr>r_text = JV (JStr t), r_bold = bold, r_color = color, r_font = Some font,
              r_size = Some sz\<rparr>"

definition plain :: "jstr \<Rightarrow> run" where
  "plain t = TextRun (run_of (JV (JStr t)))"

definition mk_para :: "run list \<Rightarrow> para" where
  "mk_para rs = \<lparr>p_align = None, p_before = None, p_after = None, p_heading = None,
                   p_border_top = None, p_border_bottom = None, p_runs = rs\<rparr>"

definition spaced :: "nat \<Rightarrow> nat \<Rightarrow> run list \<Rightarrow> para" where
  "spaced before after rs = (mk_para rs)\<lparr>p_before := Some before, p_after := Some after\<rparr>"

definition heading_para :: "heading_level \<Rightarrow> jstr \<Rightarrow> para" where
  "heading_para l t = (mk_para [plain t])\<lparr>p_heading := Some l\<rparr>"

subsection \<open>Literals of the document\<close>

definition title_function :: jstr where
  "title_function =
     [0x6D4B, 0x8BD5, 0x529F, 0x80FD, 0x70B9]"

definition title_points :: jstr where
  "title_points =
     [0x6D4B, 0x8BD5, 0x8981, 0x70B9]"

definition title_result :: jstr where
  "title_result =
     [0x6D4B, 0x8BD5, 0x7ED3, 0x679C]"

definition result_placeholder :: jstr where
  "result_placeholder =
     [0x25A1, 0x20, 0x901A, 0x8FC7, 0x20, 0x20, 0x20, 0x20, 0x25A1, 0x20, 0x5931, 0x8D25,
      0x20, 0x20, 0x20, 0x20, 0x25A1, 0x20, 0x5F85, 0x6D4B, 0x8BD5]"

definition brand_text :: jstr where
  "brand_text =
     [0x20, 0x20, 0x20, 0x884C, 0x82AF, 0x79D1, 0x6280, 0x20, 0x7C, 0x20, 0x4EA7, 0x54C1,
      0x9A8C, 0x8BC1, 0x6587, 0x6863]"

definition footer_page_prefix :: jstr where
  "footer_page_prefix =
     [0x673A, 0x5BC6, 0x6587, 0x4EF6, 0x20, 0x20, 0x2022, 0x20, 0x20, 0x7B2C, 0x20]"

definition footer_page_middle :: jstr where
  "footer_page_middle =
     [0x20, 0x9875, 0x20, 0x20, 0x2022, 0x20, 0x20, 0x5171, 0x20]"

definition footer_page_suffix :: jstr where
  "footer_page_suffix =
     [0x20, 0x9875]"

definition doc_title :: jstr where
  "doc_title =
     [0x884C, 0x82AF, 0x4EA7, 0x54C1, 0x9A8C, 0x8BC1, 0x6587, 0x6863]"

definition label_product :: jstr where
  "label_product =
     [0x4EA7, 0x54C1, 0x540D, 0x79F0, 0xFF1A]"

definition label_version :: jstr where
  "label_version =
     [0x7248, 0x672C, 0x53F7, 0xFF1A]"

definition label_date :: jstr where
  "label_date =
     [0x6D4B, 0x8BD5, 0x65E5, 0x671F, 0xFF1A]"

definition label_tester :: jstr where
  "label_tester =
     [0x6D4B, 0x8BD5, 0x4EBA, 0x5458, 0xFF1A]"

definition heading_checklist :: jstr where
  "heading_checklist =
     [0x6D4B, 0x8BD5, 0x9879, 0x76EE, 0x6E05, 0x5355]"

definition heading_notes :: jstr where
  "heading_notes =
     [0x5907, 0x6CE8]"

definition notes_hint :: jstr where
  "notes_hint =
     [0xFF08, 0x6B64, 0x5904, 0x53EF, 0x586B, 0x5199, 0x6D4B, 0x8BD5, 0x8FC7, 0x7A0B,
      0x4E2D, 0x7684, 0x7279, 0x6B8A, 0x60C5, 0x51B5, 0x8BF4, 0x660E, 0x3001, 0x73AF,
      0x5883, 0x914D, 0x7F6E, 0x4FE1, 0x606F, 0x3001, 0x95EE, 0x9898, 0x8BB0, 0x5F55,
      0x7B49, 0xFF09]"

definition heading_signature :: jstr where
  "heading_signature =
     [0x7B7E, 0x5B57, 0x786E, 0x8BA4]"

definition sign_tester :: jstr where
  "sign_tester =
     [0x6D4B, 0x8BD5, 0x4EBA, 0x5458, 0x7B7E, 0x5B57, 0xFF1A, 0x5F, 0x5F, 0x5F, 0x5F,
      0x5F, 0x5F, 0x5F, 0x5F, 0x5F, 0x5F, 0x5F, 0x5F, 0x5F, 0x5F, 0x5F, 0x5F, 0x5F, 0x5F,
      0x5F, 0x5F, 0x20, 0x20, 0x20, 0x20, 0x65E5, 0x671F, 0xFF1A, 0x5F, 0x5F, 0x5F, 0x5F,
      0x5F, 0x5F, 0x5F, 0x5F, 0x5F, 0x5F, 0x5F, 0x5F, 0x5F, 0x5F, 0x5F, 0x5F, 0x5F, 0x5F,
      0x5F, 0x5F]"

definition sign_reviewer :: jstr where
  "sign_reviewer =
     [0x5BA1, 0x6838, 0x4EBA, 0x5458, 0x7B7E, 0x5B57, 0xFF1A, 0x5F, 0x5F, 0x5F, 0x5F,
      0x5F, 0x5F, 0x5F, 0x5F, 0x5F, 0x5F, 0x5F, 0x5F, 0x5F, 0x5F, 0x5F, 0x5F, 0x5F, 0x5F,
      0x5F, 0x5F, 0x20, 0x20, 0x20, 0x20, 0x65E5, 0x671F, 0xFF1A, 0x5F, 0x5F, 0x5F, 0x5F,
      0x5F, 0x5F, 0x5F, 0x5F, 0x5F, 0x5F, 0x5F, 0x5F, 0x5F, 0x5F, 0x5F, 0x5F, 0x5F, 0x5F,
      0x5F, 0x5F]"

definition font_simhei :: jstr where "font_simhei = js ''SimHei''"
definition font_simsun :: jstr where "font_simsun = js ''SimSun''"
definition brand_blue :: jstr where "brand_blue = js ''2E5090''"

definition borders :: border where
  "borders = \<lparr>b_size = 1, b_color = js ''666666''\<rparr>"

definition col_widths :: "nat list" where
  "col_widths = [2800, 4560, 2000]"

subsection \<open>The checklist table\<close>

text \<open>The header row (lines 110--149): three cells shaded 2E5090, bold white titles.\<close>

definition header_cell :: "nat \<Rightarrow> jstr \<Rightarrow> cell" where
  "header_cell w title =
     \<lparr>c_borders = borders, c_width = w, c_fill = Some brand_blue, c_valign_center = True,
      c_margins = (100, 100, 120, 120), c_span = None,
      c_paras = [(mk_para [styled title True (Some (js ''FFFFFF'')) font_simhei 22])
                   \<lparr>p_align := Some AlignCenter\<rparr>]\<rparr>"

definition header_row :: row where
  "header_row =
     [header_cell (col_widths ! 0) title_function,
      header_cell (col_widths ! 1) title_points,
      header_cell (col_widths ! 2) title_result]"

text \<open>
  One entry row (lines 152--190): \<open>isEven = index % 2 === 0\<close> leaves the cells
  unshaded, an odd index shades them F5F5F5; the cells show \<open>item.function\<close>,
  \<open>item.points\<close> and the fixed result placeholder.
\<close>

definition item_cell :: "nat \<Rightarrow> bool \<Rightarrow> align option \<Rightarrow> text_run \<Rightarrow> cell" where
  "item_cell w is_even al r =
     \<lparr>c_borders = borders, c_width = w,
      c_fill = (if is_even then None else Some (js ''F5F5F5'')), c_valign_center = True,
      c_margins = (80, 80, 120, 120), c_span = None,
      c_paras = [(mk_para [TextRun r])\<lparr>p_align := al\<rparr>]\<rparr>"

definition cell_text :: "jsv \<Rightarrow> nat \<Rightarrow> text_run" where
  "cell_text t sz = (run_of t)\<lparr>r_font := Some font_simsun, r_size := Some sz\<rparr>"

definition item_row :: "nat \<Rightarrow> jsv \<Rightarrow> js_error + row" where
  "item_row index item =
     (let is_even = (index mod 2 = 0) in
      case get_prop item (js ''function'') of
        Inl e \<Rightarrow> Inl e
      | Inr f \<Rightarrow>
          (case get_prop item (js ''points'') of
             Inl e \<Rightarrow> Inl e
           | Inr p \<Rightarrow>
               Inr [item_cell (col_widths ! 0) is_even None (cell_text f 21),
                    item_cell (col_widths ! 1) is_even None (cell_text p 21),
                    item_cell (col_widths ! 2) is_even (Some AlignCenter)
                      (cell_text (JV (JStr result_placeholder)) 20)]))"

text \<open>\<open>testItems.forEach((item, index) => ...)\<close>: the rows in order, the first exception ends it.\<close>

fun item_rows :: "nat \<Rightarrow> jval list \<Rightarrow> js_error + row list" where
  "item_rows i [] = Inr []"
| "item_rows i (x # xs) =
     (case item_row i (JV x) of
        Inl e \<Rightarrow> Inl e
      | Inr r \<Rightarrow> (case item_rows (Suc i) xs of Inl e \<Rightarrow> Inl e | Inr rs \<Rightarrow> Inr (r # rs)))"

text \<open>\<open>tableRows\<close>: the header row, then one row per entry; \<open>forEach\<close> exists on arrays only.\<close>

definition table_rows :: "jsv \<Rightarrow> js_error + row list" where
  "table_rows items =
     (case items of
        JV (JArr xs) \<Rightarrow> (case item_rows 0 xs of Inl e \<Rightarrow> Inl e | Inr rs \<Rightarrow> Inr (header_row # rs))
      | _ \<Rightarrow> Inl TypeError)"

subsection \<open>The metadata table\<close>

text \<open>
  Lines 289--360: three rows over the columns 2340, 4680, 2340. Label cells are shaded
  E8EEF7 and bold SimHei; value cells plain SimSun. The third cell of the second row
  is a shaded cell holding the version; the tester's cell spans two columns.
\<close>

definition info_cell :: "nat \<Rightarrow> bool \<Rightarrow> nat option \<Rightarrow> run \<Rightarrow> cell" where
  "info_cell w shaded span r =
     \<lparr>c_borders = borders, c_width = w, c_fill = (if shaded then Some (js ''E8EEF7'') else None),
      c_valign_center = False, c_margins = (80, 80, 120, 120), c_span = span,
      c_paras = [mk_para [r]]\<rparr>"

definition label_run :: "jstr \<Rightarrow> run" where
  "label_run t = styled t True None font_simhei 21"

definition value_run :: "jstr \<Rightarrow> run" where
  "value_run t = styled t False None font_simsun 21"

definition info_table :: "jstr \<Rightarrow> jstr \<Rightarrow> jstr \<Rightarrow> jstr \<Rightarrow> table" where
  "info_table product version date user =
     \<lparr>t_width = 9360, t_cols = [2340, 4680, 2340],
      t_rows =
        [[info_cell 2340 True None (label_run label_product),
          info_cell 4680 False None (value_run product),
          info_cell 2340 True None (label_run label_version)],
         [info_cell 2340 True None (label_run label_date),
          info_cell 4680 False None (value_run date),
          info_cell 2340 True None (value_run version)],
         [info_cell 2340 True None (label_run label_tester),
          info_cell 4680 False (Some 2) (value_run user)]]\<rparr>"

subsection \<open>Header, footer, styles, body\<close>

text \<open>
  Lines 193--224: the logo, when \<open>assets/logo.png\<close> exists, as an 80 by 80 image before
  the brand text; a bottom rule. Lines 226--241: the footer with the two page fields.
\<close>

definition page_header :: "8 word list option \<Rightarrow> para list" where
  "page_header logo =
     [(mk_para ((case logo of None \<Rightarrow> [] | Some d \<Rightarrow> [ImageRun d 80 80]) @
                [styled brand_text True (Some brand_blue) font_simhei 20]))
        \<lparr>p_align := Some AlignCenter, p_after := Some 100\<rparr>,
      (mk_para [plain []])\<lparr>p_border_bottom := Some \<lparr>b_size = 6, b_color = brand_blue\<rparr>\<rparr>]"

definition page_footer :: "para list" where
  "page_footer =
     [(mk_para [styled footer_page_prefix False None font_simsun 18,
                FieldRun CurrentPage font_simsun 18,
                styled footer_page_middle False None font_simsun 18,
                FieldRun TotalPages font_simsun 18,
                styled footer_page_suffix False None font_simsun 18])
        \<lparr>p_border_top := Some \<lparr>b_size = 4, b_color = js ''CCCCCC''\<rparr>,
         p_align := Some AlignCenter\<rparr>]"

text \<open>Lines 245--271: default run SimSun 24 and the two heading styles.\<close>

definition doc_styles :: "pstyle list" where
  "doc_styles =
     [\<lparr>ps_id = js ''Heading1'', ps_name = js ''Heading 1'', ps_size = 36, ps_bold = True,
       ps_font = font_simhei, ps_color = Some brand_blue, ps_before = 400, ps_after = 300,
       ps_align = Some AlignCenter\<rparr>,
      \<lparr>ps_id = js ''Heading2'', ps_name = js ''Heading 2'', ps_size = 26, ps_bold = True,
       ps_font = font_simhei, ps_color = None, ps_before = 300, ps_after = 200,
       ps_align = None\<rparr>]"

definition checklist_table :: "row list \<Rightarrow> table" where
  "checklist_table rows = \<lparr>t_width = 9360, t_cols = col_widths, t_rows = rows\<rparr>"

text \<open>Lines 281--411: the section's children in order.\<close>

definition doc_body :: "jstr \<Rightarrow> jstr \<Rightarrow> jstr \<Rightarrow> jstr \<Rightarrow> row list \<Rightarrow> block list" where
  "doc_body product version date user rows =
     [BPara (heading_para Heading1 doc_title),
      BTable (info_table product version date user),
      BPara (spaced 200 200 [plain []]),
      BPara (heading_para Heading2 heading_checklist),
      BTable (checklist_table rows),
      BPara (spaced 300 200 [plain []]),
      BPara (heading_para Heading2 heading_notes),
      BPara (spaced 100 100 [styled notes_hint False (Some (js ''999999'')) font_simsun 21]),
      BPara (spaced 400 100 [plain []]),
      BPara (heading_para Heading2 heading_signature),
      BPara (spaced 200 100 [plain []]),
      BPara (spaced 100 100 [styled sign_tester False None font_simsun 22]),
      BPara (spaced 200 100 [plain []]),
      BPara (spaced 100 100 [styled sign_reviewer False None font_simsun 22])]"

text \<open>Lines 244--413: \<open>new Document(...)\<close> with A4 pages and the margins of lines 274--277.\<close>

definition build_document ::
  "8 word list option \<Rightarrow> jstr \<Rightarrow> jstr \<Rightarrow> jstr \<Rightarrow> jstr \<Rightarrow> row list \<Rightarrow> document" where
  "build_document logo product version date user rows =
     \<lparr>d_font = font_simsun, d_size = 24, d_styles = doc_styles, d_page = (11906, 16838),
      d_margins = (1800, 1440, 1440, 1440), d_header = page_header logo,
      d_footer = page_footer, d_body = doc_body product version date user rows\<rparr>"

subsection \<open>Views of the tree\<close>

text \<open>The texts of a cell's runs, and the columns a row covers (\<open>columnSpan\<close>, default 1).\<close>

fun run_texts :: "run \<Rightarrow> jsv list" where
  "run_texts (TextRun r) = [r_text r]"
| "run_texts (FieldRun f font sz) = []"
| "run_texts (ImageRun d w h) = []"

definition cell_texts :: "cell \<Rightarrow> jsv list" where
  "cell_texts c = concat (map (\<lambda>p. concat (map run_texts (p_runs p))) (c_paras c))"

definition row_span :: "row \<Rightarrow> nat" where
  "row_span r = sum_list (map (\<lambda>c. case c_span c of None \<Rightarrow> 1 | Some n \<Rightarrow> n) r)"

definition table_wf :: "table \<Rightarrow> bool" where
  "table_wf t \<longleftrightarrow> sum_list (t_cols t) = t_width t \<and> (\<forall>r\<in>set (t_rows t). row_span r = length (t_cols t))"

subsection \<open>The checklist rows\<close>

lemma item_row_Inl_iff: "item_row i (JV x) = Inl e \<longleftrightarrow> x = JNull \<and> e = TypeError"
  by (cases x) (auto simp: item_row_def Let_def)

lemma item_row_shape:
  assumes "item_row i v = Inr r"
  shows "length r = 3 \<and> (\<forall>c\<in>set r. c_fill c = (if i mod 2 = 0 then None else Some (js ''F5F5F5'')))"
  using assms by (auto simp: item_row_def Let_def item_cell_def split: sum.splits)

lemma item_rows_Inr:
  "item_rows i xs = Inr rs \<Longrightarrow>
     length rs = length xs \<and> (\<forall>k<length xs. item_row (i + k) (JV (xs ! k)) = Inr (rs ! k))"
proof (induction xs arbitrary: i rs)
  case Nil
  then show ?case by simp
next
  case (Cons x xs)
  then obtain r rs' where r: "item_row i (JV x) = Inr r" and rs': "item_rows (Suc i) xs = Inr rs'"
    and rs: "rs = r # rs'"
    by (auto split: sum.splits)
  from Cons.IH [OF rs'] r rs show ?case
    by (auto simp: less_Suc_eq_0_disj)
qed

lemma item_rows_ok: "(\<exists>rs. item_rows i xs = Inr rs) \<longleftrightarrow> JNull \<notin> set xs"
proof (induction xs arbitrary: i)
  case Nil
  then show ?case by simp
next
  case (Cons x xs)
  show ?case
  proof (cases "x = JNull")
    case True
    then show ?thesis by (simp add: item_row_def Let_def)
  next
    case False
    then obtain r where "item_row i (JV x) = Inr r"
      using item_row_Inl_iff [of i x] by (cases "item_row i (JV x)") auto
    with Cons.IH [of "Suc i"] False show ?thesis by (auto split: sum.splits)
  qed
qed

lemma item_rows_Inl: "item_rows i xs = Inl e \<Longrightarrow> e = TypeError"
  by (induction xs arbitrary: i) (auto simp: item_row_def Let_def get_prop_Inl_iff split: sum.splits)

definition sample_items :: "jval list" where
  "sample_items =
     [JObj [(js ''function'', JStr (js ''A'')), (js ''points'', JStr (js ''B''))],
      JObj [(js ''function'', JStr (js ''C'')), (js ''points'', JStr (js ''D''))]]"

lemma sample_rows_exist: "\<exists>rows. table_rows (JV (JArr sample_items)) = Inr rows"
  using item_rows_ok [of 0 sample_items]
  by (auto simp: table_rows_def sample_items_def split: sum.splits)

lemma table_rows_Inr_shape:
  "table_rows items = Inr rows \<Longrightarrow>
     \<exists>xs rs. items = JV (JArr xs) \<and> item_rows 0 xs = Inr rs \<and> rows = header_row # rs"
  by (auto simp: table_rows_def split: jsv.splits jval.splits sum.splits)

lemma table_rows_length:
  "table_rows (JV (JArr xs)) = Inr rows \<Longrightarrow> length rows = Suc (length xs)"
  using item_rows_Inr by (fastforce dest: table_rows_Inr_shape)

text \<open>
  C6. A checklist table that is built has the header row first and exactly one row per
  entry after it, \<open>length entries + 1\<close> rows in all; it is built only from an array.
\<close>

theorem table_rows_count:
  assumes "table_rows items = Inr rows"
  shows "\<exists>xs. items = JV (JArr xs) \<and> length rows = length xs + 1 \<and> hd rows = header_row"
  using table_rows_Inr_shape [OF assms] item_rows_Inr by fastforce

theorem table_rows_count_witness:
  "case table_rows (JV (JArr sample_items)) of Inl e \<Rightarrow> False | Inr rows \<Rightarrow> length rows = 3"
proof -
  obtain rows where r: "table_rows (JV (JArr sample_items)) = Inr rows"
    using sample_rows_exist by blast
  from table_rows_count [OF r] have "length rows = 3" by (auto simp: sample_items_def)
  with r show ?thesis by simp
qed

text \<open>
  C7. Shading of the checklist table: the header row's cells are filled 2E5090; the
  cells of the entry at zero-based index \<open>i\<close> are unfilled when \<open>i\<close> is even and
  filled F5F5F5 when it is odd, for every entry count.
\<close>

theorem table_rows_shading:
  assumes "table_rows items = Inr rows" and "k < length rows" and "c \<in> set (rows ! k)"
  shows "c_fill c = (if k = 0 then Some brand_blue
                     else if even (k - 1) then None else Some (js ''F5F5F5''))"
proof -
  from assms(1) obtain xs rs where xs: "items = JV (JArr xs)" and rs: "item_rows 0 xs = Inr rs"
    and rows: "rows = header_row # rs"
    by (auto simp: table_rows_def split: jsv.splits jval.splits sum.splits)
  show ?thesis
  proof (cases k)
    case 0
    with assms(3) rows show ?thesis by (auto simp: header_row_def header_cell_def)
  next
    case (Suc j)
    with assms(2) rows item_rows_Inr [OF rs] have "item_row j (JV (xs ! j)) = Inr (rs ! j)"
      by simp
    with assms(3) rows Suc item_row_shape show ?thesis by (fastforce simp: even_iff_mod_2_eq_zero)
  qed
qed

lemma table_rows_Inr_iff:
  "(\<exists>rows. table_rows items = Inr rows) \<longleftrightarrow>
     (\<exists>xs. items = JV (JArr xs) \<and> (\<exists>rs. item_rows 0 xs = Inr rs))"
  by (auto simp: table_rows_def split: jsv.splits jval.splits sum.splits)

theorem table_rows_shading_witness:
  "case table_rows (JV (JArr sample_items)) of Inl e \<Rightarrow> False
   | Inr rows \<Rightarrow> (\<forall>c\<in>set (rows ! 2). c_fill c = Some (js ''F5F5F5''))"
proof -
  obtain rows where r: "table_rows (JV (JArr sample_items)) = Inr rows"
    using sample_rows_exist by blast
  from table_rows_length [OF r] have l: "2 < length rows" by (simp add: sample_items_def)
  have "c_fill c = Some (js ''F5F5F5'')" if "c \<in> set (rows ! 2)" for c
    using table_rows_shading [OF r l that] by simp
  with r show ?thesis by simp
qed

text \<open>
  C8. Building the rows fails exactly when the resolved entries are not an array
  (\<open>forEach\<close> is missing) or one entry is \<open>null\<close> (reading \<open>item.function\<close> throws).
\<close>

theorem table_rows_ok_iff:
  "(\<exists>rows. table_rows items = Inr rows) \<longleftrightarrow> (\<exists>xs. items = JV (JArr xs) \<and> JNull \<notin> set xs)"
  by (simp only: table_rows_Inr_iff item_rows_ok)

lemma item_row_entry_texts:
  assumes "item_row k (JV (JObj [(js ''function'', JStr f), (js ''points'', JStr p)])) = Inr r"
  shows "map cell_texts r = [[JV (JStr f)], [JV (JStr p)], [JV (JStr result_placeholder)]]"
  using assms
  by (auto simp: item_row_def Let_def js_def item_cell_def cell_text_def run_of_def
      mk_para_def cell_texts_def)

text \<open>
  C9. The row of an entry \<open>{function: f, points: p}\<close> shows \<open>f\<close>, \<open>p\<close> and the
  fixed result placeholder, one text per cell.
\<close>

theorem table_rows_texts:
  assumes "table_rows (JV (JArr xs)) = Inr rows" and "k < length xs"
    and "xs ! k = JObj [(js ''function'', JStr f), (js ''points'', JStr p)]"
  shows "map cell_texts (rows ! Suc k) = [[JV (JStr f)], [JV (JStr p)], [JV (JStr result_placeholder)]]"
proof -
  from assms(1) obtain rs where rs: "item_rows 0 xs = Inr rs" and rows: "rows = header_row # rs"
    by (auto simp: table_rows_def split: sum.splits)
  from item_rows_Inr [OF rs] assms(2) have "item_row k (JV (xs ! k)) = Inr (rs ! k)" by simp
  with assms(3) rows item_row_entry_texts show ?thesis by simp
qed

theorem table_rows_texts_witness:
  "case table_rows (JV (JArr sample_items)) of Inl e \<Rightarrow> False
   | Inr rows \<Rightarrow> map cell_texts (rows ! 1) =
       [[JV (JStr (js ''A''))], [JV (JStr (js ''B''))], [JV (JStr result_placeholder)]]"
proof -
  obtain rows where r: "table_rows (JV (JArr sample_items)) = Inr rows"
    using sample_rows_exist by blast
  have k: "0 < length sample_items" by (simp add: sample_items_def)
  have e: "sample_items ! 0 = JObj [(js ''function'', JStr (js ''A'')), (js ''points'', JStr (js ''B''))]"
    by (simp add: sample_items_def)
  from table_rows_texts [OF r k e] r show ?thesis by simp
qed

subsection \<open>Table layout\<close>

lemma item_row_layout:
  "item_row i v = Inr r \<Longrightarrow> map c_width r = col_widths \<and> row_span r = 3"
  by (auto simp: item_row_def Let_def item_cell_def row_span_def col_widths_def split: sum.splits)

lemma header_row_layout: "map c_width header_row = col_widths \<and> row_span header_row = 3"
  by (simp add: header_row_def header_cell_def row_span_def col_widths_def)

lemma table_rows_layout:
  assumes "table_rows items = Inr rows" and "r \<in> set rows"
  shows "map c_width r = col_widths \<and> row_span r = 3"
proof -
  from assms(1) obtain xs rs where rs: "item_rows 0 xs = Inr rs" and rows: "rows = header_row # rs"
    by (auto simp: table_rows_def split: jsv.splits jval.splits sum.splits)
  show ?thesis
  proof (cases "r = header_row")
    case True
    then show ?thesis by (simp add: header_row_layout)
  next
    case False
    with assms(2) rows obtain k where "k < length rs" "r = rs ! k"
      by (auto simp: in_set_conv_nth)
    with item_rows_Inr [OF rs] item_row_layout show ?thesis by metis
  qed
qed

text \<open>
  C10. Both tables of the document are well formed: their column widths add up to the
  table width 9360, and every row covers exactly as many columns as the table has
  (the tester's cell of the metadata table spans two); the cells of every checklist
  row have the widths 2800, 4560, 2000 of their columns.
\<close>

theorem tables_wf:
  assumes "table_rows items = Inr rows"
  shows "table_wf (checklist_table rows) \<and> table_wf (info_table product version date user) \<and>
         (\<forall>r\<in>set rows. map c_width r = col_widths)"
  using assms table_rows_layout
  by (auto simp: table_wf_def checklist_table_def info_table_def info_cell_def row_span_def
      col_widths_def)

theorem tables_wf_witness:
  "case table_rows (JV (JArr sample_items)) of Inl e \<Rightarrow> False
   | Inr rows \<Rightarrow> table_wf (checklist_table rows) \<and> table_wf (info_table [] [] [] [])"
proof -
  obtain rows where r: "table_rows (JV (JArr sample_items)) = Inr rows"
    using sample_rows_exist by blast
  from tables_wf [OF r, of "[]" "[]" "[]" "[]"] r show ?thesis by simp
qed

text \<open>
  C11. The metadata table shows its values verbatim and once each: product beside
  its label, the test date beside its label, the version in the third column of the
  second row (under its label, which sits in the first row), and the tester's name.
\<close>

theorem info_table_texts:
  "map (map cell_texts) (t_rows (info_table product version date user)) =
     [[[JV (JStr label_product)], [JV (JStr product)], [JV (JStr label_version)]],
      [[JV (JStr label_date)], [JV (JStr date)], [JV (JStr version)]],
      [[JV (JStr label_tester)], [JV (JStr user)]]]"
  by (simp add: info_table_def info_cell_def cell_texts_def mk_para_def label_run_def
      value_run_def styled_def)

text \<open>
  The tester's cell spans the last two columns (4680 + 2340 = 7020 DXA) but
  declares the width of one, 4680.
\<close>

theorem info_table_span_width:
  "c_span (t_rows (info_table product version date user) ! 2 ! 1) = Some 2 \<and>
   c_width (t_rows (info_table product version date user) ! 2 ! 1) = 4680 \<and>
   t_cols (info_table product version date user) ! 1 + t_cols (info_table product version date user) ! 2 = 7020"
  by (simp add: info_table_def info_cell_def)

end
