(* ===== verification/Args.thy ===== *)
theory Args
  imports Prelude
begin

text \<open>
  Command-line parsing (generate.js, \<open>parseArgs\<close>, lines 14--40). The options object
  starts with the defaults of lines 16--23; the loop of lines 25--31 reads the arguments
  in pairs, strips one leading \<^verbatim>\<open>--\<close> from the key, and stores a non-empty value
  under a key the object owns. A missing \<open>user\<close> prints the usage and exits with code 1
  (lines 33--37). The date default is the part before \<open>T\<close> of
  \<open>new Date().toISOString()\<close>, which the model receives as \<open>now_iso\<close>.
\<close>

record options =
  opt_user :: "jstr option"
  opt_version :: jstr
  opt_product :: jstr
  opt_date :: jstr
  opt_template :: jstr
  opt_output :: jstr

definition default_product :: jstr where
  "default_product = [0x884C, 0x82AF, 0x4EA7, 0x54C1]"

definition iso_date :: "jstr \<Rightarrow> jstr" where
  "iso_date now_iso = takeWhile (\<lambda>c. c \<noteq> 0x54) now_iso"

definition default_options :: "jstr \<Rightarrow> options" where
  "default_options now_iso =
     \<lparr>opt_user = None, opt_version = js ''v1.0.0'', opt_product = default_product,
      opt_date = iso_date now_iso, opt_template = js ''default'', opt_output = js ''.''\<rparr>"

text \<open>\<open>args[i].replace(/^--/, '')\<close>\<close>

definition strip_dashes :: "jstr \<Rightarrow> jstr" where
  "strip_dashes k = (if take 2 k = js ''--'' then drop 2 k else k)"

definition option_keys :: "jstr list" where
  "option_keys = [js ''user'', js ''version'', js ''product'', js ''date'', js ''template'', js ''output'']"

text \<open>\<open>if (options.hasOwnProperty(key) && value) options[key] = value\<close>\<close>

definition set_opt :: "options \<Rightarrow> jstr \<Rightarrow> jstr \<Rightarrow> options" where
  "set_opt opts key v =
     (if v = [] then opts
      else if key = js ''user'' then opts\<lparr>opt_user := Some v\<rparr>
      else if key = js ''version'' then opts\<lparr>opt_version := v\<rparr>
      else if key = js ''product'' then opts\<lparr>opt_product := v\<rparr>
      else if key = js ''date'' then opts\<lparr>opt_date := v\<rparr>
      else if key = js ''template'' then opts\<lparr>opt_template := v\<rparr>
      else if key = js ''output'' then opts\<lparr>opt_output := v\<rparr>
      else opts)"

text \<open>The loop \<open>for (i = 0; i < args.length; i += 2)\<close>; a last key without value reads \<open>undefined\<close>.\<close>

fun parse_pairs :: "options \<Rightarrow> jstr list \<Rightarrow> options" where
  "parse_pairs opts [] = opts"
| "parse_pairs opts [k] = opts"
| "parse_pairs opts (k # v # rest) = parse_pairs (set_opt opts (strip_dashes k) v) rest"

datatype arg_error = MissingUser

definition parse_args :: "jstr \<Rightarrow> jstr list \<Rightarrow> arg_error + options" where
  "parse_args now_iso args =
     (let opts = parse_pairs (default_options now_iso) args in
      case opt_user opts of None \<Rightarrow> Inl MissingUser | Some u \<Rightarrow> Inr opts)"

subsection \<open>The options as a map\<close>

text \<open>
  The abstract view of the options object: key to value, \<open>user\<close> absent while it is
  \<open>null\<close>, keys the object does not own absent.
\<close>

definition opts_map :: "options \<Rightarrow> jstr \<Rightarrow> jstr option" where
  "opts_map opts k =
     (if k = js ''user'' then opt_user opts
      else if k = js ''version'' then Some (opt_version opts)
      else if k = js ''product'' then Some (opt_product opts)
      else if k = js ''date'' then Some (opt_date opts)
      else if k = js ''template'' then Some (opt_template opts)
      else if k = js ''output'' then Some (opt_output opts)
      else None)"

definition flags :: "(jstr \<times> jstr) list \<Rightarrow> jstr list" where
  "flags kvs = concat (map (\<lambda>(k, v). [js ''--'' @ k, v]) kvs)"

text \<open>
  The type of the options object after parsing: every field holds a non-empty string
  (\<open>user\<close> may still be \<open>undefined\<close>), as the later uses of the fields expect.
\<close>

definition options_ok :: "options \<Rightarrow> bool" where
  "options_ok opts \<longleftrightarrow>
     (\<forall>u. opt_user opts = Some u \<longrightarrow> u \<noteq> []) \<and> opt_version opts \<noteq> [] \<and>
     opt_product opts \<noteq> [] \<and> opt_date opts \<noteq> [] \<and> opt_template opts \<noteq> [] \<and>
     opt_output opts \<noteq> []"

lemma strip_dashes_flag [simp]: "strip_dashes (js ''--'' @ k) = k"
  by (simp add: strip_dashes_def js_def)

lemma key_cases:
  obtains "k = js ''user''" | "k = js ''version''" | "k = js ''product''" | "k = js ''date''"
    | "k = js ''template''" | "k = js ''output''" | "k \<notin> set option_keys"
  by (auto simp: option_keys_def)

lemma opts_map_set_opt:
  "opts_map (set_opt opts k v) =
     (if v \<noteq> [] \<and> k \<in> set option_keys then (opts_map opts)(k \<mapsto> v) else opts_map opts)"
proof (cases "v = []")
  case True
  then show ?thesis by (simp add: set_opt_def)
next
  case False
  show ?thesis
  proof (rule ext)
    fix x
    show "opts_map (set_opt opts k v) x =
          (if v \<noteq> [] \<and> k \<in> set option_keys then (opts_map opts)(k \<mapsto> v) else opts_map opts) x"
      using False
      by (cases k rule: key_cases) (auto simp: set_opt_def opts_map_def option_keys_def js_def)
  qed
qed

lemma parse_pairs_flags_append:
  "parse_pairs opts (flags kvs @ rest) = parse_pairs (fold (\<lambda>(k, v) opts. set_opt opts k v) kvs opts) rest"
  by (induction kvs arbitrary: opts) (auto simp: flags_def)

lemma fold_set_opt_map:
  "opts_map (fold (\<lambda>(k, v) opts. set_opt opts k v) kvs opts) =
     opts_map opts ++ map_of (rev (filter (\<lambda>(k, v). v \<noteq> [] \<and> k \<in> set option_keys) kvs))"
proof (induction kvs arbitrary: opts)
  case Nil
  then show ?case by simp
next
  case (Cons kv kvs)
  obtain k v where kv: "kv = (k, v)" by (cases kv)
  let ?F = "\<lambda>(k, v) opts. set_opt opts k v"
  let ?P = "\<lambda>(k, v). v \<noteq> [] \<and> k \<in> set option_keys"
  let ?M = "map_of (rev (filter ?P kvs))"
  have step: "fold ?F (kv # kvs) opts = fold ?F kvs (set_opt opts k v)"
    by (simp add: kv)
  have IH: "opts_map (fold ?F kvs (set_opt opts k v)) = opts_map (set_opt opts k v) ++ ?M"
    by (rule Cons.IH)
  show ?case
  proof (cases "v \<noteq> [] \<and> k \<in> set option_keys")
    case True
    have u: "opts_map (set_opt opts k v) = (opts_map opts)(k \<mapsto> v)"
      by (simp only: opts_map_set_opt if_P [OF True])
    have f: "rev (filter ?P (kv # kvs)) = rev (filter ?P kvs) @ [(k, v)]"
      using True by (simp add: kv)
    have "opts_map opts ++ map_of (rev (filter ?P (kv # kvs))) =
            opts_map opts ++ (map_of [(k, v)] ++ ?M)"
      by (simp only: f map_of_append)
    also have "\<dots> = (opts_map opts)(k \<mapsto> v) ++ ?M"
      by simp
    finally show ?thesis by (simp only: step IH u)
  next
    case False
    have u: "opts_map (set_opt opts k v) = opts_map opts"
      by (simp only: opts_map_set_opt if_not_P [OF False])
    have f: "filter ?P (kv # kvs) = filter ?P kvs"
      using False by (auto simp: kv)
    show ?thesis by (simp only: step IH u f)
  qed
qed

text \<open>
  C12. Parsing a command line written as \<^verbatim>\<open>--key value\<close> pairs refines a map update:
  the options map afterwards is the initial one overridden by the pairs whose value is
  non-empty and whose key the options object owns, a later pair winning over an earlier
  one with the same key.
\<close>

theorem parse_pairs_refines:
  "opts_map (parse_pairs opts (flags kvs)) =
     opts_map opts ++ map_of (rev (filter (\<lambda>(k, v). v \<noteq> [] \<and> k \<in> set option_keys) kvs))"
  using parse_pairs_flags_append [of opts kvs "[]"] fold_set_opt_map by simp

lemma opt_user_opts_map: "opt_user opts = opts_map opts (js ''user'')"
  by (simp add: opts_map_def)

lemma opts_map_default_user [simp]: "opts_map (default_options now_iso) (js ''user'') = None"
  by (simp add: opts_map_def default_options_def)

lemma user_key_owned [simp]: "js ''user'' \<in> set option_keys"
  by (simp add: option_keys_def)

lemma map_of_rev_filter_None:
  "map_of (rev (filter (\<lambda>(k, v). v \<noteq> [] \<and> k \<in> set option_keys) kvs)) (js ''user'') = None \<longleftrightarrow>
     (\<forall>v. (js ''user'', v) \<in> set kvs \<longrightarrow> v = [])"
  by (auto simp: map_of_eq_None_iff image_iff)

lemma strip_dashes_user: "strip_dashes (js ''--user'') = js ''user''"
  by (simp add: strip_dashes_def js_def)

lemma set_opt_user: "u \<noteq> [] \<Longrightarrow> set_opt opts (js ''user'') u = opts\<lparr>opt_user := Some u\<rparr>"
  by (simp add: set_opt_def)

text \<open>
  C13. A command line of \<^verbatim>\<open>--key value\<close> pairs is rejected with the usage message
  exactly when it gives \<open>--user\<close> no non-empty value.
\<close>

theorem parse_args_missing_user:
  "parse_args now_iso (flags kvs) = Inl MissingUser \<longleftrightarrow> (\<forall>v. (js ''user'', v) \<in> set kvs \<longrightarrow> v = [])"
proof -
  have "opt_user (parse_pairs (default_options now_iso) (flags kvs)) =
          map_of (rev (filter (\<lambda>(k, v). v \<noteq> [] \<and> k \<in> set option_keys) kvs)) (js ''user'')"
    using parse_pairs_flags_append [of "default_options now_iso" kvs "[]"]
      fold_set_opt_map [of kvs "default_options now_iso"]
    by (simp add: opt_user_opts_map map_add_def split: option.split)
  then show ?thesis
    by (simp add: parse_args_def map_of_rev_filter_None [symmetric] split: option.split)
qed

theorem parse_args_missing_user_witness:
  "parse_args (js ''2026-11-09T10:00:00.000Z'') (flags [(js ''version'', js ''v2'')]) = Inl MissingUser"
proof -
  have "\<forall>v. (js ''user'', v) \<in> set [(js ''version'', js ''v2'')] \<longrightarrow> v = []"
    by (simp add: js_def)
  then show ?thesis
    using parse_args_missing_user [of "js ''2026-11-09T10:00:00.000Z''" "[(js ''version'', js ''v2'')]"]
    by blast
qed

text \<open>
  C14. The arguments are paired by position, not by their dashes: any argument whose key
  is not \<open>user\<close> placed before \<^verbatim>\<open>--user u\<close> takes \<^verbatim>\<open>--user\<close> as its value, and the
  user name is left without a key, so the command line is rejected for every \<open>u\<close>
  (\<^verbatim>\<open>--verbose --user alice\<close> is rejected).
\<close>

theorem parse_args_flag_shifts_pairs:
  assumes "strip_dashes f \<noteq> js ''user''"
  shows "parse_args now_iso [f, js ''--user'', u] = Inl MissingUser"
proof -
  have "opt_user (set_opt (default_options now_iso) (strip_dashes f) (js ''--user'')) = None"
    using assms by (simp add: set_opt_def default_options_def)
  then show ?thesis by (simp add: parse_args_def)
qed

theorem parse_args_flag_shifts_pairs_witness:
  "parse_args (js ''2026-11-09T10:00:00.000Z'') [js ''--verbose'', js ''--user'', js ''alice''] = Inl MissingUser"
proof -
  have k: "strip_dashes (js ''--verbose'') \<noteq> js ''user''" by (simp add: strip_dashes_def js_def)
  from parse_args_flag_shifts_pairs [OF k] show ?thesis .
qed

text \<open>
  C15. With only \<^verbatim>\<open>--user u\<close>, a non-empty \<open>u\<close>, the result is the defaults of
  lines 16--23 with the user set: version \<^verbatim>\<open>v1.0.0\<close>, the default product, today's
  date, template \<open>default\<close>, output directory \<^verbatim>\<open>.\<close>.
\<close>

theorem parse_args_defaults:
  assumes "u \<noteq> []"
  shows "parse_args now_iso [js ''--user'', u] =
           Inr \<lparr>opt_user = Some u, opt_version = js ''v1.0.0'', opt_product = default_product,
                opt_date = iso_date now_iso, opt_template = js ''default'', opt_output = js ''.''\<rparr>"
  using assms by (simp add: parse_args_def strip_dashes_user set_opt_user default_options_def)

theorem parse_args_defaults_witness:
  "parse_args (js ''2026-11-09T10:00:00.000Z'') [js ''--user'', js ''alice''] =
     Inr \<lparr>opt_user = Some (js ''alice''), opt_version = js ''v1.0.0'', opt_product = default_product,
          opt_date = js ''2026-11-09'', opt_template = js ''default'', opt_output = js ''.''\<rparr>"
proof -
  have d: "iso_date (js ''2026-11-09T10:00:00.000Z'') = js ''2026-11-09''"
    by (simp add: iso_date_def js_def)
  have u: "js ''alice'' \<noteq> []" by (simp add: js_def)
  from parse_args_defaults [OF u, of "js ''2026-11-09T10:00:00.000Z''"] show ?thesis
    by (simp only: d)
qed

subsection \<open>The type of the parsed options\<close>

lemma default_options_ok:
  "iso_date now_iso \<noteq> [] \<Longrightarrow> options_ok (default_options now_iso)"
  by (simp add: options_ok_def default_options_def default_product_def js_def)

lemma set_opt_ok: "options_ok opts \<Longrightarrow> options_ok (set_opt opts k v)"
  by (simp add: options_ok_def set_opt_def)

lemma parse_pairs_ok: "options_ok opts \<Longrightarrow> options_ok (parse_pairs opts args)"
  by (induction opts args rule: parse_pairs.induct) (simp_all add: set_opt_ok)

text \<open>
  C25. Type of \<open>parseArgs\<close>: when the date default is not empty, every options object
  \<open>parseArgs\<close> returns has a non-empty user and non-empty strings in all other fields;
  an empty value on the command line never replaces a default.
\<close>

theorem parse_args_options_ok:
  assumes "iso_date now_iso \<noteq> []" and "parse_args now_iso args = Inr opts"
  shows "options_ok opts \<and> (\<exists>u. opt_user opts = Some u \<and> u \<noteq> [])"
proof -
  have ok: "options_ok (parse_pairs (default_options now_iso) args)"
    by (rule parse_pairs_ok [OF default_options_ok [OF assms(1)]])
  from assms(2) obtain u where "opts = parse_pairs (default_options now_iso) args"
      "opt_user opts = Some u"
    by (auto simp: parse_args_def Let_def split: option.splits)
  with ok show ?thesis by (auto simp: options_ok_def)
qed

theorem parse_args_options_ok_witness:
  "options_ok (default_options (js ''2026-11-09T10:00:00.000Z'')\<lparr>opt_user := Some (js ''alice'')\<rparr>) \<and>
   (\<exists>u. opt_user (default_options (js ''2026-11-09T10:00:00.000Z'')\<lparr>opt_user := Some (js ''alice'')\<rparr>) = Some u \<and> u \<noteq> [])"
proof -
  let ?n = "js ''2026-11-09T10:00:00.000Z''"
  have d: "iso_date ?n \<noteq> []" by (simp add: iso_date_def js_def)
  have p: "parse_args ?n [js ''--user'', js ''alice'', js ''--version'', []] =
             Inr ((default_options ?n)\<lparr>opt_user := Some (js ''alice'')\<rparr>)"
    by (simp add: parse_args_def strip_dashes_def set_opt_def default_options_def js_def)
  from parse_args_options_ok [OF d p] show ?thesis .
qed

end
