(* ===== verification/Path.thy ===== *)
theory Path
  imports Prelude
begin

text \<open>
  The output path of \<open>createDocument\<close> (generate.js, lines 416--420):
  \<open>path.resolve(output, filename)\<close> and \<open>path.dirname\<close> of the result, with Node's POSIX
  semantics. A path is split at \<^verbatim>\<open>/\<close> into segments; resolution starts from the
  working directory unless an argument is absolute, drops empty and \<^verbatim>\<open>.\<close> segments,
  lets \<^verbatim>\<open>..\<close> remove the segment before it (at the root it does nothing) and joins
  the rest behind a leading \<^verbatim>\<open>/\<close>. \<open>path_dirname\<close> is applied to resolved paths
  only, where Node's \<open>dirname\<close> drops the last segment.
\<close>

definition slash :: cunit where
  "slash = 0x2F"

fun split_segs :: "jstr \<Rightarrow> jstr \<Rightarrow> jstr list" where
  "split_segs acc [] = [rev acc]"
| "split_segs acc (c # cs) = (if c = slash then rev acc # split_segs [] cs else split_segs (c # acc) cs)"

definition split_path :: "jstr \<Rightarrow> jstr list" where
  "split_path s = split_segs [] s"

definition is_abs :: "jstr \<Rightarrow> bool" where
  "is_abs s \<longleftrightarrow> take 1 s = [slash]"

text \<open>The segment stack of \<open>normalizeString\<close>, kept reversed.\<close>

fun norm_segs :: "jstr list \<Rightarrow> jstr list \<Rightarrow> jstr list" where
  "norm_segs st [] = rev st"
| "norm_segs st (x # xs) =
     (if x = [] \<or> x = js ''.'' then norm_segs st xs
      else if x = js ''..'' then norm_segs (drop 1 st) xs
      else norm_segs (x # st) xs)"

fun join_abs :: "jstr list \<Rightarrow> jstr" where
  "join_abs [] = [slash]"
| "join_abs [x] = slash # x"
| "join_abs (x # y # ys) = slash # x @ join_abs (y # ys)"

text \<open>
  \<open>path.resolve(output, filename)\<close> in the working directory \<open>cwd\<close> (an absolute path):
  the arguments are taken from the right until one is absolute.
\<close>

definition resolve_segs :: "jstr \<Rightarrow> jstr \<Rightarrow> jstr \<Rightarrow> jstr list" where
  "resolve_segs cwd out fname =
     norm_segs []
       (if is_abs fname then split_path fname
        else if is_abs out then split_path out @ split_path fname
        else split_path cwd @ split_path out @ split_path fname)"

definition path_resolve :: "jstr \<Rightarrow> jstr \<Rightarrow> jstr \<Rightarrow> jstr" where
  "path_resolve cwd out fname = join_abs (resolve_segs cwd out fname)"

definition path_dirname :: "jstr \<Rightarrow> jstr" where
  "path_dirname p = join_abs (butlast (filter (\<lambda>x. x \<noteq> []) (split_path p)))"

text \<open>A segment list is normal when no segment is empty, \<^verbatim>\<open>.\<close>, \<^verbatim>\<open>..\<close> or holds a slash.\<close>

definition seg_ok :: "jstr \<Rightarrow> bool" where
  "seg_ok x \<longleftrightarrow> x \<noteq> [] \<and> x \<noteq> js ''.'' \<and> x \<noteq> js ''..'' \<and> slash \<notin> set x"

subsection \<open>Splitting and joining\<close>

lemma split_segs_no_slash: "x \<in> set (split_segs acc s) \<Longrightarrow> slash \<notin> set acc \<Longrightarrow> slash \<notin> set x"
  by (induction acc s rule: split_segs.induct) (auto split: if_splits)

lemma split_path_no_slash: "x \<in> set (split_path s) \<Longrightarrow> slash \<notin> set x"
  unfolding split_path_def by (erule split_segs_no_slash) simp

lemma split_segs_free: "slash \<notin> set xs \<Longrightarrow> split_segs acc (xs @ ys) = split_segs (rev xs @ acc) ys"
  by (induction xs arbitrary: acc) auto

lemma split_segs_join_abs:
  "xs \<noteq> [] \<Longrightarrow> \<forall>x\<in>set xs. slash \<notin> set x \<Longrightarrow> split_segs acc (join_abs xs) = rev acc # xs"
proof (induction xs arbitrary: acc rule: join_abs.induct)
  case (2 x)
  then show ?case using split_segs_free [of x "[]" "[]"] by simp
next
  case (3 x y ys)
  then have "split_segs (rev x) (join_abs (y # ys)) = x # y # ys" by simp
  with 3(3) show ?case using split_segs_free [of x "[]" "join_abs (y # ys)"] by simp
qed simp

lemma split_path_join_abs:
  "xs \<noteq> [] \<Longrightarrow> \<forall>x\<in>set xs. slash \<notin> set x \<Longrightarrow> split_path (join_abs xs) = [] # xs"
  unfolding split_path_def using split_segs_join_abs [of xs "[]"] by simp

subsection \<open>Normalisation\<close>

lemma norm_segs_append: "norm_segs st (xs @ ys) = norm_segs (rev (norm_segs st xs)) ys"
  by (induction st xs rule: norm_segs.induct) auto

lemma norm_segs_seg_ok:
  "\<forall>x\<in>set st. seg_ok x \<Longrightarrow> \<forall>x\<in>set xs. slash \<notin> set x \<Longrightarrow> \<forall>x\<in>set (norm_segs st xs). seg_ok x"
proof (induction st xs rule: norm_segs.induct)
  case (1 st)
  then show ?case by simp
next
  case (2 st x xs)
  have d: "\<forall>y\<in>set (drop 1 st). seg_ok y" using 2(4) set_drop_subset [of 1 st] by blast
  have xs: "\<forall>y\<in>set xs. slash \<notin> set y" using 2(5) by simp
  show ?case
  proof (cases "x = [] \<or> x = js ''.''")
    case True
    then show ?thesis using 2(1) [OF True 2(4) xs] by (simp only: norm_segs.simps(2) if_P [OF True] if_True)
  next
    case F1: False
    show ?thesis
    proof (cases "x = js ''..''")
      case True
      show ?thesis using 2(2) [OF F1 True d xs] by (simp only: norm_segs.simps(2) if_not_P [OF F1] if_P [OF True])
    next
      case False
      have "seg_ok x" using F1 False 2(5) by (simp add: seg_ok_def)
      then have "\<forall>y\<in>set (x # st). seg_ok y" using 2(4) by simp
      then show ?thesis using 2(3) [OF F1 False _ xs] by (simp only: norm_segs.simps(2) if_not_P [OF F1] if_not_P [OF False])
    qed
  qed
qed

lemma norm_segs_one: "seg_ok f \<Longrightarrow> norm_segs st [f] = rev (f # st)"
  by (simp add: seg_ok_def)

lemma split_path_seg: "seg_ok f \<Longrightarrow> split_path f = [f]"
  using split_segs_free [of f "[]" "[]"] by (simp add: seg_ok_def split_path_def)

lemma split_path_Nil: "split_path [] = [[]]"
  by (simp add: split_path_def)

lemma seg_ok_not_abs: "seg_ok f \<Longrightarrow> \<not> is_abs f"
  by (cases f) (auto simp: seg_ok_def is_abs_def)

text \<open>Every segment of a resolved path is a proper name.\<close>

lemma resolve_segs_ok: "\<forall>x\<in>set (resolve_segs cwd out fname). seg_ok x"
  unfolding resolve_segs_def by (rule norm_segs_seg_ok) (auto dest: split_path_no_slash)

lemma seg_ok_nonempty: "\<forall>x\<in>set xs. seg_ok x \<Longrightarrow> filter (\<lambda>x. x \<noteq> []) xs = xs"
  by (induction xs) (auto simp: seg_ok_def)

lemma dirname_join_abs:
  "\<forall>x\<in>set xs. seg_ok x \<Longrightarrow> path_dirname (join_abs xs) = join_abs (butlast xs)"
proof (cases "xs = []")
  case True
  then show ?thesis by (simp add: path_dirname_def split_path_def slash_def)
next
  case False
  assume ok: "\<forall>x\<in>set xs. seg_ok x"
  then have "\<forall>x\<in>set xs. slash \<notin> set x" by (simp add: seg_ok_def)
  with False ok show ?thesis
    by (simp add: path_dirname_def split_path_join_abs seg_ok_nonempty)
qed

text \<open>A file name that is one proper segment lands in the resolved output directory.\<close>

lemma norm_segs_snoc_empty: "norm_segs st (xs @ [[]]) = norm_segs st xs"
  by (simp add: norm_segs_append)

lemma norm_segs_snoc: "seg_ok f \<Longrightarrow> norm_segs st (xs @ [f]) = norm_segs st xs @ [f]"
  by (simp only: norm_segs_append norm_segs_one rev.simps(2) rev_rev_ident)

lemma resolve_segs_file:
  assumes "seg_ok f"
  shows "resolve_segs cwd out f = resolve_segs cwd out [] @ [f]"
proof -
  have a: "is_abs f = False" using assms by (simp add: seg_ok_not_abs)
  have b: "is_abs [] = False" by (simp add: is_abs_def)
  have c: "split_path f = [f]" using assms by (rule split_path_seg)
  show ?thesis
    by (cases "is_abs out")
      (simp_all only: resolve_segs_def a b c split_path_Nil if_False if_True append_assoc [symmetric]
        norm_segs_snoc [OF assms] norm_segs_snoc_empty)
qed

text \<open>A relative file name is resolved from the segments of \<open>path.resolve(output)\<close>.\<close>

lemma norm_segs_empty_seg: "norm_segs st [[]] = rev st"
  by simp

lemma resolve_segs_rel:
  assumes "\<not> is_abs f"
  shows "resolve_segs cwd out f = norm_segs (rev (resolve_segs cwd out [])) (split_path f)"
proof -
  have b: "is_abs [] = False" by (simp add: is_abs_def)
  show ?thesis
    by (cases "is_abs out")
      (simp_all add: resolve_segs_def assms b split_path_Nil norm_segs_append norm_segs_empty_seg
        del: norm_segs.simps)
qed

lemma split_path_free: "slash \<notin> set x \<Longrightarrow> split_path x = [x]"
  using split_segs_free [of x "[]" "[]"] by (simp add: split_path_def)

lemma split_path_sep: "slash \<notin> set x \<Longrightarrow> split_path (x @ slash # r) = x # split_path r"
  using split_segs_free [of x "[]" "slash # r"] by (simp add: split_path_def)

end
