(* ===== verification/Generator.thy ===== *)
theory Generator
  imports Template DocModel Args Path
begin

text \<open>
  \<open>createDocument\<close> (generate.js, lines 96--430) and \<open>main\<close> (lines 433--455) as
  functions of the file-system outcomes they observe, returning the sequence of
  effects (warnings, directory creation, the write) and the result or the exception.
  The outcomes the code distinguishes are fields of \<open>env\<close>: the catalog, the logo file,
  the working directory, the directories that exist, and whether \<open>mkdirSync\<close>,
  \<open>Packer.toBuffer\<close> and \<open>writeFileSync\<close> succeed. \<open>main\<close> adds the console output
  of lines 436--452 and the exit code.
\<close>

datatype logo_file = NoLogo | UnreadableLogo | LogoFile "8 word list"

record env =
  e_catalog :: catalog
  e_logo :: logo_file
  e_cwd :: jstr
  e_dirs :: "jstr list"
  e_mkdir_ok :: bool
  e_pack_ok :: bool
  e_write_ok :: bool

datatype failure = Thrown js_error | EncodeFailure

datatype event =
    EWarn warning
  | EMkdir jstr
  | EWrite jstr document
  | EUsage
  | EStart options
  | ESuccess jstr jstr nat
  | EFailed failure

text \<open>Lines 194--211: the logo is read when it exists; a read error propagates.\<close>

definition read_logo :: "logo_file \<Rightarrow> js_error + 8 word list option" where
  "read_logo l = (case l of NoLogo \<Rightarrow> Inr None | UnreadableLogo \<Rightarrow> Inl IOError | LogoFile b \<Rightarrow> Inr (Some b))"

text \<open>Line 416: the document title, a hyphen, the user verbatim and \<^verbatim>\<open>.docx\<close>.\<close>

definition output_filename :: "jstr \<Rightarrow> jstr" where
  "output_filename user = doc_title @ [0x2D] @ user @ js ''.docx''"

text \<open>\<open>testItems.length\<close>, read only after \<open>forEach\<close> succeeded on an array.\<close>

definition items_length :: "jsv \<Rightarrow> nat" where
  "items_length v = (case v of JV (JArr xs) \<Rightarrow> length xs | _ \<Rightarrow> 0)"

text \<open>
  Lines 416--429 once the document exists: the path, the directory created when
  \<open>existsSync\<close> does not find it, the encoding and the write.
\<close>

definition write_output ::
  "env \<Rightarrow> jstr \<Rightarrow> jstr \<Rightarrow> document \<Rightarrow> nat \<Rightarrow> event list \<times> (failure + jstr \<times> jstr \<times> nat)" where
  "write_output e out user doc n =
     (let fname = output_filename user;
          p = path_resolve (e_cwd e) out fname;
          d = path_dirname p
      in if d \<notin> set (e_dirs e) \<and> \<not> e_mkdir_ok e then ([], Inl (Thrown IOError))
         else
           let mk = (if d \<in> set (e_dirs e) then [] else [EMkdir d]) in
           if \<not> e_pack_ok e then (mk, Inl EncodeFailure)
           else if \<not> e_write_ok e then (mk, Inl (Thrown IOError))
           else (mk @ [EWrite p doc], Inr (fname, p, n)))"

text \<open>
  \<open>createDocument(options)\<close> for the tester \<open>user\<close>: \<open>loadTemplate\<close> (line 100), the
  rows (lines 106--191), the logo (lines 194--211), the document (lines 244--413) and
  the output (lines 416--429).
\<close>

definition create_document ::
  "env \<Rightarrow> jstr \<Rightarrow> options \<Rightarrow> event list \<times> (failure + jstr \<times> jstr \<times> nat)" where
  "create_document e user opts =
     (let (ws, r) = load_template (e_catalog e) (opt_template opts);
          evs = map EWarn ws
      in case r of
           Inl err \<Rightarrow> (evs, Inl (Thrown err))
         | Inr items \<Rightarrow>
             (case table_rows items of
                Inl err \<Rightarrow> (evs, Inl (Thrown err))
              | Inr rows \<Rightarrow>
                  (case read_logo (e_logo e) of
                     Inl err \<Rightarrow> (evs, Inl (Thrown err))
                   | Inr logo \<Rightarrow>
                       let doc = build_document logo (opt_product opts) (opt_version opts)
                                   (opt_date opts) user rows;
                           (evs2, res) = write_output e (opt_output opts) user doc (items_length items)
                       in (evs @ evs2, res))))"

text \<open>
  \<open>main()\<close>: a missing user prints the usage and exits with 1 inside \<open>parseArgs\<close>;
  otherwise the options are printed, the document created, and the outcome printed,
  exit code 0 on success and 1 on any exception.
\<close>

definition main :: "jstr \<Rightarrow> jstr list \<Rightarrow> env \<Rightarrow> event list \<times> nat" where
  "main now_iso args e =
     (case parse_args now_iso args of
        Inl MissingUser \<Rightarrow> ([EUsage], 1)
      | Inr opts \<Rightarrow>
          (case opt_user opts of
             None \<Rightarrow> ([EUsage], 1)
           | Some u \<Rightarrow>
               (case create_document e u opts of
                  (evs, Inl f) \<Rightarrow> (EStart opts # evs @ [EFailed f], 1)
                | (evs, Inr (fname, p, n)) \<Rightarrow> (EStart opts # evs @ [ESuccess fname p n], 0))))"

text \<open>The write effects of a trace.\<close>

fun is_write :: "event \<Rightarrow> bool" where
  "is_write (EWrite p doc) = True"
| "is_write _ = False"

text \<open>
  Example run: the tester \<open>U+5F20 U+4E09\<close> of Scenario D with the default options,
  the catalog of Scenario A, no logo, working directory \<^verbatim>\<open>/home/t\<close>, which exists.
\<close>

definition user_d :: jstr where
  "user_d = [0x5F20, 0x4E09]"

definition now_d :: jstr where
  "now_d = js ''2024-01-01T08:00:00.000Z''"

definition env_a :: env where
  "env_a = \<lparr>e_catalog = CatalogText catalog_a, e_logo = NoLogo, e_cwd = js ''/home/t'',
            e_dirs = [js ''/home/t''], e_mkdir_ok = True, e_pack_ok = True, e_write_ok = True\<rparr>"

definition opts_d :: options where
  "opts_d = (default_options now_d)\<lparr>opt_user := Some user_d\<rparr>"

definition env_unreadable :: env where
  "env_unreadable = env_a\<lparr>e_catalog := UnreadableCatalog\<rparr>"

text \<open>
  Catalogs of the failure examples: a \<open>default\<close> section whose \<open>items\<close> is a string,
  and the catalog of \<open>Template\<close> whose \<open>custom\<close> section lists no entries.
\<close>

definition catalog_str_items :: jstr where
  "catalog_str_items = js ''## default\<newline>```json\<newline>{\"items\": \"abc\"}\<newline>```\<newline>''"

definition env_str :: env where
  "env_str = env_a\<lparr>e_catalog := CatalogText catalog_str_items\<rparr>"

definition env_empty :: env where
  "env_empty = env_a\<lparr>e_catalog := CatalogText catalog_empty_items\<rparr>"

definition opts_custom :: options where
  "opts_custom = opts_d\<lparr>opt_template := js ''custom''\<rparr>"

subsection \<open>The output name and place\<close>

lemma seg_ok_output_filename: "seg_ok (output_filename u) \<longleftrightarrow> slash \<notin> set u"
  by (simp add: seg_ok_def output_filename_def doc_title_def slash_def js_def)

text \<open>
  C16. For a user name without a slash the document is written into the resolved output
  directory: the path is that directory followed by the file name, and the directory
  that is checked and created (lines 420--422) is exactly \<open>path.resolve(output)\<close>.
\<close>

theorem output_path_in_dir:
  assumes "slash \<notin> set u"
  shows "path_resolve cwd out (output_filename u) = join_abs (resolve_segs cwd out [] @ [output_filename u]) \<and>
         path_dirname (path_resolve cwd out (output_filename u)) = path_resolve cwd out []"
proof -
  have f: "seg_ok (output_filename u)" using assms by (simp add: seg_ok_output_filename)
  have r: "resolve_segs cwd out (output_filename u) = resolve_segs cwd out [] @ [output_filename u]"
    by (rule resolve_segs_file [OF f])
  have ok: "\<forall>x\<in>set (resolve_segs cwd out (output_filename u)). seg_ok x"
    by (rule resolve_segs_ok)
  show ?thesis using dirname_join_abs [OF ok] r by (simp add: path_resolve_def)
qed

theorem output_path_in_dir_witness:
  "slash \<notin> set [0x5F20, 0x4E09] \<and>
   path_dirname (path_resolve (js ''/home/t'') (js ''out'') (output_filename [0x5F20, 0x4E09])) =
     js ''/home/t/out''"
proof -
  have s: "slash \<notin> set [0x5F20, 0x4E09]" by (simp add: slash_def)
  have d: "path_resolve (js ''/home/t'') (js ''out'') [] = js ''/home/t/out''"
    by code_simp
  have e: "path_dirname (path_resolve (js ''/home/t'') (js ''out'') (output_filename [0x5F20, 0x4E09])) =
           path_resolve (js ''/home/t'') (js ''out'') []"
    using output_path_in_dir [OF s, of "js ''/home/t''" "js ''out''"] by (rule conjunct2)
  show ?thesis by (intro conjI s) (simp only: e d)
qed

text \<open>
  C17. The user name is not sanitised: \<open>path.resolve\<close> interprets its slashes and
  \<^verbatim>\<open>..\<close> segments. For every working directory, every output directory other than
  the root and every name \<open>b\<close> without a slash, the user \<^verbatim>\<open>/../../b\<close> makes the file
  \<open>b.docx\<close> land in the parent of the output directory, and that parent is the
  directory checked and created.
\<close>

lemma rev_drop_one_rev: "rev (drop 1 (rev xs)) = butlast xs"
  by (induction xs rule: rev_induct) simp_all

theorem output_path_escapes:
  assumes b: "slash \<notin> set b" and d: "resolve_segs cwd out [] \<noteq> []"
  shows "path_resolve cwd out (output_filename (js ''/../../'' @ b)) =
           join_abs (butlast (resolve_segs cwd out []) @ [b @ js ''.docx'']) \<and>
         path_dirname (path_resolve cwd out (output_filename (js ''/../../'' @ b))) =
           join_abs (butlast (resolve_segs cwd out []))"
proof -
  let ?D = "resolve_segs cwd out []" and ?t = "doc_title @ [0x2D]" and ?f = "b @ js ''.docx''"
  have t: "seg_ok ?t" "slash \<notin> set ?t" by (simp_all add: seg_ok_def doc_title_def slash_def js_def)
  have f: "seg_ok ?f" using b by (auto simp: seg_ok_def slash_def js_def append_eq_Cons_conv)
  have dd: "js ''..'' = [0x2E, 0x2E :: cunit]" by (simp add: js_def)
  have fn: "output_filename (js ''/../../'' @ b) = ?t @ slash # js ''..'' @ slash # js ''..'' @ slash # ?f"
    by (simp add: output_filename_def slash_def js_def)
  have dn: "slash \<notin> set (js ''..'')" by (simp add: dd slash_def)
  have sp: "split_path (output_filename (js ''/../../'' @ b)) = [?t, js ''..'', js ''..'', ?f]"
    unfolding fn split_path_sep [OF t(2)] split_path_sep [OF dn]
    using f by (simp add: split_path_free seg_ok_def)
  have na: "\<not> is_abs (output_filename (js ''/../../'' @ b))"
    by (simp add: is_abs_def output_filename_def doc_title_def slash_def)
  have r: "resolve_segs cwd out (output_filename (js ''/../../'' @ b)) = butlast ?D @ [?f]"
    using t(1) f unfolding resolve_segs_rel [OF na] sp
    by (simp add: norm_segs_one seg_ok_def js_def rev_drop_one_rev [symmetric])
  have ok: "\<forall>x\<in>set (butlast ?D @ [?f]). seg_ok x"
    using resolve_segs_ok [of cwd out "[]"] f by (auto dest: in_set_butlastD)
  show ?thesis using r dirname_join_abs [OF ok] by (simp add: path_resolve_def)
qed

theorem output_path_escapes_witness:
  "path_resolve (js ''/srv'') (js ''out'') (output_filename (js ''/../../'' @ js ''x'')) =
     join_abs (butlast (resolve_segs (js ''/srv'') (js ''out'') []) @ [js ''x'' @ js ''.docx'']) \<and>
   path_dirname (path_resolve (js ''/srv'') (js ''out'') (output_filename (js ''/../../'' @ js ''x''))) =
     join_abs (butlast (resolve_segs (js ''/srv'') (js ''out'') []))"
proof -
  have b: "slash \<notin> set (js ''x'')" by (simp add: slash_def js_def)
  have d: "resolve_segs (js ''/srv'') (js ''out'') [] \<noteq> []" by code_simp
  from output_path_escapes [OF b d] show ?thesis .
qed

subsection \<open>The effects of \<open>createDocument\<close>\<close>

text \<open>
  \<open>write_output\<close> either fails without writing, or writes once, last, to the resolved
  path, after its directory was found or created.
\<close>

lemma write_output_trace:
  assumes "write_output e out u doc n = (evs, r)"
    and "p = path_resolve (e_cwd e) out (output_filename u)"
  shows "(isl r \<and> (\<forall>x\<in>set evs. \<not> is_write x)) \<or>
         (r = Inr (output_filename u, p, n) \<and>
          evs = (if path_dirname p \<in> set (e_dirs e) then [] else [EMkdir (path_dirname p)]) @ [EWrite p doc] \<and>
          (path_dirname p \<in> set (e_dirs e) \<or> e_mkdir_ok e) \<and> e_pack_ok e \<and> e_write_ok e)"
  using assms by (auto simp: write_output_def Let_def split: if_splits)

lemma create_document_trace:
  assumes "create_document e u opts = (evs, r)"
  shows "(isl r \<and> (\<forall>x\<in>set evs. \<not> is_write x)) \<or>
         (\<exists>ws items rows logo pre.
            load_template (e_catalog e) (opt_template opts) = (ws, Inr items) \<and>
            table_rows items = Inr rows \<and> read_logo (e_logo e) = Inr logo \<and>
            r = Inr (output_filename u, path_resolve (e_cwd e) (opt_output opts) (output_filename u),
                     items_length items) \<and>
            evs = map EWarn ws @ pre @
                  [EWrite (path_resolve (e_cwd e) (opt_output opts) (output_filename u))
                     (build_document logo (opt_product opts) (opt_version opts) (opt_date opts) u rows)] \<and>
            pre = (if path_dirname (path_resolve (e_cwd e) (opt_output opts) (output_filename u)) \<in> set (e_dirs e)
                   then [] else [EMkdir (path_dirname (path_resolve (e_cwd e) (opt_output opts) (output_filename u)))]) \<and>
            (path_dirname (path_resolve (e_cwd e) (opt_output opts) (output_filename u)) \<in> set (e_dirs e) \<or> e_mkdir_ok e) \<and>
            e_pack_ok e \<and> e_write_ok e)"
proof (cases "load_template (e_catalog e) (opt_template opts)")
  case (Pair ws r0)
  show ?thesis
  proof (cases r0)
    case (Inl err)
    with Pair assms show ?thesis by (auto simp: create_document_def)
  next
    case (Inr items)
    show ?thesis
    proof (cases "table_rows items")
      case (Inl err)
      with Pair Inr assms show ?thesis by (auto simp: create_document_def)
    next
      case rows: (Inr rows)
      show ?thesis
      proof (cases "read_logo (e_logo e)")
        case (Inl err)
        with Pair Inr rows assms show ?thesis by (auto simp: create_document_def)
      next
        case logo: (Inr logo)
        let ?doc = "build_document logo (opt_product opts) (opt_version opts) (opt_date opts) u rows"
        obtain evs2 r2 where w: "write_output e (opt_output opts) u ?doc (items_length items) = (evs2, r2)"
          by (cases "write_output e (opt_output opts) u ?doc (items_length items)")
        have evs: "evs = map EWarn ws @ evs2" and r: "r = r2"
          using assms Pair Inr rows logo w by (simp_all add: create_document_def)
        from write_output_trace [OF w refl] show ?thesis
        proof
          assume "isl r2 \<and> (\<forall>x\<in>set evs2. \<not> is_write x)"
          then show ?thesis using evs r by auto
        next
          assume "r2 = Inr (output_filename u, path_resolve (e_cwd e) (opt_output opts) (output_filename u), items_length items) \<and>
            evs2 = (if path_dirname (path_resolve (e_cwd e) (opt_output opts) (output_filename u)) \<in> set (e_dirs e) then []
                    else [EMkdir (path_dirname (path_resolve (e_cwd e) (opt_output opts) (output_filename u)))]) @
                   [EWrite (path_resolve (e_cwd e) (opt_output opts) (output_filename u)) ?doc] \<and>
            (path_dirname (path_resolve (e_cwd e) (opt_output opts) (output_filename u)) \<in> set (e_dirs e) \<or> e_mkdir_ok e) \<and>
            e_pack_ok e \<and> e_write_ok e"
          then show ?thesis using evs r Pair Inr rows logo by blast
        qed
      qed
    qed
  qed
qed

lemma no_write_iff: "(\<forall>x\<in>set evs. \<not> is_write x) \<longleftrightarrow> (\<forall>p doc. EWrite p doc \<notin> set evs)"
  by (metis is_write.elims(2) is_write.simps(1))

lemma filter_is_write_map_EWarn [simp]: "filter is_write (map EWarn ws) = []"
  by (induction ws) auto

lemma item_rows_exist: "JNull \<notin> set xs \<Longrightarrow> \<exists>rs. table_rows (JV (JArr xs)) = Inr (header_row # rs)"
  using item_rows_ok [of 0 xs] by (auto simp: table_rows_def)

lemma read_logo_ok: "l \<noteq> UnreadableLogo \<Longrightarrow> \<exists>logo. read_logo l = Inr logo"
  by (cases l) (auto simp: read_logo_def)

text \<open>
  C18. When the template resolves to an array without \<open>null\<close> entries, the logo is
  absent or readable, the output directory exists or can be created, and encoding and
  writing succeed, \<open>createDocument\<close> returns the file name, the resolved path and the
  number of entries; its trace starts with the template warnings and writes exactly once.
\<close>

theorem create_document_success:
  assumes lt: "load_template (e_catalog e) (opt_template opts) = (ws, Inr (JV (JArr xs)))"
    and nn: "JNull \<notin> set xs" and lg: "e_logo e \<noteq> UnreadableLogo"
    and dir: "path_dirname (path_resolve (e_cwd e) (opt_output opts) (output_filename u)) \<in> set (e_dirs e) \<or> e_mkdir_ok e"
    and pk: "e_pack_ok e" and wr: "e_write_ok e"
  shows "snd (create_document e u opts) =
           Inr (output_filename u, path_resolve (e_cwd e) (opt_output opts) (output_filename u), length xs) \<and>
         length (filter is_write (fst (create_document e u opts))) = 1 \<and>
         take (length ws) (fst (create_document e u opts)) = map EWarn ws"
proof -
  obtain rs where tr: "table_rows (JV (JArr xs)) = Inr (header_row # rs)"
    using item_rows_exist [OF nn] by blast
  obtain logo where lo: "read_logo (e_logo e) = Inr logo"
    using read_logo_ok [OF lg] by blast
  show ?thesis
    using dir by (simp add: create_document_def lt tr lo write_output_def Let_def items_length_def pk wr)
qed

lemma load_template_a:
  "load_template (CatalogText catalog_a) (js ''default'') =
     ([], Inr (JV (JArr [entry (js ''A'') (js ''B''), entry (js ''C'') (js ''D'')])))"
  unfolding load_template_eval catalog_a_def by code_simp

lemma env_a_dir:
  "path_dirname (js ''/home/t/'' @ output_filename user_d) = js ''/home/t''"
  unfolding user_d_def output_filename_def doc_title_def by code_simp

lemma env_a_path:
  "path_resolve (js ''/home/t'') (js ''.'') (output_filename user_d) = js ''/home/t/'' @ output_filename user_d"
  unfolding user_d_def output_filename_def doc_title_def by code_simp

lemma opts_d_fields:
  "opt_template opts_d = js ''default'' \<and> opt_output opts_d = js ''.'' \<and> opt_user opts_d = Some user_d"
  by (simp add: opts_d_def default_options_def)

theorem create_document_success_witness:
  "snd (create_document env_a user_d opts_d) =
     Inr (output_filename user_d, js ''/home/t/'' @ output_filename user_d, 2)"
proof -
  have lt: "load_template (e_catalog env_a) (opt_template opts_d) =
     ([], Inr (JV (JArr [entry (js ''A'') (js ''B''), entry (js ''C'') (js ''D'')])))"
    using load_template_a by (simp add: env_a_def opts_d_fields)
  have nn: "JNull \<notin> set [entry (js ''A'') (js ''B''), entry (js ''C'') (js ''D'')]"
    by (simp add: entry_def)
  have lg: "e_logo env_a \<noteq> UnreadableLogo" by (simp add: env_a_def)
  have dir: "path_dirname (path_resolve (e_cwd env_a) (opt_output opts_d) (output_filename user_d)) \<in> set (e_dirs env_a)
             \<or> e_mkdir_ok env_a"
    by (simp add: env_a_def opts_d_fields env_a_path env_a_dir)
  have pk: "e_pack_ok env_a" and wr: "e_write_ok env_a" by (simp_all add: env_a_def)
  from create_document_success [OF lt nn lg dir pk wr] show ?thesis
    by (simp add: env_a_def opts_d_fields env_a_path)
qed

text \<open>
  C19. Write safety of \<open>createDocument\<close> in every environment: a failed run writes
  nothing; a successful one writes exactly once, as its last effect, into a directory
  that existed or was created before.
\<close>

theorem create_document_write_safety:
  assumes "create_document e u opts = (evs, r)"
  shows "(isl r \<longrightarrow> filter is_write evs = []) \<and>
         (\<not> isl r \<longrightarrow> (\<exists>p doc. filter is_write evs = [EWrite p doc] \<and> last evs = EWrite p doc \<and>
                           (path_dirname p \<in> set (e_dirs e) \<or> EMkdir (path_dirname p) \<in> set evs)))"
  using create_document_trace [OF assms]
proof
  assume "isl r \<and> (\<forall>x\<in>set evs. \<not> is_write x)"
  then show ?thesis by (simp add: filter_empty_conv)
next
  assume "\<exists>ws items rows logo pre.
            load_template (e_catalog e) (opt_template opts) = (ws, Inr items) \<and>
            table_rows items = Inr rows \<and> read_logo (e_logo e) = Inr logo \<and>
            r = Inr (output_filename u, path_resolve (e_cwd e) (opt_output opts) (output_filename u),
                     items_length items) \<and>
            evs = map EWarn ws @ pre @
                  [EWrite (path_resolve (e_cwd e) (opt_output opts) (output_filename u))
                     (build_document logo (opt_product opts) (opt_version opts) (opt_date opts) u rows)] \<and>
            pre = (if path_dirname (path_resolve (e_cwd e) (opt_output opts) (output_filename u)) \<in> set (e_dirs e)
                   then [] else [EMkdir (path_dirname (path_resolve (e_cwd e) (opt_output opts) (output_filename u)))]) \<and>
            (path_dirname (path_resolve (e_cwd e) (opt_output opts) (output_filename u)) \<in> set (e_dirs e) \<or> e_mkdir_ok e) \<and>
            e_pack_ok e \<and> e_write_ok e"
  then show ?thesis by auto
qed

lemma create_document_unreadable:
  "create_document env_unreadable user_d opts_d = ([], Inl (Thrown IOError))"
  by (simp add: create_document_def env_unreadable_def env_a_def load_template_def)

theorem create_document_write_safety_witness:
  "filter is_write (fst (create_document env_unreadable user_d opts_d)) = []"
  using create_document_write_safety [OF surjective_pairing] create_document_unreadable
  by simp

subsection \<open>\<open>main\<close>\<close>

lemma create_document_write_iff:
  "create_document e u opts = (evs, r) \<Longrightarrow> isl r \<longleftrightarrow> (\<forall>p doc. EWrite p doc \<notin> set evs)"
  unfolding no_write_iff [symmetric] by (drule create_document_trace) auto

text \<open>
  C20. \<open>main\<close> exits with code 0 or 1, and with 0 exactly when the document file was
  written.
\<close>

theorem main_exit_code:
  "snd (main now_iso args e) \<in> {0, 1} \<and>
   (snd (main now_iso args e) = 0 \<longleftrightarrow> (\<exists>p doc. EWrite p doc \<in> set (fst (main now_iso args e))))"
proof (cases "parse_args now_iso args")
  case (Inl a)
  then show ?thesis by (cases a) (simp add: main_def)
next
  case (Inr opts)
  show ?thesis
  proof (cases "opt_user opts")
    case None
    with Inr show ?thesis by (simp add: main_def)
  next
    case (Some u)
    obtain evs r where cd: "create_document e u opts = (evs, r)"
      by (cases "create_document e u opts")
    note w = create_document_write_iff [OF cd]
    show ?thesis
    proof (cases r)
      case (Inl f)
      with w Inr Some cd show ?thesis by (simp add: main_def)
    next
      case (Inr res)
      obtain fname p n where "res = (fname, p, n)" by (cases res)
      with w Inr Some cd \<open>r = Inr res\<close> \<open>parse_args now_iso args = Inr opts\<close> show ?thesis
        by (simp add: main_def)
    qed
  qed
qed

lemma user_d_nonempty: "user_d \<noteq> []"
  by (simp add: user_d_def)

lemma parse_args_d: "parse_args now_d [js ''--user'', user_d] = Inr opts_d"
  by (simp add: parse_args_def strip_dashes_user set_opt_user [OF user_d_nonempty] opts_d_def
      default_options_def)

lemma create_document_env_a:
  "\<exists>evs. create_document env_a user_d opts_d =
     (evs, Inr (output_filename user_d, js ''/home/t/'' @ output_filename user_d, 2))"
proof -
  obtain rs where tr: "table_rows (JV (JArr [entry (js ''A'') (js ''B''), entry (js ''C'') (js ''D'')])) =
                        Inr (header_row # rs)"
    using item_rows_exist [of "[entry (js ''A'') (js ''B''), entry (js ''C'') (js ''D'')]"]
    by (auto simp: entry_def)
  show ?thesis
    by (simp add: create_document_def env_a_def opts_d_fields load_template_a tr read_logo_def
        write_output_def Let_def env_a_dir env_a_path items_length_def)
qed

text \<open>
  Example run, Scenarios A and D together: \<^verbatim>\<open>--user\<close> with the name
  \<open>U+5F20 U+4E09\<close>, the catalog of Scenario A, the working directory
  \<^verbatim>\<open>/home/t\<close>: the run exits with 0 and reports the file
  \<^verbatim>\<open>/home/t/\<close> followed by the Scenario D name, with two checklist entries.
\<close>

theorem main_scenario_a:
  "snd (main now_d [js ''--user'', user_d] env_a) = 0 \<and>
   last (fst (main now_d [js ''--user'', user_d] env_a)) =
     ESuccess (output_filename user_d) (js ''/home/t/'' @ output_filename user_d) 2"
proof -
  obtain evs where cd: "create_document env_a user_d opts_d =
     (evs, Inr (output_filename user_d, js ''/home/t/'' @ output_filename user_d, 2))"
    using create_document_env_a by blast
  show ?thesis by (simp add: main_def parse_args_d opts_d_fields cd)
qed

lemma table_rows_not_array: "(\<forall>xs. v \<noteq> JV (JArr xs)) \<Longrightarrow> table_rows v = Inl TypeError"
  by (auto simp: table_rows_def split: jsv.splits jval.splits)

text \<open>
  C21. The resolved \<open>items\<close> is used without checking that it is a list: whenever the
  template resolves to a value that is not an array, \<open>testItems.forEach\<close> throws a
  \<open>TypeError\<close> and the run fails with exit code 1, after the options and the loader's
  warnings were printed and before anything is written.
\<close>

theorem main_items_not_array:
  assumes "parse_args now args = Inr opts" and "opt_user opts = Some u"
    and "load_template (e_catalog e) (opt_template opts) = (ws, Inr v)"
    and "\<forall>xs. v \<noteq> JV (JArr xs)"
  shows "main now args e = (EStart opts # map EWarn ws @ [EFailed (Thrown TypeError)], 1)"
  using assms by (simp add: main_def create_document_def table_rows_not_array)

theorem main_items_not_array_witness:
  "main now_d [js ''--user'', user_d] env_str =
     ([EStart opts_d, EFailed (Thrown TypeError)], 1)"
proof -
  have lt: "load_template (CatalogText catalog_str_items) (js ''default'') = ([], Inr (JV (JStr (js ''abc''))))"
    unfolding load_template_eval catalog_str_items_def by code_simp
  have "load_template (e_catalog env_str) (opt_template opts_d) = ([], Inr (JV (JStr (js ''abc''))))"
    using lt by (simp add: env_str_def env_a_def opts_d_fields)
  from main_items_not_array [OF parse_args_d _ this] show ?thesis
    by (simp add: opts_d_fields)
qed

text \<open>
  C22. An existing but unreadable catalog is not replaced by the built-in entries: for
  every command line with a user, the read error ends the run with exit code 1 right
  after the options were printed, with nothing written.
\<close>

theorem main_unreadable_catalog:
  assumes "parse_args now args = Inr opts" and "opt_user opts = Some u"
    and "e_catalog e = UnreadableCatalog"
  shows "main now args e = ([EStart opts, EFailed (Thrown IOError)], 1)"
  using assms by (simp add: main_def create_document_def load_template_def)

theorem main_unreadable_catalog_witness:
  "main now_d [js ''--user'', user_d] env_unreadable = ([EStart opts_d, EFailed (Thrown IOError)], 1)"
  using main_unreadable_catalog [OF parse_args_d, of user_d env_unreadable]
  by (simp add: opts_d_fields env_unreadable_def)

text \<open>
  A template whose \<open>items\<close> is the empty list is used as it is (an empty array is
  truthy): the document is written with a checklist of the header row only and the run
  reports zero entries.
\<close>

theorem create_document_empty_items:
  "snd (create_document env_empty user_d opts_custom) =
     Inr (output_filename user_d, js ''/home/t/'' @ output_filename user_d, 0)"
proof -
  have lt: "load_template (CatalogText catalog_empty_items) (js ''custom'') = ([], Inr (JV (JArr [])))"
    unfolding load_template_eval catalog_empty_items_def by code_simp
  have o: "opt_template opts_custom = js ''custom''" "opt_output opts_custom = js ''.''"
    by (simp_all add: opts_custom_def opts_d_fields)
  show ?thesis
    by (simp add: create_document_def env_empty_def env_a_def o lt table_rows_def read_logo_def
        write_output_def Let_def env_a_dir env_a_path items_length_def)
qed

end
