(* ===== verification/JsonPrint.thy ===== *)
theory JsonPrint
  imports Json
begin

text \<open>
  A JSON printer for the values of \<open>Json\<close>, in the form a catalog author writes a
  block: strings quoted, with the quote and the backslash escaped by a backslash and
  control characters and the backtick written as four-digit \<open>u\<close> escapes (so a
  printed block never contains a Markdown fence); numbers \<open>JNum m e\<close> as the
  digits of \<open>m\<close>, the letter \<open>e\<close> and the digits of \<open>e\<close>; arrays and objects
  without white space. \<open>json_parse\<close> reads every printed value back (\<open>json_parse_print\<close>), so the
  catalog of any entry list can be written and read without loss.
\<close>



definition hex_digit :: "nat \<Rightarrow> cunit" where
  "hex_digit d = (if d < 10 then of_nat (0x30 + d) else of_nat (0x57 + d))"

definition esc_unit :: "cunit \<Rightarrow> jstr" where
  "esc_unit c =
     (if c = 0x22 \<or> c = 0x5C then [0x5C, c]
      else if c < 0x20 \<or> c = 0x60 then
        [0x5C, 0x75, 0x30, 0x30, hex_digit (unat c div 16), hex_digit (unat c mod 16)]
      else [c])"

definition quote :: "jstr \<Rightarrow> jstr" where
  "quote s = 0x22 # concat (map esc_unit s) @ [0x22]"

fun nat_digits :: "nat \<Rightarrow> jstr" where
  "nat_digits n = (if n < 10 then [of_nat (0x30 + n)] else nat_digits (n div 10) @ [of_nat (0x30 + n mod 10)])"

definition int_digits :: "int \<Rightarrow> jstr" where
  "int_digits i = (if i < 0 then 0x2D # nat_digits (nat (- i)) else nat_digits (nat i))"

fun join_with :: "jstr \<Rightarrow> jstr list \<Rightarrow> jstr" where
  "join_with sep [] = []"
| "join_with sep [x] = x"
| "join_with sep (x # y # ys) = x @ sep @ join_with sep (y # ys)"

fun print_json :: "jval \<Rightarrow> jstr" where
  "print_json JNull = js ''null''"
| "print_json (JBool b) = (if b then js ''true'' else js ''false'')"
| "print_json (JNum m e) = int_digits m @ js ''e'' @ int_digits e"
| "print_json (JStr s) = quote s"
| "print_json (JArr xs) = 0x5B # join_with [0x2C] (map print_json xs) @ [0x5D]"
| "print_json (JObj kvs) = 0x7B # join_with [0x2C] (map (\<lambda>(k, v). quote k @ 0x3A # print_json v) kvs) @ [0x7D]"

definition no_digit :: "jstr \<Rightarrow> bool" where
  "no_digit r \<longleftrightarrow> takeWhile is_digit r = []"

definition delim :: "jstr \<Rightarrow> bool" where
  "delim r \<longleftrightarrow> r = [] \<or> hd r \<in> set [0x2C, 0x5D, 0x7D, 0x20, 0x09, 0x0A, 0x0D]"

definition parses_back :: "jval \<Rightarrow> bool" where
  "parses_back x \<longleftrightarrow> (\<forall>r. delim r \<longrightarrow> (\<exists>N. \<forall>n\<ge>N. pvalue n (print_json x @ r) = Some (x, r)))"

definition print_member :: "jstr \<times> jval \<Rightarrow> jstr" where
  "print_member kv = quote (fst kv) @ 0x3A # print_json (snd kv)"

subsection \<open>Printed strings and numbers lex back\<close>

lemma unat_small: "n < 65536 \<Longrightarrow> unat (of_nat n :: cunit) = n"
  by (simp only: unat_of_nat) simp

lemma hex_val_hex_digit: "d < 16 \<Longrightarrow> hex_val (hex_digit d) = Some d"

proof -
  assume "d < 16"
  then consider "d < 10" | "10 \<le> d" "d < 16" by linarith
  then show ?thesis
  proof cases
    case 1
    then have h: "hex_digit d = of_nat (48 + d)" by (simp only: hex_digit_def if_P)
    have u: "unat (hex_digit d) = 48 + d" unfolding h by (rule unat_small) (use 1 in simp)
    have "0x30 \<le> hex_digit d \<and> hex_digit d \<le> 0x39"
      using 1 by (simp add: word_le_nat_alt u)
    then show ?thesis by (simp add: hex_val_def u)
  next
    case 2
    then have h: "hex_digit d = of_nat (87 + d)" by (simp only: hex_digit_def if_not_P not_less)
    have u: "unat (hex_digit d) = 87 + d" unfolding h by (rule unat_small) (use 2 in simp)
    have "\<not> hex_digit d \<le> 0x39" "0x61 \<le> hex_digit d \<and> hex_digit d \<le> 0x66"
      using 2 by (simp_all add: word_le_nat_alt u)
    then show ?thesis by (simp add: hex_val_def u)
  qed

qed

lemma hex4_escape:
  assumes "unat c < 256"
  shows "hex4 0x30 0x30 (hex_digit (unat c div 16)) (hex_digit (unat c mod 16)) = Some c"

proof -
  have z: "hex_val 0x30 = Some 0" by (simp add: hex_val_def)
  have a: "hex_val (hex_digit (unat c div 16)) = Some (unat c div 16)"
    using assms by (intro hex_val_hex_digit) simp
  have b: "hex_val (hex_digit (unat c mod 16)) = Some (unat c mod 16)"
    by (intro hex_val_hex_digit) simp
  have "((0 * 16 + 0) * 16 + unat c div 16) * 16 + unat c mod 16 = unat c" by simp
  then show ?thesis by (simp add: hex4_def z a b)

qed

lemma esc_unit_cases:
  "esc_unit c = [0x5C, c] \<and> (c = 0x22 \<or> c = 0x5C) \<or>
   esc_unit c = [0x5C, 0x75, 0x30, 0x30, hex_digit (unat c div 16), hex_digit (unat c mod 16)] \<and>
     unat c < 256 \<and> c \<noteq> 0x22 \<and> c \<noteq> 0x5C \<or>
   esc_unit c = [c] \<and> c \<noteq> 0x22 \<and> c \<noteq> 0x5C \<and> \<not> c < 0x20"

proof -
  have "c < 0x20 \<or> c = 0x60 \<Longrightarrow> unat c < 256"
    by (auto simp: word_less_nat_alt)
  then show ?thesis by (auto simp: esc_unit_def)

qed

lemma lex_string_quote:
  "lex_string acc (concat (map esc_unit s) @ 0x22 # rest) = Some (rev acc @ s, rest)"

proof (induction s arbitrary: acc)
  case Nil
  then show ?case by simp

next
  case (Cons c cs)
  from esc_unit_cases [of c] show ?case
    by (elim disjE conjE) (simp_all add: Cons.IH hex4_escape)

qed

lemma digit_unit: "k < 10 \<Longrightarrow> is_digit (of_nat (48 + k)) \<and> unat (of_nat (48 + k) :: cunit) - 48 = k"

proof -
  assume k: "k < 10"
  then have u: "unat (of_nat (48 + k) :: cunit) = 48 + k" by (intro unat_small) simp
  with k show ?thesis by (simp add: is_digit_def word_le_nat_alt)

qed

lemma nat_digits_simps:
  "n < 10 \<Longrightarrow> nat_digits n = [of_nat (48 + n)]"
  "\<not> n < 10 \<Longrightarrow> nat_digits n = nat_digits (n div 10) @ [of_nat (48 + n mod 10)]"
  by simp_all

declare nat_digits.simps [simp del]

lemma nat_digits_digits: "c \<in> set (nat_digits n) \<Longrightarrow> is_digit c"

proof (induction n rule: nat_digits.induct)
  case (1 n)
  show ?case
  proof (cases "n < 10")
    case True
    with 1(2) show ?thesis using digit_unit [of n] by (simp add: nat_digits_simps)
  next
    case False
    with 1 show ?thesis using digit_unit [of "n mod 10"] by (auto simp: nat_digits_simps)
  qed

qed

lemma digits_nat_snoc: "digits_nat (xs @ [d]) = 10 * digits_nat xs + (unat d - 48)"
  by (simp add: digits_nat_def)

lemma digits_nat_nat_digits: "digits_nat (nat_digits n) = n"

proof (induction n rule: nat_digits.induct)
  case (1 n)
  show ?case
  proof (cases "n < 10")
    case True
    then show ?thesis using digit_unit [of n] by (simp add: nat_digits_simps digits_nat_def)
  next
    case False
    then show ?thesis using 1 digit_unit [of "n mod 10"] by (simp add: nat_digits_simps digits_nat_snoc)
  qed

qed

lemma nat_digits_Cons: "\<exists>d ds. nat_digits n = d # ds \<and> (d = 0x30 \<longrightarrow> n = 0 \<and> ds = [])"

proof (induction n rule: nat_digits.induct)
  case (1 n)
  show ?case
  proof (cases "n < 10")
    case True
    have "n = 0" if h: "of_nat (48 + n) = (0x30 :: cunit)"
    proof -
      have "unat (of_nat (48 + n) :: cunit) = unat (0x30 :: cunit)" by (rule arg_cong [OF h])
      with True show ?thesis by (simp only: unat_small) simp
    qed
    with True show ?thesis by (simp add: nat_digits_simps)
  next
    case False
    then have "n div 10 \<noteq> 0" by simp
    with 1 False show ?thesis by (auto simp: nat_digits_simps [of n])
  qed

qed

lemma digits_split:
  "no_digit rest \<Longrightarrow> takeWhile is_digit (nat_digits n @ rest) = nat_digits n \<and>
                        dropWhile is_digit (nat_digits n @ rest) = rest"

proof -
  assume "no_digit rest"
  then have "dropWhile is_digit rest = rest"
    by (cases rest) (auto simp: no_digit_def split: if_splits)
  with \<open>no_digit rest\<close> show ?thesis
    by (simp add: no_digit_def nat_digits_digits takeWhile_append2 dropWhile_append2)

qed

lemma lex_int_digits: "no_digit rest \<Longrightarrow> lex_int (nat_digits n @ rest) = Some (nat_digits n, rest)"

proof -
  assume nd: "no_digit rest"
  obtain d ds where n: "nat_digits n = d # ds" and z: "d = 0x30 \<longrightarrow> n = 0 \<and> ds = []"
    using nat_digits_Cons [of n] by blast
  have dg: "is_digit d" using nat_digits_digits [of d n] n by simp
  from digits_split [OF nd, of n] n
  have "takeWhile is_digit (ds @ rest) = ds" "dropWhile is_digit (ds @ rest) = rest"
    using dg by simp_all
  with n z dg show ?thesis by (auto simp: lex_int_def)

qed

lemma is_digit_e: "\<not> is_digit 0x65" "\<not> is_digit 0x2D"
  by (simp_all add: is_digit_def)

lemma no_digit_e: "no_digit (0x65 # r)"
  by (simp add: no_digit_def is_digit_e)

lemma lex_exp_digits: "no_digit rest \<Longrightarrow> lex_exp (0x65 # int_digits e @ rest) = Some (e, rest)"

proof -
  assume nd: "no_digit rest"
  obtain d ds where n: "nat_digits (nat \<bar>e\<bar>) = d # ds" using nat_digits_Cons by blast
  have dg: "is_digit d" using nat_digits_digits [of d "nat \<bar>e\<bar>"] n by simp
  then have "d \<noteq> 0x2B" "d \<noteq> 0x2D" by (auto simp: is_digit_def)
  with digits_split [OF nd, of "nat \<bar>e\<bar>"] n dg digits_nat_nat_digits [of "nat \<bar>e\<bar>"]
  show ?thesis
    by (auto simp: lex_exp_def int_digits_def)

qed

lemma lex_number_digits:
  assumes nd: "no_digit rest"
  shows "lex_number (int_digits m @ 0x65 # int_digits e @ rest) = Some (JNum m e, rest)"

proof -
  let ?t = "0x65 # int_digits e @ rest"
  have i: "lex_int (nat_digits (nat \<bar>m\<bar>) @ ?t) = Some (nat_digits (nat \<bar>m\<bar>), ?t)"
    by (rule lex_int_digits [OF no_digit_e])
  have f: "lex_frac ?t = Some ([], ?t)" by (simp add: lex_frac_def)
  have x: "lex_exp ?t = Some (e, rest)" by (rule lex_exp_digits [OF nd])
  have v: "digits_nat (nat_digits (nat \<bar>m\<bar>)) = nat \<bar>m\<bar>" by (rule digits_nat_nat_digits)
  obtain d ds where n: "nat_digits (nat \<bar>m\<bar>) = d # ds" using nat_digits_Cons by blast
  have "is_digit d" using nat_digits_digits [of d "nat \<bar>m\<bar>"] n by simp
  then have d: "d \<noteq> 0x2D" by (auto simp: is_digit_def)
  show ?thesis
  proof (cases "m < 0")
    case True
    then have "int_digits m @ ?t = 0x2D # nat_digits (nat \<bar>m\<bar>) @ ?t" by (simp add: int_digits_def)
    with True i f x v show ?thesis by (simp add: lex_number_def)
  next
    case False
    then have "int_digits m @ ?t = nat_digits (nat \<bar>m\<bar>) @ ?t" by (simp add: int_digits_def)
    with False i f x v n d show ?thesis by (simp add: lex_number_def)
  qed

qed

subsection \<open>Printed values parse back\<close>

lemma delim_no_digit: "delim r \<Longrightarrow> no_digit r"
  by (cases r) (auto simp: delim_def no_digit_def is_digit_def)

lemma delim_ws: "\<forall>c\<in>set ws. is_ws c \<Longrightarrow> delim ws"
  by (cases ws) (auto simp: delim_def is_ws_def)

lemma delim_Cons [simp]: "delim (0x2C # r)" "delim (0x5D # r)" "delim (0x7D # r)"
  by (simp_all add: delim_def)

lemma print_json_Cons:
  "\<exists>c cs. print_json v = c # cs \<and> \<not> is_ws c \<and> c \<noteq> 0x5D \<and> c \<noteq> 0x7D"

proof (cases v)
  case (JNum m e)
  obtain d ds where n: "nat_digits (nat \<bar>m\<bar>) = d # ds" using nat_digits_Cons by blast
  have "is_digit d" using nat_digits_digits [of d "nat \<bar>m\<bar>"] n by simp
  then have "\<not> is_ws d \<and> d \<noteq> 0x5D \<and> d \<noteq> 0x7D" by (auto simp: is_digit_def is_ws_def)
  with JNum n show ?thesis by (auto simp: int_digits_def is_ws_def)

qed (auto simp: js_def quote_def is_ws_def)

lemma skip_ws_print: "skip_ws (print_json v @ r) = print_json v @ r"
  using print_json_Cons [of v] by (auto simp: skip_ws_def)

lemma join_with_Cons: "xs \<noteq> [] \<Longrightarrow> join_with sep (x # xs) = x @ sep @ join_with sep xs"
  by (cases xs) simp_all

lemma parr_print:
  assumes "\<forall>x\<in>set xs. parses_back x" and "xs \<noteq> []"
  shows "\<exists>N. \<forall>n\<ge>N. parr n acc (join_with [0x2C] (map print_json xs) @ 0x5D # rest) = Some (JArr (acc @ xs), rest)"
  using assms

proof (induction xs arbitrary: acc)
  case Nil
  then show ?case by simp

next
  case (Cons x xs)
  then have px: "parses_back x" by simp
  show ?case
  proof (cases "xs = []")
    case True
    from px obtain N where N: "\<forall>n\<ge>N. pvalue n (print_json x @ 0x5D # rest) = Some (x, 0x5D # rest)"
      unfolding parses_back_def by (meson delim_Cons(2))
    have "parr n acc (print_json x @ 0x5D # rest) = Some (JArr (acc @ [x]), rest)" if "Suc N \<le> n" for n
    proof -
      obtain k where k: "n = Suc k" "N \<le> k" using \<open>Suc N \<le> n\<close> by (cases n) auto
      with N show ?thesis by (simp add: skip_ws_def is_ws_def)
    qed
    with True show ?thesis by auto
  next
    case False
    let ?t = "join_with [0x2C] (map print_json xs) @ 0x5D # rest"
    from Cons.IH [of "acc @ [x]"] Cons.prems False obtain M
      where M: "\<forall>n\<ge>M. parr n (acc @ [x]) ?t = Some (JArr (acc @ [x] @ xs), rest)" by auto
    from px obtain N where N: "\<forall>n\<ge>N. pvalue n (print_json x @ 0x2C # ?t) = Some (x, 0x2C # ?t)"
      unfolding parses_back_def by (meson delim_Cons(1))
    have "parr n acc (print_json x @ 0x2C # ?t) = Some (JArr (acc @ x # xs), rest)" if "Suc (max M N) \<le> n" for n
    proof -
      from that obtain k where k: "n = Suc k" "M \<le> k" "N \<le> k"
        by (metis Suc_le_D max.bounded_iff not_less_eq_eq)
      with N M show ?thesis by (simp add: skip_ws_def is_ws_def)
    qed
    with False show ?thesis by (auto simp: join_with_Cons)
  qed

qed

lemma print_json_JObj: "print_json (JObj kvs) = 0x7B # join_with [0x2C] (map print_member kvs) @ [0x7D]"

proof -
  have "(\<lambda>(k, v). quote k @ 0x3A # print_json v) = print_member"
    by (auto simp: print_member_def)
  then show ?thesis by simp

qed

lemma pobj_print:
  assumes "\<forall>kv\<in>set kvs. parses_back (snd kv)" and "kvs \<noteq> []"
  shows "\<exists>N. \<forall>n\<ge>N. pobj n acc (join_with [0x2C] (map print_member kvs) @ 0x7D # rest) =
                      Some (JObj (acc @ kvs), rest)"
  using assms

proof (induction kvs arbitrary: acc)
  case Nil
  then show ?case by simp

next
  case (Cons kv kvs)
  obtain k v where kv: "kv = (k, v)" by (cases kv)
  with Cons.prems have pv: "parses_back v" by simp
  have step: "pobj (Suc j) acc (print_member (k, v) @ sep # t) =
                (if sep = 0x2C then pobj j (acc @ [(k, v)]) t
                 else if sep = 0x7D then Some (JObj (acc @ [(k, v)]), t) else None)"
    if "pvalue j (print_json v @ sep # t) = Some (v, sep # t)" "\<not> is_ws sep" for j sep t
    using that by (simp add: print_member_def quote_def skip_ws_def is_ws_def lex_string_quote)
  show ?case
  proof (cases "kvs = []")
    case True
    from pv obtain N where N: "\<forall>n\<ge>N. pvalue n (print_json v @ 0x7D # rest) = Some (v, 0x7D # rest)"
      unfolding parses_back_def by (meson delim_Cons(3))
    have "pobj n acc (print_member (k, v) @ 0x7D # rest) = Some (JObj (acc @ [(k, v)]), rest)"
      if "Suc N \<le> n" for n
    proof -
      from that obtain j where j: "n = Suc j" "N \<le> j" by (metis Suc_le_D not_less_eq_eq)
      with N step show ?thesis by (simp add: is_ws_def)
    qed
    with True kv show ?thesis by auto
  next
    case False
    let ?t = "join_with [0x2C] (map print_member kvs) @ 0x7D # rest"
    from Cons.IH [of "acc @ [(k, v)]"] Cons.prems False obtain M
      where M: "\<forall>n\<ge>M. pobj n (acc @ [(k, v)]) ?t = Some (JObj (acc @ [(k, v)] @ kvs), rest)" by auto
    from pv obtain N where N: "\<forall>n\<ge>N. pvalue n (print_json v @ 0x2C # ?t) = Some (v, 0x2C # ?t)"
      unfolding parses_back_def by (meson delim_Cons(1))
    have "pobj n acc (print_member (k, v) @ 0x2C # ?t) = Some (JObj (acc @ (k, v) # kvs), rest)"
      if "Suc (max M N) \<le> n" for n
    proof -
      from that obtain j where j: "n = Suc j" "M \<le> j" "N \<le> j"
        by (metis Suc_le_D max.bounded_iff not_less_eq_eq)
      with N M step show ?thesis by (simp add: is_ws_def)
    qed
    with False kv show ?thesis by (auto simp: join_with_Cons)
  qed

qed

lemma parses_backI:
  assumes "\<And>r. delim r \<Longrightarrow> \<exists>N. \<forall>k\<ge>N. pvalue (Suc k) (print_json x @ r) = Some (x, r)"
  shows "parses_back x"
  unfolding parses_back_def

proof (intro allI impI)
  fix r assume "delim r"
  with assms obtain N where N: "\<forall>k\<ge>N. pvalue (Suc k) (print_json x @ r) = Some (x, r)" by blast
  have "pvalue n (print_json x @ r) = Some (x, r)" if "Suc N \<le> n" for n
  proof -
    from that obtain k where "n = Suc k" "N \<le> k" by (metis Suc_le_D not_less_eq_eq)
    with N show ?thesis by simp
  qed
  then show "\<exists>N. \<forall>n\<ge>N. pvalue n (print_json x @ r) = Some (x, r)" by blast

qed

lemma int_digits_Cons: "\<exists>c cs. int_digits m = c # cs \<and> (c = 0x2D \<or> is_digit c)"

proof -
  obtain d ds where n: "nat_digits (nat \<bar>m\<bar>) = d # ds" using nat_digits_Cons by blast
  have "is_digit d" using nat_digits_digits [of d "nat \<bar>m\<bar>"] n by simp
  with n show ?thesis by (auto simp: int_digits_def)

qed

lemma pb_null: "parses_back JNull"
  by (rule parses_backI) (simp add: js_def skip_ws_def is_ws_def)

lemma pb_bool: "parses_back (JBool b)"
  by (rule parses_backI) (cases b; simp add: js_def skip_ws_def is_ws_def)

lemma pb_str: "parses_back (JStr s)"
  by (rule parses_backI) (simp add: quote_def skip_ws_def is_ws_def lex_string_quote)

lemma pb_num: "parses_back (JNum m e)"

proof (rule parses_backI)
  fix r assume "delim r"
  then have l: "lex_number (int_digits m @ 0x65 # int_digits e @ r) = Some (JNum m e, r)"
    by (intro lex_number_digits delim_no_digit)
  obtain c cs where c: "int_digits m = c # cs" and d: "c = 0x2D \<or> is_digit c"
    using int_digits_Cons by blast
  from d have "c \<noteq> 0x7B \<and> c \<noteq> 0x5B \<and> c \<noteq> 0x22 \<and> c \<noteq> 0x74 \<and> c \<noteq> 0x66 \<and> c \<noteq> 0x6E \<and> \<not> is_ws c"
    by (auto simp: is_digit_def is_ws_def)
  with l c d show "\<exists>N. \<forall>k\<ge>N. pvalue (Suc k) (print_json (JNum m e) @ r) = Some (JNum m e, r)"
    by (simp add: skip_ws_def js_def)

qed

lemma join_with_prefix: "\<exists>t. join_with sep (x # xs) = x @ t"
  by (cases xs) auto

lemma pb_arr:
  assumes pb: "\<forall>x\<in>set xs. parses_back x"
  shows "parses_back (JArr xs)"

proof (rule parses_backI)
  fix r assume "delim r"
  show "\<exists>N. \<forall>k\<ge>N. pvalue (Suc k) (print_json (JArr xs) @ r) = Some (JArr xs, r)"
  proof (cases xs)
    case Nil
    then show ?thesis by (simp add: skip_ws_def is_ws_def)
  next
    case (Cons x ys)
    from parr_print [OF pb, of "[]" r] Cons obtain N
      where N: "\<forall>n\<ge>N. parr n [] (join_with [0x2C] (map print_json xs) @ 0x5D # r) = Some (JArr xs, r)"
      by auto
    obtain c cs where c: "print_json x = c # cs" "\<not> is_ws c" "c \<noteq> 0x5D"
      using print_json_Cons [of x] by blast
    obtain t where t: "join_with [0x2C] (map print_json xs) = c # cs @ t"
      using join_with_prefix [of "[0x2C]" "print_json x" "map print_json ys"] Cons c(1) by auto
    have "pvalue (Suc k) (print_json (JArr xs) @ r) = Some (JArr xs, r)" if "N \<le> k" for k
    proof -
      have "pvalue (Suc k) (print_json (JArr xs) @ r) = parr k [] (join_with [0x2C] (map print_json xs) @ 0x5D # r)"
        using c t by (simp add: skip_ws_def is_ws_def)
      with N that show ?thesis by simp
    qed
    then show ?thesis by blast
  qed

qed

lemma pb_obj:
  assumes pb: "\<forall>kv\<in>set kvs. parses_back (snd kv)"
  shows "parses_back (JObj kvs)"

proof (rule parses_backI)
  fix r assume "delim r"
  show "\<exists>N. \<forall>k\<ge>N. pvalue (Suc k) (print_json (JObj kvs) @ r) = Some (JObj kvs, r)"
  proof (cases kvs)
    case Nil
    then show ?thesis by (simp add: skip_ws_def is_ws_def)
  next
    case (Cons kv ys)
    from pobj_print [OF pb, of "[]" r] Cons obtain N
      where N: "\<forall>n\<ge>N. pobj n [] (join_with [0x2C] (map print_member kvs) @ 0x7D # r) = Some (JObj kvs, r)"
      by auto
    obtain t where t: "join_with [0x2C] (map print_member kvs) = 0x22 # t"
      using join_with_prefix [of "[0x2C]" "print_member kv" "map print_member ys"] Cons
      by (auto simp: print_member_def quote_def)
    have "pvalue (Suc k) (print_json (JObj kvs) @ r) = Some (JObj kvs, r)" if "N \<le> k" for k
    proof -
      have "pvalue (Suc k) (print_json (JObj kvs) @ r) = pobj k [] (join_with [0x2C] (map print_member kvs) @ 0x7D # r)"
        unfolding print_json_JObj using t by (simp add: skip_ws_def is_ws_def)
      with N that show ?thesis by simp
    qed
    then show ?thesis by blast
  qed

qed

theorem parses_back_all: "parses_back v"

proof (induction v rule: print_json.induct)
  case (5 xs)
  then show ?case by (intro pb_arr) blast

next
  case (6 kvs)
  then show ?case by (intro pb_obj) (auto simp: prod.case_eq_if)

qed (simp_all add: pb_null pb_bool pb_num pb_str)


lemma json_parse_print_ws: "\<forall>c\<in>set ws. is_ws c \<Longrightarrow> json_parse (print_json v @ ws) = Inr v"
proof -
  assume ws: "\<forall>c\<in>set ws. is_ws c"
  from parses_back_all [of v] delim_ws [OF ws] obtain N
    where "\<forall>n\<ge>N. pvalue n (print_json v @ ws) = Some (v, ws)"
    unfolding parses_back_def by blast
  then have "pvalue (json_fuel (print_json v @ ws)) (print_json v @ ws) = Some (v, ws)"
    by (blast intro: pvalue_json_fuel)
  moreover from ws have "skip_ws ws = []" by (simp add: skip_ws_def)
  ultimately show ?thesis by (simp add: json_parse_def)
qed

text \<open>
  Round trip: \<open>JSON.parse\<close> reads every printed value back as the value itself.
\<close>

theorem json_parse_print: "json_parse (print_json v) = Inr v"
  using json_parse_print_ws [of "[]" v] by simp

end
