(* ===== verification/Console.thy ===== *)
theory Console
  imports Generator JsonPrint
begin

text \<open>
  The console output of generate.js: the lines \<open>parseArgs\<close> (lines 34--35),
  \<open>loadTemplate\<close> (lines 47, 62, 68) and \<open>main\<close> (lines 436--452) print, as the text of
  each event of the trace of \<open>Generator.main\<close> together with its stream
  (\<open>console.log\<close> writes to standard output, \<open>console.warn\<close> and \<open>console.error\<close> to
  standard error). The text of \<open>error.message\<close> depends on the JavaScript engine; it is
  a parameter \<open>msg\<close> of the model.
\<close>

datatype stream = Stdout | Stderr

subsection \<open>The messages\<close>

definition msg_missing_user :: jstr where
  "msg_missing_user = [0x9519, 0x8BEF] @ js '': '' @ [0x5FC5, 0x987B, 0x6307, 0x5B9A] @ js '' --user '' @ [0x53C2, 0x6570, 0xFF08, 0x6D4B, 0x8BD5, 0x4EBA, 0x5458, 0x59D3, 0x540D, 0xFF09]"

definition msg_usage :: jstr where
  "msg_usage = [0x7528, 0x6CD5] @ js '': node generate.js --user \"'' @ [0x5F20, 0x4E09] @ js ''\" [--version v1.0] [--product \"'' @ [0x4EA7, 0x54C1, 0x540D] @ js ''\"] [--date YYYY-MM-DD] [--template default]''"

definition msg_no_catalog :: jstr where
  "msg_no_catalog = [0x8B66, 0x544A] @ js '': '' @ [0x6A21, 0x677F, 0x6587, 0x4EF6, 0x4E0D, 0x5B58, 0x5728, 0xFF0C, 0x4F7F, 0x7528, 0x9ED8, 0x8BA4, 0x6D4B, 0x8BD5, 0x9879]"

definition msg_parse_pre :: jstr where
  "msg_parse_pre = [0x8B66, 0x544A] @ js '': '' @ [0x89E3, 0x6790, 0x6A21, 0x677F] @ js '' \"''"

definition msg_parse_post :: jstr where
  "msg_parse_post = js ''\" '' @ [0x5931, 0x8D25, 0xFF0C, 0x4F7F, 0x7528, 0x9ED8, 0x8BA4, 0x6D4B, 0x8BD5, 0x9879]"

definition msg_notfound_pre :: jstr where
  "msg_notfound_pre = [0x8B66, 0x544A] @ js '': '' @ [0x6A21, 0x677F] @ js '' \"''"

definition msg_notfound_post :: jstr where
  "msg_notfound_post = js ''\" '' @ [0x672A, 0x627E, 0x5230, 0xFF0C, 0x5C1D, 0x8BD5, 0x4F7F, 0x7528] @ js '' default '' @ [0x6A21, 0x677F]"

definition msg_start :: jstr where
  "msg_start = [0x5F00, 0x59CB, 0x751F, 0x6210, 0x6587, 0x6863] @ js ''...''"

definition lbl_user :: jstr where
  "lbl_user = js ''  '' @ [0x6D4B, 0x8BD5, 0x4EBA, 0x5458] @ js '': ''"

definition lbl_product :: jstr where
  "lbl_product = js ''  '' @ [0x4EA7, 0x54C1, 0x540D, 0x79F0] @ js '': ''"

definition lbl_version :: jstr where
  "lbl_version = js ''  '' @ [0x7248, 0x672C, 0x53F7] @ js '': ''"

definition lbl_date :: jstr where
  "lbl_date = js ''  '' @ [0x6D4B, 0x8BD5, 0x65E5, 0x671F] @ js '': ''"

definition lbl_template :: jstr where
  "lbl_template = js ''  '' @ [0x6D4B, 0x8BD5, 0x6A21, 0x677F] @ js '': ''"

definition lbl_output :: jstr where
  "lbl_output = js ''  '' @ [0x8F93, 0x51FA, 0x76EE, 0x5F55] @ js '': ''"

definition msg_success :: jstr where
  "msg_success = [0x2705] @ js '' '' @ [0x6587, 0x6863, 0x751F, 0x6210, 0x6210, 0x529F, 0xFF01]"

definition lbl_filename :: jstr where
  "lbl_filename = js ''   '' @ [0x6587, 0x4EF6, 0x540D] @ js '': ''"

definition lbl_path :: jstr where
  "lbl_path = js ''   '' @ [0x8DEF, 0x5F84] @ js '': ''"

definition lbl_count :: jstr where
  "lbl_count = js ''   '' @ [0x6D4B, 0x8BD5, 0x9879, 0x6570, 0x91CF] @ js '': ''"

definition msg_failed :: jstr where
  "msg_failed = [0x274C] @ js '' '' @ [0x751F, 0x6210, 0x5931, 0x8D25] @ js '':''"

subsection \<open>Lines of each event\<close>

text \<open>The warnings of \<open>loadTemplate\<close>, with the template name interpolated.\<close>

fun warn_text :: "warning \<Rightarrow> jstr" where
  "warn_text WarnNoCatalog = msg_no_catalog"
| "warn_text (WarnParseFailed name) = msg_parse_pre @ name @ msg_parse_post"
| "warn_text (WarnTemplateNotFound name) = msg_notfound_pre @ name @ msg_notfound_post"

text \<open>\<open>`${options.user}`\<close>: an absent user prints as \<^verbatim>\<open>undefined\<close>.\<close>

definition user_text :: "jstr option \<Rightarrow> jstr" where
  "user_text u = (case u of None \<Rightarrow> js ''undefined'' | Some s \<Rightarrow> s)"

definition start_lines :: "options \<Rightarrow> jstr list" where
  "start_lines opts =
     [msg_start, lbl_user @ user_text (opt_user opts), lbl_product @ opt_product opts,
      lbl_version @ opt_version opts, lbl_date @ opt_date opts,
      lbl_template @ opt_template opts, lbl_output @ opt_output opts, []]"

definition success_lines :: "jstr \<Rightarrow> jstr \<Rightarrow> nat \<Rightarrow> jstr list" where
  "success_lines fname p n =
     [msg_success, lbl_filename @ fname, lbl_path @ p, lbl_count @ nat_digits n]"

text \<open>\<open>console.error(a, b)\<close> joins its arguments with a space.\<close>

fun console_of :: "(failure \<Rightarrow> jstr) \<Rightarrow> event \<Rightarrow> (stream \<times> jstr) list" where
  "console_of msg (EWarn w) = [(Stderr, warn_text w)]"
| "console_of msg (EMkdir d) = []"
| "console_of msg (EWrite p doc) = []"
| "console_of msg EUsage = [(Stderr, msg_missing_user), (Stderr, msg_usage)]"
| "console_of msg (EStart opts) = map (Pair Stdout) (start_lines opts)"
| "console_of msg (ESuccess fname p n) = map (Pair Stdout) (success_lines fname p n)"
| "console_of msg (EFailed f) = [(Stderr, msg_failed @ js '' '' @ msg f)]"

definition console :: "(failure \<Rightarrow> jstr) \<Rightarrow> event list \<Rightarrow> (stream \<times> jstr) list" where
  "console msg evs = concat (map (console_of msg) evs)"

subsection \<open>Console of a run\<close>

lemma console_Nil [simp]: "console msg [] = []"
  by (simp add: console_def)

lemma console_Cons [simp]: "console msg (x # xs) = console_of msg x @ console msg xs"
  by (simp add: console_def)

lemma console_append [simp]: "console msg (xs @ ys) = console msg xs @ console msg ys"
  by (simp add: console_def)

lemma console_warnings [simp]: "console msg (map EWarn ws) = map (\<lambda>w. (Stderr, warn_text w)) ws"
  by (induction ws) simp_all

text \<open>Creating the directory and writing the file print nothing.\<close>

lemma console_write_output: "console msg (fst (write_output e out u doc n)) = []"
  by (simp add: write_output_def Let_def)

lemma console_create_document:
  assumes "load_template (e_catalog e) (opt_template opts) = (ws, x)"
  shows "console msg (fst (create_document e u opts)) = map (\<lambda>w. (Stderr, warn_text w)) ws"
proof (cases x)
  case (Inl err)
  with assms show ?thesis by (simp add: create_document_def)
next
  case (Inr items)
  show ?thesis
  proof (cases "table_rows items")
    case (Inl err)
    with assms Inr show ?thesis by (simp add: create_document_def)
  next
    case rows: (Inr rows)
    show ?thesis
    proof (cases "read_logo (e_logo e)")
      case (Inl err)
      with assms Inr rows show ?thesis by (simp add: create_document_def)
    next
      case logo: (Inr l)
      let ?doc = "build_document l (opt_product opts) (opt_version opts) (opt_date opts) u rows"
      obtain evs2 r2 where w: "write_output e (opt_output opts) u ?doc (items_length items) = (evs2, r2)"
        by fastforce
      have "console msg evs2 = []" using console_write_output [of msg e] w by (metis fst_conv)
      with assms Inr rows logo w show ?thesis by (simp add: create_document_def)
    qed
  qed
qed

lemma main_usage_or_start:
  "(fst (main now args e) = [EUsage] \<and> snd (main now args e) = 1) \<or>
   (\<exists>opts u. parse_args now args = Inr opts \<and> opt_user opts = Some u \<and>
      main now args e = (EStart opts # fst (create_document e u opts) @
        [case snd (create_document e u opts) of Inl f \<Rightarrow> EFailed f | Inr (fname, p, n) \<Rightarrow> ESuccess fname p n],
        case snd (create_document e u opts) of Inl f \<Rightarrow> 1 | Inr r \<Rightarrow> 0))"
proof (cases "parse_args now args")
  case (Inl a)
  then show ?thesis by (cases a) (simp add: main_def)
next
  case (Inr opts)
  show ?thesis
  proof (cases "opt_user opts")
    case None
    with Inr show ?thesis by (simp add: main_def)
  next
    case (Some u)
    obtain evs r where cd: "create_document e u opts = (evs, r)" by fastforce
    with Inr Some show ?thesis
      by (cases r) (auto simp: main_def)
  qed
qed

text \<open>
  C26. The last line a run prints is on standard output exactly when the exit code is
  0 (the success summary), and on standard error otherwise (the usage or the error
  line); a run always prints something.
\<close>

theorem main_console_last:
  "console msg (fst (main now args e)) \<noteq> [] \<and>
   fst (last (console msg (fst (main now args e)))) = (if snd (main now args e) = 0 then Stdout else Stderr)"
  using main_usage_or_start [of now args e]
proof
  assume "fst (main now args e) = [EUsage] \<and> snd (main now args e) = 1"
  then show ?thesis by simp
next
  assume "\<exists>opts u. parse_args now args = Inr opts \<and> opt_user opts = Some u \<and>
      main now args e = (EStart opts # fst (create_document e u opts) @
        [case snd (create_document e u opts) of Inl f \<Rightarrow> EFailed f | Inr (fname, p, n) \<Rightarrow> ESuccess fname p n],
        case snd (create_document e u opts) of Inl f \<Rightarrow> 1 | Inr r \<Rightarrow> 0)"
  then obtain opts u where m: "main now args e = (EStart opts # fst (create_document e u opts) @
        [case snd (create_document e u opts) of Inl f \<Rightarrow> EFailed f | Inr (fname, p, n) \<Rightarrow> ESuccess fname p n],
        case snd (create_document e u opts) of Inl f \<Rightarrow> 1 | Inr r \<Rightarrow> 0)"
    by blast
  show ?thesis
  proof (cases "snd (create_document e u opts)")
    case (Inl f)
    then show ?thesis by (simp add: m)
  next
    case (Inr res)
    then obtain fname p n where "snd (create_document e u opts) = Inr (fname, p, n)"
      by (cases res) auto
    then show ?thesis by (simp add: m success_lines_def)
  qed
qed

text \<open>
  C27. The console of a run with a user: the eight lines of the options on standard
  output, one warning per fallback step of \<open>loadTemplate\<close> on standard error, then
  either the four summary lines (file name, path, entry count in decimal) on standard
  output or the error line on standard error. Creating the directory and writing the
  file print nothing.
\<close>

theorem main_console:
  assumes "parse_args now args = Inr opts" and "opt_user opts = Some u"
    and "load_template (e_catalog e) (opt_template opts) = (ws, x)"
  shows "console msg (fst (main now args e)) =
           map (Pair Stdout) (start_lines opts) @ map (\<lambda>w. (Stderr, warn_text w)) ws @
           (case snd (create_document e u opts) of
              Inl f \<Rightarrow> [(Stderr, msg_failed @ js '' '' @ msg f)]
            | Inr (fname, p, n) \<Rightarrow> map (Pair Stdout) (success_lines fname p n))"
proof -
  obtain evs r where cd: "create_document e u opts = (evs, r)" by fastforce
  have w: "console msg evs = map (\<lambda>w. (Stderr, warn_text w)) ws"
    using console_create_document [OF assms(3), of msg u] cd by simp
  show ?thesis
  proof (cases r)
    case (Inl f)
    with assms(1,2) cd w show ?thesis by (simp add: main_def)
  next
    case (Inr res)
    then obtain fname p n where "r = Inr (fname, p, n)" by (cases res) auto
    with assms(1,2) cd w show ?thesis by (simp add: main_def)
  qed
qed

theorem main_console_witness:
  "console (\<lambda>f. js ''error'') (fst (main now_d [js ''--user'', user_d] env_a)) =
     map (Pair Stdout) (start_lines opts_d) @
     map (Pair Stdout) (success_lines (output_filename user_d) (js ''/home/t/'' @ output_filename user_d) 2)"
proof -
  have u: "opt_user opts_d = Some user_d" by (simp add: opts_d_fields)
  have lt: "load_template (e_catalog env_a) (opt_template opts_d) =
              ([], Inr (JV (JArr [entry (js ''A'') (js ''B''), entry (js ''C'') (js ''D'')])))"
    by (simp add: env_a_def opts_d_fields load_template_a)
  obtain evs where cd: "create_document env_a user_d opts_d =
     (evs, Inr (output_filename user_d, js ''/home/t/'' @ output_filename user_d, 2))"
    using create_document_env_a by blast
  from main_console [OF parse_args_d u lt, of "\<lambda>f. js ''error''"] cd show ?thesis by simp
qed

end
