(* ===== verification/CatalogRender.thy ===== *)
theory CatalogRender
  imports Template JsonPrint
begin

text \<open>
  Catalogs written from an entry list: a section \<^verbatim>\<open>## name\<close> followed by a fenced
  \<^verbatim>\<open>json\<close> block holding \<open>{"items": [...]}\<close> as \<open>JsonPrint.print_json\<close> writes
  it. The theorem of this theory is the specification's first correctness property
  (section 6): for a template present in the catalog, \<open>loadTemplate\<close> returns exactly
  the entries listed under its \<open>items\<close>, in catalog order, for every entry list.
\<close>

definition render_block :: "jval list \<Rightarrow> jstr" where
  "render_block es = print_json (JObj [(js ''items'', JArr es)])"

definition render_catalog :: "jstr \<Rightarrow> jval list \<Rightarrow> jstr" where
  "render_catalog name es =
     heading name @ [0x0A] @ fence_json @ [0x0A] @ render_block es @ [0x0A] @ fence @ [0x0A]"

subsection \<open>No printed value contains a backtick\<close>

lemma hex_digit_not_backtick: "d < 16 \<Longrightarrow> hex_digit d \<noteq> 0x60"
proof
  assume d: "d < 16" and h: "hex_digit d = 0x60"
  have "unat (hex_digit d) = 96" by (simp add: h)
  show False
  proof (cases "d < 10")
    case True
    then have e: "hex_digit d = of_nat (48 + d)" by (simp only: hex_digit_def if_P)
    have "unat (hex_digit d) = 48 + d" unfolding e by (rule unat_small) (use True in simp)
    with \<open>unat (hex_digit d) = 96\<close> True show False by simp
  next
    case False
    then have e: "hex_digit d = of_nat (87 + d)" by (simp only: hex_digit_def if_not_P not_less)
    have "unat (hex_digit d) = 87 + d" unfolding e by (rule unat_small) (use d in simp)
    with \<open>unat (hex_digit d) = 96\<close> False show False by simp
  qed
qed

lemma esc_unit_no_backtick: "0x60 \<notin> set (esc_unit c)"
proof -
  have "c < 0x20 \<or> c = 0x60 \<Longrightarrow> unat c < 256" by (auto simp: word_less_nat_alt)
  then show ?thesis
    by (auto simp: esc_unit_def hex_digit_not_backtick)
qed

lemma quote_no_backtick: "0x60 \<notin> set (quote s)"
  by (auto simp: quote_def esc_unit_no_backtick)

lemma digits_no_backtick: "0x60 \<notin> set (int_digits m)"
proof -
  have "c \<noteq> 0x60" if "c \<in> set (nat_digits n)" for c n
    using nat_digits_digits [OF that] by (auto simp: is_digit_def)
  then show ?thesis by (auto simp: int_digits_def)
qed

lemma set_join_with: "set (join_with sep xs) \<subseteq> set sep \<union> \<Union> (set ` set xs)"
  by (induction sep xs rule: join_with.induct) auto

lemma print_json_no_backtick: "0x60 \<notin> set (print_json v)"
proof (induction v rule: print_json.induct)
  case (5 xs)
  then show ?case using set_join_with [of "[0x2C]" "map print_json xs"] by auto
next
  case (6 kvs)
  then show ?case
    using set_join_with [of "[0x2C]" "map (\<lambda>(k, v). quote k @ 0x3A # print_json v) kvs"]
    by (fastforce simp: quote_no_backtick)
qed (auto simp: js_def quote_no_backtick digits_no_backtick)

subsection \<open>The block of a rendered catalog\<close>

lemma heading_nonempty: "heading name \<noteq> []"
  by (simp add: heading_def js_def)

lemma find_block_render:
  "find_block (heading name) (render_catalog name es) = Some (0x0A # render_block es @ [0x0A])"
proof -
  have nb: "0x60 \<notin> set (render_block es)" unfolding render_block_def by (rule print_json_no_backtick)
  have "0x60 \<notin> set (0x0A # render_block es @ [0x0A :: cunit])" using nb by simp
  from find_block_first [OF heading_nonempty _ this, where gap = "[0x0A]" and rest = "[0x0A]"] show ?thesis
    by (simp add: render_catalog_def)
qed

lemma js_trim_render:
  "js_trim (0x0A # render_block es @ [0x0A]) = render_block es"
proof -
  have "\<exists>t. render_block es = 0x7B # t @ [0x7D]"
    by (simp add: render_block_def)
  then obtain t where t: "render_block es = 0x7B # t @ [0x7D]" by blast
  have "\<not> is_js_space 0x7B" "\<not> is_js_space 0x7D" "is_js_space 0x0A"
    by (simp_all add: is_js_space_def)
  then show ?thesis by (simp add: t js_trim_def)
qed

lemma block_items_render:
  "block_items (0x0A # render_block es @ [0x0A]) = Some (JV (JArr es))"
proof -
  have "json_parse (render_block es) = Inr (JObj [(js ''items'', JArr es)])"
    using json_parse_print_ws [of "[]" "JObj [(js ''items'', JArr es)]"]
    by (simp add: render_block_def)
  then show ?thesis by (simp add: block_items_def js_trim_render)
qed

text \<open>
  C24. For a template name the model reads literally (no regular-expression
  metacharacters) and every entry list, the catalog holding that list under the
  template's heading makes \<open>loadTemplate\<close> return exactly that list, in order and
  without a warning.
\<close>

theorem load_template_render:
  assumes "regex_plain name"
  shows "load_template (CatalogText (render_catalog name es)) name = ([], Inr (JV (JArr es)))"
  using find_block_render [of name es] block_items_render [of es]
  by (simp add: load_template_eval)


theorem load_template_render_witness:
  "load_template (CatalogText (render_catalog (js ''custom'') [entry (js ''A'') (js ''B'')])) (js ''custom'') =
     ([], Inr (JV (JArr [entry (js ''A'') (js ''B'')])))"
proof -
  have p: "regex_plain (js ''custom'')" by (simp add: regex_plain_def js_def)
  from load_template_render [OF p] show ?thesis .
qed

end
