(* ===== verification/Regex.thy ===== *)
theory Regex
  imports CatalogMatch Json
begin

text \<open>
  The regular-expression engine of \<open>String.prototype.match\<close> (ECMAScript 22.2.2, the
  non-Unicode semantics with flag \<open>i\<close>) for the patterns \<open>loadTemplate\<close> builds from a
  template name (generate.js, line 54). A pattern is a term of \<open>rx\<close>; \<open>mt s r i cp\<close>
  is the list of the states (end position and captures) in which \<open>r\<close> can finish when
  started at position \<open>i\<close> of \<open>s\<close>, in the order in which the backtracking engine
  tries them: its first element is the engine's result.
\<close>

datatype cls_item =
    CUnit cunit
  | CRange cunit cunit
  | CDigit | CNotDigit | CWord | CNotWord | CSpace | CNotSpace

datatype rx =
    RChar cunit
  | RAny
  | RClass bool "cls_item list"
  | RBol
  | REol
  | RWordB bool
  | REmpty
  | RSeq rx rx
  | RAlt rx rx
  | RGroup nat rx
  | RRep nat "nat option" bool rx

type_synonym caps = "nat \<Rightarrow> (nat \<times> nat) option"

subsection \<open>Characters\<close>

definition is_word_char :: "cunit \<Rightarrow> bool" where
  "is_word_char c \<longleftrightarrow> (0x30 \<le> c \<and> c \<le> 0x39) \<or> (0x41 \<le> c \<and> c \<le> 0x5A) \<or>
     (0x61 \<le> c \<and> c \<le> 0x7A) \<or> c = 0x5F"

definition is_line_term :: "cunit \<Rightarrow> bool" where
  "is_line_term c \<longleftrightarrow> c = 0x0A \<or> c = 0x0D \<or> c = 0x2028 \<or> c = 0x2029"

fun item_has :: "cls_item \<Rightarrow> cunit \<Rightarrow> bool" where
  "item_has (CUnit a) c = (a = c)"
| "item_has (CRange a b) c = (a \<le> c \<and> c \<le> b)"
| "item_has CDigit c = (0x30 \<le> c \<and> c \<le> 0x39)"
| "item_has CNotDigit c = (\<not> (0x30 \<le> c \<and> c \<le> 0x39))"
| "item_has CWord c = is_word_char c"
| "item_has CNotWord c = (\<not> is_word_char c)"
| "item_has CSpace c = is_js_space c"
| "item_has CNotSpace c = (\<not> is_js_space c)"

text \<open>The other case of an ASCII letter; \<open>canon a = canon c\<close> holds exactly for \<open>c\<close> and it.\<close>

definition swap_case :: "cunit \<Rightarrow> cunit" where
  "swap_case c = (if 0x61 \<le> c \<and> c \<le> 0x7A then c - 0x20
                  else if 0x41 \<le> c \<and> c \<le> 0x5A then c + 0x20 else c)"

text \<open>\<open>CharacterSetMatcher\<close> with \<open>i\<close>: some member canonicalises to the input's canonical form.\<close>

definition class_found :: "cls_item list \<Rightarrow> cunit \<Rightarrow> bool" where
  "class_found items c \<longleftrightarrow> list_ex (\<lambda>it. item_has it c \<or> item_has it (swap_case c)) items"

definition word_at :: "jstr \<Rightarrow> int \<Rightarrow> bool" where
  "word_at s e \<longleftrightarrow> 0 \<le> e \<and> e < int (length s) \<and> is_word_char (s ! nat e)"

definition word_boundary :: "jstr \<Rightarrow> nat \<Rightarrow> bool" where
  "word_boundary s i \<longleftrightarrow> word_at s (int i - 1) \<noteq> word_at s (int i)"

subsection \<open>Capture groups\<close>

primrec rx_groups :: "rx \<Rightarrow> nat list" where
  "rx_groups (RChar a) = []"
| "rx_groups RAny = []"
| "rx_groups (RClass n xs) = []"
| "rx_groups RBol = []"
| "rx_groups REol = []"
| "rx_groups (RWordB n) = []"
| "rx_groups REmpty = []"
| "rx_groups (RSeq a b) = rx_groups a @ rx_groups b"
| "rx_groups (RAlt a b) = rx_groups a @ rx_groups b"
| "rx_groups (RGroup k a) = k # rx_groups a"
| "rx_groups (RRep mn mx g a) = rx_groups a"

definition reset_caps :: "nat list \<Rightarrow> caps \<Rightarrow> caps" where
  "reset_caps ks cp = (\<lambda>k. if k \<in> set ks then None else cp k)"

subsection \<open>The matcher\<close>

text \<open>The minimum count of a repetition, the last component of the termination order.\<close>

fun rep_min :: "rx \<Rightarrow> nat" where
  "rep_min (RRep mn mx g a) = mn"
| "rep_min _ = 0"


text \<open>
  \<open>RRep mn mx g a\<close> is \<open>RepeatMatcher\<close>: at most \<open>mx\<close> iterations (none for \<open>\<infinity>\<close>), the
  captures inside \<open>a\<close> cleared before each iteration, an iteration past the minimum that
  consumes nothing rejected, greedy (\<open>g\<close>) trying one more iteration before stopping, lazy
  the other way round. An iteration ends at a position between its start and the end of
  the input (\<open>mt_bounds\<close>), so the test \<open>i \<le> j \<and> j \<le> length s\<close> never rejects one; it
  makes the decrease of the recursion visible.
\<close>

function mt :: "jstr \<Rightarrow> rx \<Rightarrow> nat \<Rightarrow> caps \<Rightarrow> (nat \<times> caps) list" where
  "mt s (RChar a) i cp = (if i < length s \<and> canon (s ! i) = canon a then [(Suc i, cp)] else [])"
| "mt s RAny i cp = (if i < length s \<and> \<not> is_line_term (s ! i) then [(Suc i, cp)] else [])"
| "mt s (RClass neg items) i cp =
     (if i < length s \<and> class_found items (s ! i) \<noteq> neg then [(Suc i, cp)] else [])"
| "mt s RBol i cp = (if i = 0 then [(i, cp)] else [])"
| "mt s REol i cp = (if i = length s then [(i, cp)] else [])"
| "mt s (RWordB neg) i cp = (if word_boundary s i \<noteq> neg then [(i, cp)] else [])"
| "mt s REmpty i cp = [(i, cp)]"
| "mt s (RSeq a b) i cp = concat (map (\<lambda>(j, c). mt s b j c) (mt s a i cp))"
| "mt s (RAlt a b) i cp = mt s a i cp @ mt s b i cp"
| "mt s (RGroup k a) i cp = map (\<lambda>(j, c). (j, c(k := Some (i, j)))) (mt s a i cp)"
| "mt s (RRep mn mx g a) i cp =
     (if mx = Some 0 then [(i, cp)]
      else
        let more = concat (map (\<lambda>(j, c).
                     if i \<le> j \<and> j \<le> length s \<and> \<not> (mn = 0 \<and> j = i)
                     then mt s (RRep (mn - 1) (map_option (\<lambda>n. n - 1) mx) g a) j c else [])
                     (mt s a i (reset_caps (rx_groups a) cp)))
        in if mn \<noteq> 0 then more else if g then more @ [(i, cp)] else (i, cp) # more)"
  by pat_completeness auto

termination
  by (relation "measures [\<lambda>(s, r, i, cp). size r, \<lambda>(s, r, i, cp). length s - i,
                          \<lambda>(s, r, i, cp). rep_min r]") auto

text \<open>The equation of a repetition unfolds into itself; it is used one step at a time.\<close>

declare mt.simps(11) [simp del]

subsection \<open>Execution\<close>

text \<open>
  \<open>RegExpBuiltinExec\<close> without the \<open>g\<close> flag: start positions \<open>0, 1, ..., length s\<close> in
  turn, the first at which the pattern matches; the result is the start, the end and the
  captures of the first state the matcher reaches. \<open>rx_capture\<close> is \<open>match[k]\<close>:
  the captured text, or \<open>undefined\<close> (\<open>None\<close>) for a group that did not take part.
\<close>

definition first_res :: "'a list \<Rightarrow> 'a option" where
  "first_res xs = (case xs of [] \<Rightarrow> None | x # _ \<Rightarrow> Some x)"

definition no_caps :: caps where
  "no_caps = (\<lambda>k. None)"

definition rx_match :: "rx \<Rightarrow> jstr \<Rightarrow> (nat \<times> nat \<times> caps) option" where
  "rx_match r s =
     first_some (\<lambda>i. map_option (\<lambda>(j, c). (i, j, c)) (first_res (mt s r i no_caps))) [0..<Suc (length s)]"

definition rx_capture :: "jstr \<Rightarrow> caps \<Rightarrow> nat \<Rightarrow> jstr option" where
  "rx_capture s c k = map_option (\<lambda>(a, b). take (b - a) (drop a s)) (c k)"

text \<open>A sequence of terms, as the parser builds an alternative.\<close>

definition rx_seq :: "rx list \<Rightarrow> rx" where
  "rx_seq ts = foldr RSeq ts REmpty"

text \<open>\<^verbatim>\<open>[\s\S]*?\<close>: any code unit, as few as possible.\<close>

definition any_lazy :: rx where
  "any_lazy = RRep 0 None False (RClass False [CSpace, CNotSpace])"

text \<open>
  The pattern \<^verbatim>\<open>HEADING[\s\S]*?```json([\s\S]*?)```\<close> with a literal heading, as
  the parser reads it (\<open>RegexParse\<close>); its group 1 is the block.
\<close>

definition block_rx :: "jstr \<Rightarrow> rx" where
  "block_rx h = rx_seq (map RChar h @ [any_lazy] @ map RChar fence_json @
                        [RGroup 1 (rx_seq [any_lazy])] @ map RChar fence)"

subsection \<open>Case folding\<close>

lemma unat_minus_32: "0x20 \<le> (c :: cunit) \<Longrightarrow> unat (c - 0x20) = unat c - 32"
  by (simp add: unat_sub)

lemma unat_plus_32: "(c :: cunit) \<le> 0x5A \<Longrightarrow> unat (c + 0x20) = unat c + 32"
proof -
  assume "c \<le> 0x5A"
  then have "unat c + unat (0x20 :: cunit) < 2 ^ LENGTH(16)" by (simp add: word_le_nat_alt)
  then have "unat (c + 0x20) = unat c + unat (0x20 :: cunit)" by (rule unat_add_lem [THEN iffD1])
  then show ?thesis by simp
qed

lemma canon_eq_iff: "canon a = canon c \<longleftrightarrow> a = c \<or> a = swap_case c"
proof -
  have n: "x = y \<longleftrightarrow> unat x = unat y" for x y :: cunit by (simp add: word_unat_eq_iff)
  show ?thesis
    unfolding canon_def swap_case_def n
    by (auto simp: word_le_nat_alt unat_minus_32 unat_plus_32)
qed

text \<open>The test of a class is the one of \<open>CharacterSetMatcher\<close> with \<open>Canonicalize\<close>.\<close>

lemma class_found_canon:
  "class_found items c \<longleftrightarrow> (\<exists>a. (\<exists>it\<in>set items. item_has it a) \<and> canon a = canon c)"
  by (auto simp: class_found_def list_ex_iff canon_eq_iff)


subsection \<open>Positions only move forward\<close>

text \<open>
  Every state the matcher reaches from position \<open>i\<close> ends at or after \<open>i\<close> and
  not past the end of the input (when \<open>i\<close> is within it): no term moves backwards or
  beyond the subject, so the position test in the repetition never discards a state.
\<close>

theorem mt_bounds:
  "(j, c) \<in> set (mt s r i cp) \<Longrightarrow> i \<le> j \<and> j \<le> max i (length s)"
proof (induction s r i cp arbitrary: j c rule: mt.induct)
  case (8 s a b i cp)
  from "8.prems" obtain j' c' where m: "(j', c') \<in> set (mt s a i cp)" "(j, c) \<in> set (mt s b j' c')"
    by auto
  from "8.IH"(1) [OF m(1)] "8.IH"(2) [OF m(1) refl m(2)] show ?case by auto
next
  case (10 s k a i cp)
  then show ?case by force
next
  case (11 s mn mx g a i cp)
  let ?rc = "reset_caps (rx_groups a) cp"
  let ?r = "RRep (mn - 1) (map_option (\<lambda>n. n - 1) mx) g a"
  show ?case
  proof (cases "mx = Some 0")
    case True
    with "11.prems" show ?thesis by (simp add: mt.simps(11))
  next
    case False
    have "(j, c) = (i, cp) \<or> (\<exists>j' c'. (j', c') \<in> set (mt s a i ?rc) \<and>
            (i \<le> j' \<and> j' \<le> length s \<and> \<not> (mn = 0 \<and> j' = i)) \<and> (j, c) \<in> set (mt s ?r j' c'))"
      using "11.prems" False unfolding mt.simps(11) [of s mn mx g a i cp]
      by (auto simp: Let_def split: if_splits)
    then show ?thesis
    proof
      assume "(j, c) = (i, cp)"
      then show ?thesis by simp
    next
      assume "\<exists>j' c'. (j', c') \<in> set (mt s a i ?rc) \<and>
            (i \<le> j' \<and> j' \<le> length s \<and> \<not> (mn = 0 \<and> j' = i)) \<and> (j, c) \<in> set (mt s ?r j' c')"
      then obtain j' c' where m: "(j', c') \<in> set (mt s a i ?rc)"
        and g: "i \<le> j' \<and> j' \<le> length s \<and> \<not> (mn = 0 \<and> j' = i)" and r: "(j, c) \<in> set (mt s ?r j' c')"
        by blast
      from "11.IH"(2) [OF False m refl g r] g show ?thesis by auto
    qed
  qed
qed (auto split: if_splits)

subsection \<open>Sequences, literals and the lazy gap\<close>

lemma mt_seq_Nil [simp]: "mt s (rx_seq []) i cp = [(i, cp)]"
  by (simp add: rx_seq_def)

lemma mt_seq_Cons: "mt s (rx_seq (t # ts)) i cp = concat (map (\<lambda>(j, c). mt s (rx_seq ts) j c) (mt s t i cp))"
  by (simp add: rx_seq_def)

lemma concat_map_concat:
  "concat (map f (concat (map g xs))) = concat (map (\<lambda>x. concat (map f (g x))) xs)"
  by (induction xs) simp_all

lemma mt_seq_append:
  "mt s (rx_seq (xs @ ys)) i cp = concat (map (\<lambda>(j, c). mt s (rx_seq ys) j c) (mt s (rx_seq xs) i cp))"
proof (induction xs arbitrary: i cp)
  case Nil
  then show ?case by simp
next
  case (Cons t xs)
  show ?case
    by (simp add: mt_seq_Cons Cons.IH concat_map_concat split_def)
qed

lemma lit_at_Nil [simp]: "lit_at [] s i \<longleftrightarrow> i \<le> length s"
  by (simp add: lit_at_def ci_eq_def)

lemma lit_at_Cons:
  "lit_at (a # w) s i \<longleftrightarrow> i < length s \<and> canon (s ! i) = canon a \<and> lit_at w s (Suc i)"
proof -
  have "i < length s \<Longrightarrow> drop i s = s ! i # drop (Suc i) s" by (simp add: Cons_nth_drop_Suc)
  then show ?thesis by (auto simp: lit_at_def ci_eq_def)
qed

lemma mt_lit:
  "i \<le> length s \<Longrightarrow> mt s (rx_seq (map RChar w @ ts)) i cp =
     (if lit_at w s i then mt s (rx_seq ts) (i + length w) cp else [])"
proof (induction w arbitrary: i)
  case Nil
  then show ?case by simp
next
  case (Cons a w)
  show ?case
  proof (cases "i < length s \<and> canon (s ! i) = canon a")
    case True
    with Cons.IH [of "Suc i"] show ?thesis by (simp add: mt_seq_Cons lit_at_Cons)
  next
    case False
    then show ?thesis by (auto simp: mt_seq_Cons lit_at_Cons)
  qed
qed

lemma reset_caps_Nil [simp]: "reset_caps [] cp = cp"
  by (simp add: reset_caps_def)

lemma class_found_any [simp]: "class_found [CSpace, CNotSpace] c"
  by (simp add: class_found_def)

lemma mt_any_lazy_step:
  "mt s any_lazy i cp =
     (i, cp) # (if i < length s then mt s any_lazy (Suc i) cp else [])"
  unfolding any_lazy_def by (subst mt.simps(11)) simp

lemma mt_any_lazy:
  "i \<le> length s \<Longrightarrow> mt s any_lazy i cp = map (\<lambda>j. (j, cp)) [i..<Suc (length s)]"
proof (induction "length s - i" arbitrary: i)
  case 0
  then have "i = length s" by simp
  then show ?case by (simp add: mt_any_lazy_step)
next
  case (Suc n)
  then have i: "i < length s" by simp
  then have "[i..<Suc (length s)] = i # [Suc i..<Suc (length s)]" by (simp add: upt_rec)
  with i Suc.hyps(1) [of "Suc i"] Suc.hyps(2) show ?case
    by (simp add: mt_any_lazy_step del: upt_Suc)
qed

lemma first_res_append:
  "first_res (xs @ ys) = (case first_res xs of None \<Rightarrow> first_res ys | Some x \<Rightarrow> Some x)"
  by (cases xs) (simp_all add: first_res_def)

lemma first_res_simps [simp]: "first_res [] = None" "first_res (x # xs) = Some x"
  by (simp_all add: first_res_def)

lemma first_res_concat: "first_res (concat (map f xs)) = first_some (\<lambda>x. first_res (f x)) xs"
proof (induction xs)
  case (Cons a xs)
  then show ?case by (simp add: first_res_append split: option.split)
qed simp

lemma first_res_map: "first_res (map f xs) = map_option f (first_res xs)"
  by (simp add: first_res_def split: list.split)

lemma first_some_cong:
  "(\<And>x. x \<in> set xs \<Longrightarrow> f x = g x) \<Longrightarrow> first_some f xs = first_some g xs"
  by (induction xs) (auto split: option.split)

lemma first_some_map: "first_some f (map g xs) = first_some (\<lambda>x. f (g x)) xs"
  by (induction xs) (auto split: option.split)

subsection \<open>The block pattern is the first-occurrence scan\<close>

lemma mt_group_any:
  "q \<le> length s \<Longrightarrow>
   mt s (RGroup k (rx_seq [any_lazy])) q cp = map (\<lambda>j. (j, cp(k := Some (q, j)))) [q..<Suc (length s)]"
proof -
  assume q: "q \<le> length s"
  have "mt s (rx_seq [any_lazy]) q cp = map (\<lambda>j. (j, cp)) [q..<Suc (length s)]"
    using mt_seq_Cons [of s any_lazy "[]" q cp] mt_any_lazy [OF q, of cp]
    by (simp add: split_def comp_def del: upt_Suc)
  then show ?thesis by (simp add: comp_def del: upt_Suc)
qed

lemma first_close:
  "r \<le> length s \<Longrightarrow>
   first_res (mt s (rx_seq (map RChar fence)) r c) = (if lit_at fence s r then Some (r + 3, c) else None)"
  using mt_lit [of r s fence "[]" c] by (simp add: length_fence)

lemma first_group:
  "q \<le> length s \<Longrightarrow>
   first_res (mt s (rx_seq (RGroup 1 (rx_seq [any_lazy]) # map RChar fence)) q cp) =
     first_some (\<lambda>r. if lit_at fence s r then Some (r + 3, cp(1 := Some (q, r))) else None)
       [q..<Suc (length s)]"
proof -
  assume q: "q \<le> length s"
  show ?thesis
    unfolding mt_seq_Cons [of s "RGroup 1 (rx_seq [any_lazy])"] mt_group_any [OF q]
    by (simp add: first_res_concat first_some_map del: upt_Suc)
      (rule first_some_cong, subst first_close, auto)
qed

lemma first_json:
  "q \<le> length s \<Longrightarrow>
   first_res (mt s (rx_seq (map RChar fence_json @ RGroup 1 (rx_seq [any_lazy]) # map RChar fence)) q cp) =
     (if lit_at fence_json s q
      then first_some (\<lambda>r. if lit_at fence s r then Some (r + 3, cp(1 := Some (q + 7, r))) else None)
             [q + 7..<Suc (length s)]
      else None)"
proof -
  assume q: "q \<le> length s"
  show ?thesis
  proof (cases "lit_at fence_json s q")
    case True
    then have "q + 7 \<le> length s" using lit_at_bound [OF True] by (simp add: length_fence_json)
    with True first_group [of "q + 7" s cp] show ?thesis
      by (simp add: mt_lit [OF q] length_fence_json del: upt_Suc)
  next
    case False
    then show ?thesis by (simp add: mt_lit [OF q])
  qed
qed

lemma first_block:
  assumes i: "i \<le> length s"
  shows "first_res (mt s (block_rx h) i cp) =
     (if lit_at h s i
      then first_some (\<lambda>q. if lit_at fence_json s q
             then first_some (\<lambda>r. if lit_at fence s r then Some (r + 3, cp(1 := Some (q + 7, r))) else None)
                    [q + 7..<Suc (length s)]
             else None) [i + length h..<Suc (length s)]
      else None)"
proof (cases "lit_at h s i")
  case True
  then have p: "i + length h \<le> length s" by (rule lit_at_bound)
  have "first_res (mt s (block_rx h) i cp) =
        first_some (\<lambda>q. first_res (mt s (rx_seq (map RChar fence_json @ RGroup 1 (rx_seq [any_lazy]) # map RChar fence)) q cp))
          [i + length h..<Suc (length s)]"
    unfolding block_rx_def using True
    by (simp add: mt_lit [OF i] mt_seq_Cons mt_any_lazy [OF p] first_res_concat first_some_map del: upt_Suc)
  also have "\<dots> = first_some (\<lambda>q. if lit_at fence_json s q
             then first_some (\<lambda>r. if lit_at fence s r then Some (r + 3, cp(1 := Some (q + 7, r))) else None)
                    [q + 7..<Suc (length s)]
             else None) [i + length h..<Suc (length s)]"
    by (rule first_some_cong, subst first_json, auto)
  finally show ?thesis using True by simp
next
  case False
  then show ?thesis unfolding block_rx_def by (simp add: mt_lit [OF i])
qed

lemma first_some_map_option:
  "map_option g (first_some f xs) = first_some (\<lambda>x. map_option g (f x)) xs"
  by (induction xs) (auto split: option.split)

lemma map_option_if: "map_option g (if P then x else None) = (if P then map_option g x else None)"
  by simp

lemma rx_match_block_scan:
  "map_option (\<lambda>(i, j, c). rx_capture s c 1) (rx_match (block_rx h) s) = map_option Some (regex_exec h s)"
proof -
  have "map_option (\<lambda>(i, j, c). rx_capture s c 1) (rx_match (block_rx h) s) =
        first_some (\<lambda>p. map_option (\<lambda>(j, c). rx_capture s c 1) (first_res (mt s (block_rx h) p no_caps)))
          [0..<Suc (length s)]"
    by (simp add: rx_match_def first_some_map_option option.map_comp split_def comp_def del: upt_Suc)
  also have "\<dots> = map_option Some (regex_exec h s)"
    unfolding regex_exec_def first_some_map_option
    apply (rule first_some_cong)
    apply (subst first_block)
     apply auto[1]
    apply (simp add: first_some_map_option map_option_if rx_capture_def no_caps_def length_fence_json cong: if_cong del: upt_Suc)
    done
  finally show ?thesis .
qed

theorem mt_bounds_witness:
  "(Suc 0, no_caps) \<in> set (mt [0x61, 0x62] (RChar 0x41) 0 no_caps) \<and>
   0 \<le> Suc 0 \<and> Suc 0 \<le> max 0 (length [0x61, 0x62 :: cunit])"
proof -
  have m: "(Suc 0, no_caps) \<in> set (mt [0x61, 0x62] (RChar 0x41) 0 no_caps)"
    by (simp add: canon_def)
  from mt_bounds [OF m] m show ?thesis by simp
qed

text \<open>
  C28. The general engine, run on the pattern of a literal heading, finds the block of
  the first-occurrence scan: \<open>match[1]\<close> of \<open>String.prototype.match\<close> is the block
  \<open>regex_exec\<close> returns, and there is a match exactly when it returns one.
\<close>

theorem rx_match_block:
  "map_option (\<lambda>(i, j, c). rx_capture s c 1) (rx_match (block_rx h) s) = map_option Some (regex_exec h s)"
  by (rule rx_match_block_scan)

end
