(* ===== verification/RegexParse.thy ===== *)
theory RegexParse
  imports Regex
begin

text \<open>
  The \<open>RegExp\<close> constructor of generate.js, line 54, reading the pattern source
  \<^verbatim>\<open>## NAME[\s\S]*?```json([\s\S]*?)```\<close> (ECMAScript 22.2.1 with the web-compatibility
  grammar of Annex B.1.2, which Node implements). \<open>rx_lex\<close> splits the source into
  tokens, \<open>rx_parse\<close> builds the term with a stack of open groups, numbering capturing
  groups by their opening parenthesis. An error is \<open>RxSyntax\<close>, the \<open>SyntaxError\<close> the
  constructor throws, or \<open>RxUnsupported\<close> for syntax the model leaves out (back
  references and octal escapes, \<^verbatim>\<open>\c\<close>, \<^verbatim>\<open>\x\<close>, \<^verbatim>\<open>\u\<close>, \<^verbatim>\<open>\k\<close>,
  lookaround and named groups).
\<close>

datatype rx_error = RxSyntax | RxUnsupported

datatype tok =
    TAtom rx
  | TAssert rx
  | TQuant nat "nat option" bool
  | TOpen bool
  | TClose
  | TBar

subsection \<open>Escapes\<close>

text \<open>\<^verbatim>\<open>\d \D \w \W \s \S\<close>\<close>

definition esc_class :: "cunit \<Rightarrow> cls_item option" where
  "esc_class e =
     (if e = 0x64 then Some CDigit else if e = 0x44 then Some CNotDigit
      else if e = 0x77 then Some CWord else if e = 0x57 then Some CNotWord
      else if e = 0x73 then Some CSpace else if e = 0x53 then Some CNotSpace else None)"

text \<open>\<^verbatim>\<open>\t \n \v \f \r\<close>\<close>

definition esc_control :: "cunit \<Rightarrow> cunit option" where
  "esc_control e =
     (if e = 0x74 then Some 0x09 else if e = 0x6E then Some 0x0A else if e = 0x76 then Some 0x0B
      else if e = 0x66 then Some 0x0C else if e = 0x72 then Some 0x0D else None)"

text \<open>Escapes the model leaves out: digits, \<^verbatim>\<open>\c\<close>, \<^verbatim>\<open>\x\<close>, \<^verbatim>\<open>\u\<close>, \<^verbatim>\<open>\k\<close>.\<close>

definition esc_unsupported :: "cunit \<Rightarrow> bool" where
  "esc_unsupported e \<longleftrightarrow> is_digit e \<or> e = 0x63 \<or> e = 0x78 \<or> e = 0x75 \<or> e = 0x6B"

text \<open>An escape outside a class; any other character escapes itself (Annex B).\<close>

definition esc_tok :: "cunit \<Rightarrow> rx_error + tok" where
  "esc_tok e =
     (case esc_class e of
        Some it \<Rightarrow> Inr (TAtom (RClass False [it]))
      | None \<Rightarrow>
          if e = 0x62 then Inr (TAssert (RWordB False))
          else if e = 0x42 then Inr (TAssert (RWordB True))
          else case esc_control e of
                 Some u \<Rightarrow> Inr (TAtom (RChar u))
               | None \<Rightarrow> if esc_unsupported e then Inl RxUnsupported else Inr (TAtom (RChar e)))"

subsection \<open>Character classes\<close>

datatype catom = CAUnit cunit | CAEsc cls_item

fun catom_item :: "catom \<Rightarrow> cls_item" where
  "catom_item (CAUnit u) = CUnit u"
| "catom_item (CAEsc it) = it"

text \<open>
  One class atom and the number of code units it takes; inside a class \<^verbatim>\<open>\b\<close> is
  the backspace.
\<close>

definition cls_atom :: "jstr \<Rightarrow> rx_error + (catom \<times> nat)" where
  "cls_atom s =
     (case s of
        [] \<Rightarrow> Inl RxSyntax
      | c # r \<Rightarrow>
          if c \<noteq> 0x5C then Inr (CAUnit c, 1)
          else (case r of
                  [] \<Rightarrow> Inl RxSyntax
                | e # r' \<Rightarrow>
                    (case esc_class e of
                       Some it \<Rightarrow> Inr (CAEsc it, 2)
                     | None \<Rightarrow>
                         if e = 0x62 then Inr (CAUnit 0x08, 2)
                         else case esc_control e of
                                Some u \<Rightarrow> Inr (CAUnit u, 2)
                              | None \<Rightarrow> if esc_unsupported e then Inl RxUnsupported
                                        else Inr (CAUnit e, 2))))"

subsection \<open>The lexer\<close>

text \<open>
  \<^verbatim>\<open>{n}\<close>, \<^verbatim>\<open>{n,}\<close>, \<^verbatim>\<open>{n,m}\<close> after the brace: the bounds and the number of code
  units up to the closing brace; \<open>None\<close> when the text is no quantifier, and then the
  brace is a literal (Annex B).
\<close>

definition brace_quant :: "jstr \<Rightarrow> (nat \<times> nat option \<times> nat) option" where
  "brace_quant s =
     (let d1 = takeWhile is_digit s; r1 = dropWhile is_digit s in
      if d1 = [] then None
      else if take 1 r1 = [0x7D] then Some (digits_nat d1, Some (digits_nat d1), length d1 + 1)
      else if take 1 r1 = [0x2C] then
        (let d2 = takeWhile is_digit (drop 1 r1); r2 = dropWhile is_digit (drop 1 r1) in
         if take 1 r2 = [0x7D]
         then Some (digits_nat d1, if d2 = [] then None else Some (digits_nat d2), length d1 + length d2 + 2)
         else None)
      else None)"

text \<open>A quantifier followed by \<^verbatim>\<open>?\<close> is lazy; the number of units the mark takes.\<close>

definition lazy_mark :: "jstr \<Rightarrow> nat" where
  "lazy_mark s = (if take 1 s = [0x3F] then 1 else 0)"

definition lex_cons :: "tok \<Rightarrow> rx_error + tok list \<Rightarrow> rx_error + tok list" where
  "lex_cons t r = (case r of Inl e \<Rightarrow> Inl e | Inr ts \<Rightarrow> Inr (t # ts))"

text \<open>
  The lexer reads the source outside a class (\<open>None\<close>) or inside one (\<open>Some (neg, items)\<close>).
  Inside, a range \<open>a-b\<close> of two single units is a syntax error when \<open>b < a\<close>; with a
  class escape on either side the dash is a literal (Annex B); a dash before
  \<^verbatim>\<open>]\<close> is a literal; a source ending inside a class is an unterminated class. Outside,
  \<^verbatim>\<open>(?:\<close> opens a group without capture, \<^verbatim>\<open>(?\<close> with any other letter is lookaround
  or a named group (not modelled) or invalid; \<^verbatim>\<open>*\<close>, \<^verbatim>\<open>+\<close>, \<^verbatim>\<open>?\<close> and braces are
  quantifiers; \<^verbatim>\<open>]\<close>, \<^verbatim>\<open>}\<close> and a brace that is no quantifier are literals.
\<close>

function rx_lex :: "(bool \<times> cls_item list) option \<Rightarrow> jstr \<Rightarrow> rx_error + tok list" where
  "rx_lex None [] = Inr []"
| "rx_lex (Some cl) [] = Inl RxSyntax"
| "rx_lex (Some (neg, acc)) (c # cs) =
     (if c = 0x5D then lex_cons (TAtom (RClass neg (rev acc))) (rx_lex None cs)
      else case cls_atom (c # cs) of
             Inl e \<Rightarrow> Inl e
           | Inr (a, k) \<Rightarrow>
               let r1 = drop k (c # cs) in
               if take 1 r1 = [0x2D] \<and> 2 \<le> length r1 \<and> r1 ! 1 \<noteq> 0x5D then
                 (case cls_atom (drop 1 r1) of
                    Inl e \<Rightarrow> Inl e
                  | Inr (b, k2) \<Rightarrow>
                      (case (a, b) of
                         (CAUnit x, CAUnit y) \<Rightarrow>
                           if x \<le> y then rx_lex (Some (neg, CRange x y # acc)) (drop k2 (drop 1 r1))
                           else Inl RxSyntax
                       | _ \<Rightarrow> rx_lex (Some (neg, catom_item b # CUnit 0x2D # catom_item a # acc))
                              (drop k2 (drop 1 r1))))
               else rx_lex (Some (neg, catom_item a # acc)) r1)"
| "rx_lex None (c # cs) =
     (if c = 0x5C then
        (case cs of
           [] \<Rightarrow> Inl RxSyntax
         | e # r \<Rightarrow> (case esc_tok e of Inl err \<Rightarrow> Inl err | Inr t \<Rightarrow> lex_cons t (rx_lex None r)))
      else if c = 0x5B then
        (if take 1 cs = [0x5E] then rx_lex (Some (True, [])) (drop 1 cs) else rx_lex (Some (False, [])) cs)
      else if c = 0x28 then
        (if take 2 cs = [0x3F, 0x3A] then lex_cons (TOpen False) (rx_lex None (drop 2 cs))
         else if take 1 cs = [0x3F] then
           (if take 2 cs \<in> {[0x3F, 0x3D], [0x3F, 0x21], [0x3F, 0x3C]} then Inl RxUnsupported
            else Inl RxSyntax)
         else lex_cons (TOpen True) (rx_lex None cs))
      else if c = 0x2A \<or> c = 0x2B \<or> c = 0x3F then
        lex_cons (TQuant (if c = 0x2B then 1 else 0) (if c = 0x3F then Some 1 else None) (lazy_mark cs = 0))
          (rx_lex None (drop (lazy_mark cs) cs))
      else if c = 0x7B then
        (case brace_quant cs of
           None \<Rightarrow> lex_cons (TAtom (RChar c)) (rx_lex None cs)
         | Some (mn, mx, k) \<Rightarrow>
             if (case mx of Some m \<Rightarrow> m < mn | None \<Rightarrow> False) then Inl RxSyntax
             else lex_cons (TQuant mn mx (lazy_mark (drop k cs) = 0))
                    (rx_lex None (drop (lazy_mark (drop k cs)) (drop k cs))))
      else if c = 0x29 then lex_cons TClose (rx_lex None cs)
      else if c = 0x7C then lex_cons TBar (rx_lex None cs)
      else if c = 0x5E then lex_cons (TAssert RBol) (rx_lex None cs)
      else if c = 0x24 then lex_cons (TAssert REol) (rx_lex None cs)
      else if c = 0x2E then lex_cons (TAtom RAny) (rx_lex None cs)
      else lex_cons (TAtom (RChar c)) (rx_lex None cs))"
  by pat_completeness auto

termination
  by (relation "measure (\<lambda>(m, s). length s)")
    (auto simp: cls_atom_def Let_def split: list.splits if_splits option.splits)

subsection \<open>The parser\<close>

text \<open>
  A term of an alternative is an atom, which a quantifier may follow, or an assertion or
  a quantified atom, which none may follow (\<^verbatim>\<open>a**\<close> and \<^verbatim>\<open>^*\<close> are syntax errors:
  nothing to repeat). A frame is an open group: its group number (\<open>None\<close> for the whole
  pattern and for \<^verbatim>\<open>(?:\<close>), the alternatives already closed and the terms of the
  current one, both latest first.
\<close>

datatype pterm = TmAtom rx | TmDone rx

fun term_rx :: "pterm \<Rightarrow> rx" where
  "term_rx (TmAtom r) = r"
| "term_rx (TmDone r) = r"

fun alt_of :: "rx list \<Rightarrow> rx" where
  "alt_of [] = REmpty"
| "alt_of [a] = a"
| "alt_of (a # b # rest) = RAlt a (alt_of (b # rest))"

type_synonym pframe = "nat option \<times> rx list \<times> pterm list"

definition seq_of :: "pterm list \<Rightarrow> rx" where
  "seq_of ts = rx_seq (map term_rx (rev ts))"

definition frame_rx :: "rx list \<Rightarrow> pterm list \<Rightarrow> rx" where
  "frame_rx alts ts = alt_of (rev (seq_of ts # alts))"

fun rx_parse :: "tok list \<Rightarrow> nat \<Rightarrow> pframe \<Rightarrow> pframe list \<Rightarrow> rx_error + rx \<times> nat" where
  "rx_parse [] n (k, alts, ts) stk = (if stk = [] then Inr (frame_rx alts ts, n) else Inl RxSyntax)"
| "rx_parse (TAtom r # toks) n (k, alts, ts) stk = rx_parse toks n (k, alts, TmAtom r # ts) stk"
| "rx_parse (TAssert r # toks) n (k, alts, ts) stk = rx_parse toks n (k, alts, TmDone r # ts) stk"
| "rx_parse (TQuant mn mx g # toks) n (k, alts, ts) stk =
     (case ts of
        TmAtom r # ts' \<Rightarrow> rx_parse toks n (k, alts, TmDone (RRep mn mx g r) # ts') stk
      | _ \<Rightarrow> Inl RxSyntax)"
| "rx_parse (TOpen cap # toks) n fr stk =
     (if cap then rx_parse toks (Suc n) (Some (Suc n), [], []) (fr # stk)
      else rx_parse toks n (None, [], []) (fr # stk))"
| "rx_parse (TClose # toks) n (k, alts, ts) stk =
     (case stk of
        [] \<Rightarrow> Inl RxSyntax
      | (k', alts', ts') # stk' \<Rightarrow>
          rx_parse toks n
            (k', alts', TmAtom (case k of Some g \<Rightarrow> RGroup g (frame_rx alts ts) | None \<Rightarrow> frame_rx alts ts) # ts')
            stk')"
| "rx_parse (TBar # toks) n (k, alts, ts) stk = rx_parse toks n (k, seq_of ts # alts, []) stk"

text \<open>\<open>new RegExp(source, 'i')\<close>: the pattern and its number of capturing groups.\<close>

definition rx_compile :: "jstr \<Rightarrow> rx_error + rx \<times> nat" where
  "rx_compile src =
     (case rx_lex None src of Inl e \<Rightarrow> Inl e | Inr toks \<Rightarrow> rx_parse toks 0 (None, [], []) [])"

subsection \<open>The source of the catalog pattern\<close>

text \<open>\<^verbatim>\<open>[\s\S]*?\<close> as source text.\<close>

definition any_lazy_src :: jstr where
  "any_lazy_src = [0x5B, 0x5C, 0x73, 0x5C, 0x53, 0x5D, 0x2A, 0x3F]"

text \<open>
  The source of line 54, \<open>`## ${templateName}[\s\S]*?\`\`\`json([\s\S]*?)\`\`\``\<close>: the name
  is interpolated as it is, so its metacharacters are pattern syntax.
\<close>

definition tpl_src :: "jstr \<Rightarrow> jstr" where
  "tpl_src name = heading name @ any_lazy_src @ fence_json @ [0x28] @ any_lazy_src @ [0x29] @ fence"

text \<open>A code unit that is no pattern syntax outside a class.\<close>

definition plain_unit :: "cunit \<Rightarrow> bool" where
  "plain_unit c \<longleftrightarrow> c \<notin> set [0x5C, 0x5E, 0x24, 0x2E, 0x2A, 0x2B, 0x3F, 0x28, 0x29, 0x5B, 0x5D, 0x7B, 0x7D, 0x7C]"

subsection \<open>A literal heading compiles to the block pattern\<close>

lemma lex_cons_Inr [simp]: "lex_cons t (Inr ts) = Inr (t # ts)"
  by (simp add: lex_cons_def)

lemma rx_lex_plain:
  "list_all plain_unit xs \<Longrightarrow> rx_lex None ys = Inr ts \<Longrightarrow>
   rx_lex None (xs @ ys) = Inr (map (TAtom \<circ> RChar) xs @ ts)"
proof (induction xs)
  case Nil
  then show ?case by simp
next
  case (Cons c xs)
  then have "plain_unit c" and IH: "rx_lex None (xs @ ys) = Inr (map (TAtom \<circ> RChar) xs @ ts)" by simp_all
  then have "c \<noteq> 0x5C" "c \<noteq> 0x5B" "c \<noteq> 0x28" "c \<noteq> 0x2A" "c \<noteq> 0x2B" "c \<noteq> 0x3F" "c \<noteq> 0x7B"
    "c \<noteq> 0x29" "c \<noteq> 0x7C" "c \<noteq> 0x5E" "c \<noteq> 0x24" "c \<noteq> 0x2E"
    by (simp_all add: plain_unit_def)
  then show ?case by (simp add: IH)
qed

lemma suffix_lex:
  "rx_lex None (any_lazy_src @ fence_json @ [0x28] @ any_lazy_src @ [0x29] @ fence) =
     Inr ([TAtom (RClass False [CSpace, CNotSpace]), TQuant 0 None False] @
          map (TAtom \<circ> RChar) fence_json @
          [TOpen True, TAtom (RClass False [CSpace, CNotSpace]), TQuant 0 None False, TClose] @
          map (TAtom \<circ> RChar) fence)"
  by code_simp

lemma rx_parse_atoms:
  "rx_parse (map (TAtom \<circ> RChar) w @ toks) n (k, alts, ts) stk =
   rx_parse toks n (k, alts, rev (map (TmAtom \<circ> RChar) w) @ ts) stk"
  by (induction w arbitrary: ts) simp_all

lemma rx_compile_block:
  assumes "list_all plain_unit h"
  shows "rx_compile (h @ any_lazy_src @ fence_json @ [0x28] @ any_lazy_src @ [0x29] @ fence) =
           Inr (block_rx h, 1)"
proof -
  have l: "rx_lex None (h @ any_lazy_src @ fence_json @ [0x28] @ any_lazy_src @ [0x29] @ fence) =
     Inr (map (TAtom \<circ> RChar) h @ [TAtom (RClass False [CSpace, CNotSpace]), TQuant 0 None False] @
          map (TAtom \<circ> RChar) fence_json @
          [TOpen True, TAtom (RClass False [CSpace, CNotSpace]), TQuant 0 None False, TClose] @
          map (TAtom \<circ> RChar) fence)"
    by (rule rx_lex_plain [OF assms suffix_lex])
  show ?thesis
    unfolding rx_compile_def l sum.case rx_parse_atoms
    by (simp add: comp_def fence_json_def fence_def frame_rx_def seq_of_def
        block_rx_def any_lazy_def rx_seq_def js_def)
qed

end
