(* ===== verification/TemplateRx.thy ===== *)
theory TemplateRx
  imports Template RegexParse
begin

text \<open>
  \<open>loadTemplate\<close> (generate.js, lines 43--81) with the template name read as pattern
  syntax, as the \<open>RegExp\<close> constructor of line 54 reads it. The result is \<open>None\<close> when the
  name uses syntax the model leaves out (\<open>RegexParse\<close>). For names without
  metacharacters it is the \<open>Template.load_template\<close> of the rest of the development.
\<close>

text \<open>\<open>content.match(pattern)\<close> and its \<open>match[1]\<close>: no match, or the capture (\<open>None\<close> for undefined).\<close>

definition tpl_match :: "rx \<Rightarrow> jstr \<Rightarrow> jstr option option" where
  "tpl_match r content = map_option (\<lambda>(i, j, c). rx_capture content c 1) (rx_match r content)"

text \<open>
  The \<open>try\<close> block of lines 58--60: \<open>match[1].trim()\<close> throws a \<open>TypeError\<close> on an
  undefined capture, which the \<open>catch\<close> handles like a parse error.
\<close>

definition capture_items :: "jstr option \<Rightarrow> jsv option" where
  "capture_items m = (case m of None \<Rightarrow> None | Some raw \<Rightarrow> block_items raw)"

text \<open>Lines 69--77: the literal pattern of the \<open>default\<close> section.\<close>

definition default_block :: "jstr \<Rightarrow> jsv" where
  "default_block content =
     (case tpl_match (block_rx (heading (js ''default''))) content of
        None \<Rightarrow> get_default_items
      | Some m \<Rightarrow> (case capture_items m of Some v \<Rightarrow> v | None \<Rightarrow> get_default_items))"

definition load_template_rx :: "catalog \<Rightarrow> jstr \<Rightarrow> (warning list \<times> (js_error + jsv)) option" where
  "load_template_rx cat name =
     (case cat of
        NoCatalog \<Rightarrow> Some ([WarnNoCatalog], Inr get_default_items)
      | UnreadableCatalog \<Rightarrow> Some ([], Inl IOError)
      | CatalogText content \<Rightarrow>
          (case rx_compile (tpl_src name) of
             Inl RxUnsupported \<Rightarrow> None
           | Inl RxSyntax \<Rightarrow> Some ([], Inl SyntaxError)
           | Inr (r, n) \<Rightarrow>
               (let (w1, r1) =
                      (case tpl_match r content of
                         None \<Rightarrow> ([], None)
                       | Some m \<Rightarrow>
                           (case capture_items m of
                              Some v \<Rightarrow> ([], Some v)
                            | None \<Rightarrow> ([WarnParseFailed name], None)))
                in case r1 of
                     Some v \<Rightarrow> Some (w1, Inr v)
                   | None \<Rightarrow>
                       if name \<noteq> js ''default''
                       then Some (w1 @ [WarnTemplateNotFound name], Inr (default_block content))
                       else Some (w1, Inr get_default_items))))"

text \<open>A catalog whose \<open>custom\<close> section lists one entry.\<close>

definition catalog_custom :: jstr where
  "catalog_custom = js ''## custom\<newline>```json\<newline>{\"items\": [{\"function\": \"X\", \"points\": \"Y\"}]}\<newline>```\<newline>''"

subsection \<open>Names without metacharacters\<close>

lemma plain_heading: "regex_plain name \<Longrightarrow> list_all plain_unit (heading name)"
  by (simp add: regex_plain_def plain_unit_def [abs_def] heading_def js_def)

lemma compile_plain: "regex_plain name \<Longrightarrow> rx_compile (tpl_src name) = Inr (block_rx (heading name), 1)"
  unfolding tpl_src_def by (rule rx_compile_block [OF plain_heading])

lemma tpl_match_block: "tpl_match (block_rx h) content = map_option Some (regex_exec h content)"
  using rx_match_block_scan [of content h] by (simp add: tpl_match_def)

text \<open>
  C29. Refinement: for a name without regular-expression metacharacters,
  \<open>loadTemplate\<close> with the name compiled by the \<open>RegExp\<close> constructor and run by the
  general engine is the \<open>load_template\<close> of \<open>Template\<close>, warnings included, for every
  catalog.
\<close>

theorem load_template_rx_plain:
  assumes "regex_plain name"
  shows "load_template_rx cat name = Some (load_template cat name)"
  using assms
  by (simp add: load_template_rx_def load_template_def compile_plain tpl_match_block default_block_def
      capture_items_def option.map_comp comp_def split: catalog.split option.split)

lemma rx_compile_close:
  assumes "list_all plain_unit h"
  shows "rx_compile (h @ [0x29] @ any_lazy_src @ fence_json @ [0x28] @ any_lazy_src @ [0x29] @ fence) = Inl RxSyntax"
proof -
  have "rx_lex None ([0x29] @ any_lazy_src @ fence_json @ [0x28] @ any_lazy_src @ [0x29] @ fence) =
     Inr (TClose # [TAtom (RClass False [CSpace, CNotSpace]), TQuant 0 None False] @
          map (TAtom \<circ> RChar) fence_json @
          [TOpen True, TAtom (RClass False [CSpace, CNotSpace]), TQuant 0 None False, TClose] @
          map (TAtom \<circ> RChar) fence)"
    using suffix_lex by simp
  from rx_lex_plain [OF assms this] show ?thesis
    unfolding rx_compile_def by (simp add: rx_parse_atoms del: rx_lex.simps)
qed

theorem load_template_rx_plain_witness:
  "regex_plain (js ''custom'') \<and>
   load_template_rx (CatalogText catalog_a) (js ''custom'') = Some (load_template (CatalogText catalog_a) (js ''custom''))"
proof -
  have p: "regex_plain (js ''custom'')" by (simp add: regex_plain_def js_def)
  from load_template_rx_plain [OF p] p show ?thesis by simp
qed

text \<open>
  C30. A template name with an unbalanced closing parenthesis makes the \<open>RegExp\<close>
  constructor throw a \<open>SyntaxError\<close> outside any \<open>try\<close>: \<open>loadTemplate\<close> fails
  instead of falling back to the default entries, whatever the catalog holds.
\<close>

theorem load_template_rx_unbalanced:
  assumes "regex_plain name"
  shows "load_template_rx (CatalogText content) (name @ [0x29]) = Some ([], Inl SyntaxError)"
proof -
  have "rx_compile (tpl_src (name @ [0x29])) = Inl RxSyntax"
    using rx_compile_close [OF plain_heading [OF assms]] by (simp add: tpl_src_def heading_def)
  then show ?thesis by (simp add: load_template_rx_def)
qed

theorem load_template_rx_unbalanced_witness:
  "regex_plain (js ''x'') \<and> load_template_rx (CatalogText catalog_a) (js ''x'' @ [0x29]) = Some ([], Inl SyntaxError)"
proof -
  have p: "regex_plain (js ''x'')" by (simp add: regex_plain_def js_def)
  from load_template_rx_unbalanced [OF p] p show ?thesis by simp
qed

subsection \<open>Failures\<close>

lemma truthy_default_block: "truthy (default_block content)"
  by (auto simp: default_block_def capture_items_def truthy_block_items split: option.split)

lemma truthy_capture_items: "capture_items m = Some v \<Longrightarrow> truthy v"
  by (auto simp: capture_items_def truthy_block_items split: option.splits)

text \<open>
  C3. \<open>loadTemplate\<close> throws in exactly two cases, for every catalog and every name the
  model reads: the catalog exists but cannot be read (the \<open>readFileSync\<close> of line 52,
  an I/O error), or it is read and the name is not valid pattern syntax (the \<open>RegExp\<close>
  constructor of line 54, a \<open>SyntaxError\<close>); a missing section or a block that does
  not parse only warns. Whatever it returns is truthy, so \<open>createDocument\<close> never
  sees \<open>undefined\<close> or an empty string.
\<close>

theorem load_template_rx_throws:
  "((\<exists>ws. load_template_rx cat name = Some (ws, Inl err)) \<longleftrightarrow>
      cat = UnreadableCatalog \<and> err = IOError \<or>
      (\<exists>c. cat = CatalogText c) \<and> rx_compile (tpl_src name) = Inl RxSyntax \<and> err = SyntaxError) \<and>
   (load_template_rx cat name = Some (ws, Inr v) \<longrightarrow> truthy v)"
  by (auto simp: load_template_rx_def Let_def truthy_default_block truthy_capture_items
      split: catalog.splits sum.splits rx_error.splits prod.splits option.splits if_splits)

theorem load_template_rx_throws_witness:
  "(\<exists>ws. load_template_rx (CatalogText catalog_a) (js ''x'' @ [0x29]) = Some (ws, Inl SyntaxError)) \<and>
   truthy get_default_items"
proof -
  have p: "regex_plain (js ''x'')" by (simp add: regex_plain_def js_def)
  have l: "load_template_rx NoCatalog (js ''x'') = Some ([WarnNoCatalog], Inr get_default_items)"
    by (simp add: load_template_rx_def)
  have "rx_compile (tpl_src (js ''x'' @ [0x29])) = Inl RxSyntax"
    using rx_compile_close [OF plain_heading [OF p]] by (simp add: tpl_src_def heading_def)
  with load_template_rx_throws [of "CatalogText catalog_a" "js ''x'' @ [0x29]" SyntaxError]
    load_template_rx_throws [of NoCatalog "js ''x''" _ "[WarnNoCatalog]" get_default_items] l
  show ?thesis by simp
qed

text \<open>
  A capturing group in the template name shifts the group numbers: for the name
  \<^verbatim>\<open>(custom)\<close> the pattern matches the \<open>custom\<close> section, but \<open>match[1]\<close> is the
  heading text \<^verbatim>\<open>custom\<close>, not the block; \<open>JSON.parse\<close> rejects it, and the section's
  entries are replaced by the built-in ones after two warnings.
\<close>

theorem load_template_rx_group_shift:
  "load_template_rx (CatalogText catalog_custom) (js ''(custom)'') =
     Some ([WarnParseFailed (js ''(custom)''), WarnTemplateNotFound (js ''(custom)'')], Inr get_default_items)"
  unfolding catalog_custom_def by code_simp

end
