(* ===== verification/Spec2Isabelle.thy ===== *)
theory Spec2Isabelle
  imports Console CatalogRender TemplateRx
begin

text \<open>
  Verification development of the report generator of the xingxin-test-doc skill
  (src/skills/xingxin-test-doc/scripts/generate.js). The program parses its command
  line (\<open>parseArgs\<close>, lines 14--40), resolves a checklist template from the catalog
  \<open>references/templates.md\<close> (\<open>loadTemplate\<close>, \<open>getDefaultItems\<close>, lines 43--93),
  builds a docx document model from the entries and the metadata (\<open>createDocument\<close>,
  lines 96--413), derives the file name from the tester's name, creates the output
  directory and writes the encoded document (lines 416--429); \<open>main\<close> (lines 433--455)
  prints progress and sets the exit code.

  Strings are JavaScript strings, lists of UTF-16 code units (\<open>Prelude.jstr\<close>, a list
  of \<open>16 word\<close>); ASCII literals of the source are \<open>js ''...''\<close>, the Chinese ones their
  code units. Exceptions are values: \<open>js_error + 'a\<close> (\<open>Inl\<close> the exception).

  Theories, in import order, and what they model:
  \<^item> \<open>Prelude\<close>: the string type, the search combinator \<open>first_some\<close> (the order in
    which a backtracking regular-expression engine tries candidates) and shared lemmas.
  \<^item> \<open>JsValue\<close>: JSON values, \<open>undefined\<close>, the exceptions, truthiness (\<open>||\<close>) and
    property access (\<open>o.k\<close>, a \<open>TypeError\<close> on \<open>null\<close>).
  \<^item> \<open>CatalogMatch\<close>: the pattern \<^verbatim>\<open>## NAME[\s\S]*?```json([\s\S]*?)```\<close> with
    flag \<open>i\<close> of lines 54 and 69 as the engine runs it (\<open>regex_exec\<close>), and the
    first-occurrence scan \<open>find_block\<close>; C5 proves them equal.
  \<^item> \<open>Json\<close>: \<open>String.prototype.trim\<close> and \<open>JSON.parse\<close> (lines 59, 72), a recursive
    descent with fuel. The fuel \<open>json_fuel s = 2 * length s + 2\<close> is enough because
    every nested call consumes input, and more fuel never changes a result
    (\<open>Json.fuel_mono\<close>); \<open>Json.json_parse_fuel_adequate\<close> states that \<open>json_parse\<close>
    accepts exactly the inputs on which the parser succeeds with some fuel, so the bound
    never cuts a parse short.
  \<^item> \<open>JsonPrint\<close>: a printer of JSON values as a catalog writer produces them (strings
    with the quote, the backslash, control characters and the backtick escaped, numbers as
    mantissa and exponent). \<open>JsonPrint.json_parse_print\<close> is the round trip: \<open>JSON.parse\<close> reads every printed
    value back as itself.
  \<^item> \<open>Template\<close>: \<open>loadTemplate\<close> and \<open>getDefaultItems\<close>: the three-step fallback with its
    warnings as a list beside the result. C1, C2, C4 and C23 state its behaviour on every
    branch for names without metacharacters, including the divergences from the
    specification.
  \<^item> \<open>CatalogRender\<close>: catalogs written from an entry list (heading, fenced block,
    printed \<open>{"items": [...]}\<close>). C24 composes the regular expression, \<open>trim\<close>,
    \<open>JSON.parse\<close> and \<open>loadTemplate\<close>: a template present in the catalog yields exactly
    its entries, for every entry list.
  \<^item> \<open>DocModel\<close>: the document tree of \<open>createDocument\<close> as records and datatypes
    (runs, paragraphs, cells, tables, styles, header, footer, body); the checklist rows
    built by \<open>forEach\<close> with index-parity shading, and the metadata table. C6--C11.
  \<^item> \<open>Args\<close>: \<open>parseArgs\<close>, the options record, pairwise argument reading and the usage
    exit; C12 refines the loop to a map update, C13--C15 its outcomes, C25 the type of
    the options it returns (\<open>Args.options_ok\<close>: every field a non-empty string).
  \<^item> \<open>Path\<close>: Node's POSIX \<open>path.resolve\<close> and \<open>path.dirname\<close> on the output path,
    with the invariant that resolved segments are proper names.
  \<^item> \<open>Generator\<close>: \<open>createDocument\<close> and \<open>main\<close> as functions of the file-system
    outcomes (record \<open>env\<close>) returning their effect trace (\<open>event list\<close>) and result or
    exit code. C16--C17 the output place, for every working and output directory, of a
    plain user name and of one with \<^verbatim>\<open>..\<close> segments; C18--C19 success and write safety
    of \<open>createDocument\<close> in every environment, C20 the exit code, C21--C22 the runs
    that fail on a non-array \<open>items\<close> and on an unreadable catalog.
  \<^item> \<open>Regex\<close>, \<open>RegexParse\<close>, \<open>TemplateRx\<close>: the template name as pattern syntax.
    \<open>RegexParse.rx_compile\<close> is the \<open>RegExp\<close> constructor of line 54 (lexer with class
    mode, stack parser numbering capturing groups, Annex B literals, \<open>SyntaxError\<close> as
    \<open>RxSyntax\<close>); \<open>Regex.mt\<close> is the backtracking matcher (list of end states in the
    engine's order: alternatives left first, greedy and lazy repetition with the
    empty-iteration check and capture reset of \<open>RepeatMatcher\<close>, case folding of flag
    \<open>i\<close>), \<open>Regex.rx_match\<close> the search of \<open>String.prototype.match\<close>. The matcher is a
    total \<open>function\<close>: its recursion decreases the term, then the distance to the end of
    the subject, then the repetition minimum (\<open>Regex.mt_bounds\<close> bounds every end
    position). C28 shows the engine on a literal heading's pattern is
    \<open>CatalogMatch.regex_exec\<close>; C29 refines \<open>TemplateRx.load_template_rx\<close> to
    \<open>Template.load_template\<close> for names without metacharacters; C3 states for every name
    when \<open>loadTemplate\<close> throws (an unreadable catalog, a name that is not pattern syntax);
    C30 is an instance, an unbalanced parenthesis, and
    \<open>TemplateRx.load_template_rx_group_shift\<close> shows a capturing group taking
    \<open>match[1]\<close> from the block.
  \<^item> \<open>Console\<close>: the text and stream of every line the program prints (lines 34--35,
    47, 62, 68, 436--452), one group of lines per event of the trace (\<open>console_of\<close>),
    with \<open>error.message\<close> as a parameter. C26: the last line is on standard output
    exactly when the exit code is 0; C27: the whole console of a run with a user.

  Not modelled: the docx library beyond the tree the code passes to it
  (\<open>Packer.toBuffer\<close> is an outcome that succeeds or fails, the XML it writes is not
  modelled), the file system beyond the outcomes the code distinguishes (\<open>writeFileSync\<close>
  either writes the whole buffer or throws before writing; a partial or truncated write
  is not distinguished from a failed one), Windows path rules, the
  text of \<open>error.message\<close> (engine-specific; a parameter of \<open>Console.console\<close>).
  \<open>Template.load_template\<close>, which the other components use, reads the template name
  literally; \<open>TemplateRx.load_template_rx\<close> reads it as the engine does and agrees on the
  names of \<open>Template.regex_plain\<close> (C29). Names using back-references or octal escapes,
  \<^verbatim>\<open>\c\<close>, \<^verbatim>\<open>\x\<close>, \<^verbatim>\<open>\u\<close>, \<^verbatim>\<open>\k\<close>, lookaround or named groups are outside
  the regular-expression model (\<open>RxUnsupported\<close>, result \<open>None\<close>); case folding covers
  the ASCII letters. Numbers of
  the catalog keep their decimal form; only whether they are zero is observed.
\<close>

end
